(* ===== verification/Zx_Prelude.thy ===== *)
theory Zx_Prelude
  imports Complex_Main "HOL-Library.Sublist"
begin

text \<open>
  Shared vocabulary of the development: the fragment of Python that the \<open>zxlite\<close> sources use.

  \<^item> Python strings are \<^typ>\<open>string\<close> (lists of \<^typ>\<open>char\<close>): one character is one code point below
    256, so the character classes below (\<open>isspace\<close>, \<open>isalpha\<close>, \<open>isdigit\<close>, \<open>lower\<close>) are Python's
    on exactly that alphabet (Latin-1).
  \<^item> Python objects that reach the driver as \<open>Any\<close> are values of \<open>pyobj\<close>.
  \<^item> String searching, splitting and slicing follow \<open>str.find\<close>, \<open>str.partition\<close>,
    \<open>str.rpartition\<close>, \<open>str.split\<close> and \<open>str.strip\<close>.
  \<^item> A computation that can raise is a \<open>result\<close>, that is \<open>error + value\<close>; \<open>rbind\<close> sequences two of
    them and stops at the first error.

  The collections \<open>pystr_simps\<close> and \<open>result_simps\<close> gather the rewrite rules that the component
  theories hand to the simplifier.
\<close>

named_theorems pystr_simps "rewrite rules for the Python string operations"
named_theorems result_simps "rewrite rules for the error monad"

section \<open>Python values\<close>

type_synonym byte_list = "nat list"

datatype pyobj =
    PNone
  | PBool bool
  | PInt int
  | PFloat rat
  | PStr string
  | PBytes byte_list
  | PByteArray byte_list
  | PMemoryView byte_list
  | PTuple "pyobj list"
  | PList "pyobj list"
  | PDict "(pyobj \<times> pyobj) list"
  | PRow "string list" "pyobj list"
  | PObject nat

section \<open>Results\<close>

type_synonym ('e, 'a) result = "'e + 'a"

definition rbind :: "('e, 'a) result \<Rightarrow> ('a \<Rightarrow> ('e, 'b) result) \<Rightarrow> ('e, 'b) result" where
  "rbind m f = (case m of Inl e \<Rightarrow> Inl e | Inr a \<Rightarrow> f a)"

text \<open>A guard \<open>if bad: raise e\<close> followed by the rest of the function.\<close>

definition raise_if :: "bool \<Rightarrow> 'e \<Rightarrow> ('e, 'a) result \<Rightarrow> ('e, 'a) result" where
  "raise_if bad e m = (if bad then Inl e else m)"

text \<open>A list comprehension whose element expression can raise.\<close>

fun rmap :: "('a \<Rightarrow> ('e, 'b) result) \<Rightarrow> 'a list \<Rightarrow> ('e, 'b list) result" where
  "rmap f [] = Inr []"
| "rmap f (x # xs) = rbind (f x) (\<lambda>y. rbind (rmap f xs) (\<lambda>ys. Inr (y # ys)))"

lemma rbind_simps [simp, result_simps]:
  "rbind (Inl e) f = Inl e"
  "rbind (Inr a) f = f a"
  by (simp_all add: rbind_def)

lemma raise_if_simps [simp, result_simps]:
  "raise_if True e m = Inl e"
  "raise_if False e m = m"
  by (simp_all add: raise_if_def)

lemma rbind_Inr_iff [result_simps]: "rbind m f = Inr b \<longleftrightarrow> (\<exists>a. m = Inr a \<and> f a = Inr b)"
  by (cases m) auto

lemma raise_if_Inr_iff [result_simps]: "raise_if bad e m = Inr b \<longleftrightarrow> \<not> bad \<and> m = Inr b"
  by (cases bad) auto

lemma rmap_Inr_iff:
  "rmap f xs = Inr ys \<longleftrightarrow> length ys = length xs \<and> (\<forall>i < length xs. f (xs ! i) = Inr (ys ! i))"
proof (induction xs arbitrary: ys)
  case Nil
  then show ?case by auto
next
  case (Cons x xs)
  show ?case
    by (cases ys) (auto simp: rbind_Inr_iff Cons.IH nth_Cons less_Suc_eq_0_disj split: nat.splits)
qed

lemma rmap_Inr_set: "rmap f xs = Inr ys \<Longrightarrow> y \<in> set ys \<Longrightarrow> \<exists>x \<in> set xs. f x = Inr y"
  by (metis in_set_conv_nth rmap_Inr_iff)

text \<open>A loop that only validates its elements.\<close>

lemma rmap_check:
  "(\<And>x y. f x = Inr y \<longleftrightarrow> y = x \<and> P x) \<Longrightarrow> rmap f xs = Inr ys \<longleftrightarrow> ys = xs \<and> (\<forall>x \<in> set xs. P x)"
  by (induction xs arbitrary: ys) (auto simp: rbind_Inr_iff)

lemma rmap_id: "(\<And>x. x \<in> set xs \<Longrightarrow> f x = Inr x) \<Longrightarrow> rmap f xs = Inr xs"
  by (induction xs) auto

lemma rmap_Inr_map: "(\<And>x. x \<in> set xs \<Longrightarrow> f x = Inr (g x)) \<Longrightarrow> rmap f xs = Inr (map g xs)"
  by (induction xs) auto

section \<open>State machines\<close>

text \<open>
  The contract every stateful component of the driver is verified against: a start condition, a
  step relation and an invariant that the start has and every step keeps. Its lemmas lift the
  contract to every reachable state; the component theories interpret it on their own definitions.
\<close>

locale state_machine =
  fixes start :: "'s \<Rightarrow> bool"
    and step :: "'s \<Rightarrow> 's \<Rightarrow> bool"
    and inv :: "'s \<Rightarrow> bool"
  assumes inv_start: "start s \<Longrightarrow> inv s"
    and inv_step: "inv s \<Longrightarrow> step s t \<Longrightarrow> inv t"
begin

lemma steps_inv: "step\<^sup>*\<^sup>* s t \<Longrightarrow> inv s \<Longrightarrow> inv t"
  by (induction rule: rtranclp_induct) (auto intro: inv_step)

lemma reachable_inv: "start s \<Longrightarrow> step\<^sup>*\<^sup>* s t \<Longrightarrow> inv t"
  by (blast intro: steps_inv inv_start)

lemma reachable_weaken: "start s \<Longrightarrow> step\<^sup>*\<^sup>* s t \<Longrightarrow> (\<And>u. inv u \<Longrightarrow> P u) \<Longrightarrow> P t"
  by (blast intro: reachable_inv)

end

section \<open>Characters\<close>

definition ord_of :: "char \<Rightarrow> nat" where
  "ord_of c = of_char c"

text \<open>\<open>str.isspace\<close>, \<open>str.isalpha\<close>, \<open>str.isdigit\<close> and \<open>str.isalnum\<close> of one Latin-1 character.\<close>

definition py_isspace :: "char \<Rightarrow> bool" where
  "py_isspace c = (let n = ord_of c in
     (9 \<le> n \<and> n \<le> 13) \<or> (28 \<le> n \<and> n \<le> 32) \<or> n = 133 \<or> n = 160)"

definition py_isalpha :: "char \<Rightarrow> bool" where
  "py_isalpha c = (let n = ord_of c in
     (65 \<le> n \<and> n \<le> 90) \<or> (97 \<le> n \<and> n \<le> 122) \<or> n = 170 \<or> n = 181 \<or> n = 186 \<or>
     (192 \<le> n \<and> n \<le> 255 \<and> n \<noteq> 215 \<and> n \<noteq> 247))"

definition ascii_digit :: "char \<Rightarrow> bool" where
  "ascii_digit c = (48 \<le> ord_of c \<and> ord_of c \<le> 57)"

text \<open>The superscripts two, three and one are digits for \<open>isdigit\<close> but not decimal digits.\<close>

definition py_isdigit_char :: "char \<Rightarrow> bool" where
  "py_isdigit_char c = (ascii_digit c \<or> ord_of c \<in> {178, 179, 185})"

definition py_isalnum :: "char \<Rightarrow> bool" where
  "py_isalnum c = (py_isalpha c \<or> py_isdigit_char c \<or> ord_of c \<in> {188, 189, 190})"

definition py_lower_char :: "char \<Rightarrow> char" where
  "py_lower_char c = (let n = ord_of c in
     if (65 \<le> n \<and> n \<le> 90) \<or> (192 \<le> n \<and> n \<le> 222 \<and> n \<noteq> 215) then char_of (n + 32) else c)"

definition hex_value :: "char \<Rightarrow> nat option" where
  "hex_value c = (let n = ord_of c in
     if 48 \<le> n \<and> n \<le> 57 then Some (n - 48)
     else if 65 \<le> n \<and> n \<le> 70 then Some (n - 55)
     else if 97 \<le> n \<and> n \<le> 102 then Some (n - 87)
     else None)"

lemma ord_of_less [simp]: "ord_of c < 256"
  unfolding ord_of_def by (cases c) (simp add: of_char_Char)

lemma ord_of_char_of [simp]: "n < 256 \<Longrightarrow> ord_of (char_of n) = n"
  by (simp add: ord_of_def)

lemma char_of_ord_of [simp]: "char_of (ord_of c) = c"
  by (simp add: ord_of_def)

lemma ord_of_inj: "ord_of c = ord_of d \<longleftrightarrow> c = d"
  by (simp add: ord_of_def)

lemma hex_value_less: "hex_value c = Some v \<Longrightarrow> v < 16"
  by (auto simp: hex_value_def Let_def split: if_splits)

section \<open>Strings\<close>

definition py_lower :: "string \<Rightarrow> string" where
  "py_lower s = map py_lower_char s"

definition startswith :: "string \<Rightarrow> string \<Rightarrow> bool" where
  "startswith s p = (take (length p) s = p)"

text \<open>
  \<open>find_sub p s\<close> is the least position at which \<open>p\<close> occurs in \<open>s\<close>; \<open>py_find s p i\<close> is
  \<open>s.find(p, i)\<close> with \<open>None\<close> for \<open>-1\<close>.
\<close>

fun find_sub :: "string \<Rightarrow> string \<Rightarrow> nat option" where
  "find_sub p [] = (if p = [] then Some 0 else None)"
| "find_sub p (c # s) =
     (if startswith (c # s) p then Some 0 else map_option Suc (find_sub p s))"

definition py_find :: "string \<Rightarrow> string \<Rightarrow> nat \<Rightarrow> nat option" where
  "py_find s p i = (if length s < i then None else map_option (\<lambda>k. i + k) (find_sub p (drop i s)))"

definition py_contains :: "string \<Rightarrow> string \<Rightarrow> bool" where
  "py_contains p s = (find_sub p s \<noteq> None)"

text \<open>\<open>str.partition\<close> and \<open>str.rpartition\<close> at one character: the middle component says whether
  the separator was found.\<close>

fun py_partition :: "char \<Rightarrow> string \<Rightarrow> string \<times> bool \<times> string" where
  "py_partition sep [] = ([], False, [])"
| "py_partition sep (c # s) =
     (if c = sep then ([], True, s)
      else (case py_partition sep s of (pre, found, after) \<Rightarrow> (c # pre, found, after)))"

fun py_rpartition :: "char \<Rightarrow> string \<Rightarrow> string \<times> bool \<times> string" where
  "py_rpartition sep [] = ([], False, [])"
| "py_rpartition sep (c # s) =
     (case py_rpartition sep s of (pre, found, after) \<Rightarrow>
        if found then (c # pre, True, after)
        else if c = sep then ([], True, s)
        else ([], False, c # s))"

fun py_split :: "char \<Rightarrow> string \<Rightarrow> string list" where
  "py_split sep [] = [[]]"
| "py_split sep (c # s) =
     (if c = sep then [] # py_split sep s
      else (case py_split sep s of [] \<Rightarrow> [[c]] | p # ps \<Rightarrow> (c # p) # ps))"

fun py_join :: "char \<Rightarrow> string list \<Rightarrow> string" where
  "py_join sep [] = []"
| "py_join sep [s] = s"
| "py_join sep (s # t # ss) = s @ sep # py_join sep (t # ss)"

definition py_strip :: "string \<Rightarrow> string" where
  "py_strip s = rev (dropWhile py_isspace (rev (dropWhile py_isspace s)))"

definition py_isdigit :: "string \<Rightarrow> bool" where
  "py_isdigit s = (s \<noteq> [] \<and> list_all py_isdigit_char s)"

text \<open>\<open>int(s)\<close> of a string of digits: \<open>None\<close> stands for the \<open>ValueError\<close> of a character that is
  not a decimal digit, or of more than 4300 digits (the interpreter's default conversion limit).\<close>

fun decimal_value :: "int \<Rightarrow> string \<Rightarrow> int option" where
  "decimal_value acc [] = Some acc"
| "decimal_value acc (c # s) =
     (if ascii_digit c then decimal_value (10 * acc + int (ord_of c) - 48) s else None)"

definition py_int :: "string \<Rightarrow> int option" where
  "py_int s = (if s = [] \<or> 4300 < length s then None else decimal_value 0 s)"

subsection \<open>Facts about strings\<close>

lemma startswith_iff_prefix: "startswith s p \<longleftrightarrow> prefix p s"
  unfolding startswith_def by (metis append_eq_conv_conj prefix_def take_is_prefix)

lemma startswith_append [simp, pystr_simps]: "startswith (p @ s) p"
  by (simp add: startswith_def)

lemma startswith_Nil [simp, pystr_simps]: "startswith s []"
  by (simp add: startswith_def)

lemma startswith_Cons [simp, pystr_simps]:
  "startswith [] (c # p) \<longleftrightarrow> False"
  "startswith (d # s) (c # p) \<longleftrightarrow> d = c \<and> startswith s p"
  by (auto simp: startswith_def)

lemma find_sub_Some_le: "find_sub p s = Some k \<Longrightarrow> k + length p \<le> length s"
proof (induction s arbitrary: k)
  case Nil
  then show ?case by (simp split: if_splits)
next
  case (Cons c s)
  show ?case
  proof (cases "startswith (c # s) p")
    case True
    with Cons.prems have "k = 0" by simp
    moreover from True have "length p \<le> length (c # s)"
      by (metis prefix_length_le startswith_iff_prefix)
    ultimately show ?thesis by simp
  next
    case False
    with Cons show ?thesis by auto
  qed
qed

lemma py_find_bounds: "py_find s p i = Some k \<Longrightarrow> i \<le> k \<and> k + length p \<le> length s"
  by (auto simp: py_find_def split: if_splits dest: find_sub_Some_le)

lemma py_partition_append:
  "py_partition sep s = (pre, found, after) \<Longrightarrow>
     s = pre @ (if found then sep # after else []) \<and> sep \<notin> set pre \<and> (\<not> found \<longrightarrow> after = [])"
  by (induction s arbitrary: pre) (auto split: if_splits prod.splits)

lemma py_partition_found [simp]:
  "sep \<notin> set a \<Longrightarrow> py_partition sep (a @ sep # b) = (a, True, b)"
  by (induction a) auto

lemma py_partition_not_found [simp]: "sep \<notin> set s \<Longrightarrow> py_partition sep s = (s, False, [])"
  by (induction s) auto

lemma py_rpartition_append:
  "py_rpartition sep s = (pre, found, after) \<Longrightarrow>
     s = (if found then pre @ sep # after else after) \<and> sep \<notin> set after \<and> (\<not> found \<longrightarrow> pre = [])"
proof (induction s arbitrary: pre found after)
  case Nil
  then show ?case by simp
next
  case (Cons c s)
  obtain b f a where r: "py_rpartition sep s = (b, f, a)" by (cases "py_rpartition sep s") auto
  from Cons.IH [OF r] Cons.prems r show ?case by (auto split: if_splits)
qed

lemma py_rpartition_not_found [simp]: "sep \<notin> set s \<Longrightarrow> py_rpartition sep s = ([], False, s)"
  by (induction s) auto

lemma py_rpartition_found [simp]:
  "sep \<notin> set b \<Longrightarrow> py_rpartition sep (a @ sep # b) = (a, True, b)"
  by (induction a) auto

lemma py_split_nonempty [simp]: "py_split sep s \<noteq> []"
  by (cases s) (auto split: list.splits)

lemma py_split_sep_free: "p \<in> set (py_split sep s) \<Longrightarrow> sep \<notin> set p"
  by (induction s arbitrary: p) (auto split: if_splits list.splits)

lemma py_split_no_sep [simp]: "sep \<notin> set s \<Longrightarrow> py_split sep s = [s]"
  by (induction s) auto

lemma py_split_append:
  "sep \<notin> set a \<Longrightarrow> py_split sep (a @ sep # b) = a # py_split sep b"
  by (induction a) auto

lemma py_split_join:
  "ss \<noteq> [] \<Longrightarrow> (\<And>s. s \<in> set ss \<Longrightarrow> sep \<notin> set s) \<Longrightarrow> py_split sep (py_join sep ss) = ss"
  by (induction sep ss rule: py_join.induct) (auto simp: py_split_append)

lemma py_join_Cons: "ss \<noteq> [] \<Longrightarrow> py_join sep (s # ss) = s @ sep # py_join sep ss"
  by (cases ss) auto

lemma py_join_Cons_Cons: "py_join sep ((c # p) # ps) = c # py_join sep (p # ps)"
  by (cases ps) auto

lemma py_join_split: "py_join sep (py_split sep s) = s"
proof (induction s)
  case Nil
  then show ?case by simp
next
  case (Cons c s)
  obtain p ps where "py_split sep s = p # ps"
    by (cases "py_split sep s") auto
  with Cons.IH show ?case
    by (simp add: py_join_Cons py_join_Cons_Cons)
qed

lemma decimal_value_Some_iff:
  "(\<exists>n. decimal_value acc s = Some n) \<longleftrightarrow> list_all ascii_digit s"
  by (induction s arbitrary: acc) auto

lemma decimal_value_nonneg: "0 \<le> acc \<Longrightarrow> decimal_value acc s = Some n \<Longrightarrow> 0 \<le> n"
proof (induction s arbitrary: acc)
  case Nil
  then show ?case by simp
next
  case (Cons c s)
  from Cons.prems have "0 \<le> 10 * acc + int (ord_of c) - 48" and
    "decimal_value (10 * acc + int (ord_of c) - 48) s = Some n"
    by (auto simp: ascii_digit_def split: if_splits)
  then show ?case by (rule Cons.IH)
qed

lemma py_int_nonneg: "py_int s = Some n \<Longrightarrow> 0 \<le> n"
  by (auto simp: py_int_def split: if_splits intro: decimal_value_nonneg)

lemmas char_class_defs =
  py_isspace_def py_isalpha_def ascii_digit_def py_isdigit_char_def py_isalnum_def
  py_lower_char_def hex_value_def ord_of_def Let_def

end
