(* ===== verification/Zx_Errors.thy ===== *)
theory Zx_Errors
  imports Zx_Prelude
begin

text \<open>
  The DB-API exception hierarchy of \<open>dbapi.py\<close> and the translation of native errors into it:
  \<open>_diagnostic\<close>, \<open>_map_native_error\<close> and \<open>_map_remote_error\<close>.

  An exception is a record of its class, its message and its \<open>category\<close> attribute. A message is
  kept in full where the code builds it from other values it later inspects (native messages and
  diagnostics); elsewhere the model keeps the literal text of the message up to its first
  replacement field. \<open>isinstance\<close> is the class order \<open>exc_type e \<le> C\<close>, instantiated from Python's method
  resolution order. \<open>OutsideAlphabet\<close> is not a Python exception: it marks the inputs whose decoded
  text leaves the alphabet of the model, about which the theorems say nothing.
\<close>

section \<open>Exception classes\<close>

datatype exc_class =
    ExceptionC | WarningC | ErrorC | InterfaceError | DatabaseError | DataError | OperationalError
  | IntegrityError | InternalError | ProgrammingError | NotSupportedError
  | PyTypeError | PyValueError | PyUnicodeDecodeError | PyLookupError | PyIndexError | PyKeyError
  | PyOverflowError | PyUnicodeEncodeError | PyBufferError | PyStopIteration | PyImportError | PyRuntimeError
  | SAArgumentError | SAInvalidRequestError | ZxErrorC
  | OutsideAlphabet

text \<open>The classes an exception of the given class is an instance of.\<close>

fun mro :: "exc_class \<Rightarrow> exc_class list" where
  "mro ExceptionC = [ExceptionC]"
| "mro WarningC = [WarningC, ExceptionC]"
| "mro ErrorC = [ErrorC, ExceptionC]"
| "mro InterfaceError = [InterfaceError, ErrorC, ExceptionC]"
| "mro DatabaseError = [DatabaseError, ErrorC, ExceptionC]"
| "mro DataError = [DataError, DatabaseError, ErrorC, ExceptionC]"
| "mro OperationalError = [OperationalError, DatabaseError, ErrorC, ExceptionC]"
| "mro IntegrityError = [IntegrityError, DatabaseError, ErrorC, ExceptionC]"
| "mro InternalError = [InternalError, DatabaseError, ErrorC, ExceptionC]"
| "mro ProgrammingError = [ProgrammingError, DatabaseError, ErrorC, ExceptionC]"
| "mro NotSupportedError = [NotSupportedError, DatabaseError, ErrorC, ExceptionC]"
| "mro PyTypeError = [PyTypeError, ExceptionC]"
| "mro PyValueError = [PyValueError, ExceptionC]"
| "mro PyUnicodeDecodeError = [PyUnicodeDecodeError, PyValueError, ExceptionC]"
| "mro PyLookupError = [PyLookupError, ExceptionC]"
| "mro PyIndexError = [PyIndexError, PyLookupError, ExceptionC]"
| "mro PyKeyError = [PyKeyError, PyLookupError, ExceptionC]"
| "mro PyOverflowError = [PyOverflowError, ExceptionC]"
| "mro PyUnicodeEncodeError = [PyUnicodeEncodeError, PyValueError, ExceptionC]"
| "mro PyBufferError = [PyBufferError, ExceptionC]"
| "mro PyStopIteration = [PyStopIteration, ExceptionC]"
| "mro PyImportError = [PyImportError, ExceptionC]"
| "mro PyRuntimeError = [PyRuntimeError, ExceptionC]"
| "mro SAArgumentError = [SAArgumentError, ExceptionC]"
| "mro SAInvalidRequestError = [SAInvalidRequestError, ExceptionC]"
| "mro ZxErrorC = [ZxErrorC, ExceptionC]"
| "mro OutsideAlphabet = [OutsideAlphabet]"

instantiation exc_class :: order
begin

definition less_eq_exc_class :: "exc_class \<Rightarrow> exc_class \<Rightarrow> bool" where
  "less_eq_exc_class c d = (d \<in> set (mro c))"

definition less_exc_class :: "exc_class \<Rightarrow> exc_class \<Rightarrow> bool" where
  "less_exc_class c d = (c \<noteq> d \<and> d \<in> set (mro c))"

instance
proof
  fix x y z :: exc_class
  show "x \<le> x" by (cases x) (auto simp: less_eq_exc_class_def)
  show antisym: "x \<le> y \<Longrightarrow> y \<le> x \<Longrightarrow> x = y" by (cases x; cases y) (auto simp: less_eq_exc_class_def)
  show "x < y \<longleftrightarrow> x \<le> y \<and> \<not> y \<le> x"
    by (cases x; cases y) (auto simp: less_eq_exc_class_def less_exc_class_def)
  assume "x \<le> y" and "y \<le> z"
  then show "x \<le> z" by (cases x) (auto simp: less_eq_exc_class_def)
qed

end

record pyexc =
  exc_type :: exc_class
  exc_msg :: string
  exc_category :: "string option"

type_synonym 'a pyres = "(pyexc, 'a) result"

definition exc :: "exc_class \<Rightarrow> string \<Rightarrow> pyexc" where
  "exc c m = \<lparr>exc_type = c, exc_msg = m, exc_category = None\<rparr>"

lemma exc_sel [simp]:
  "exc_type (exc c m) = c" "exc_msg (exc c m) = m" "exc_category (exc c m) = None"
  by (simp_all add: exc_def)

section \<open>Native errors\<close>

text \<open>
  The attributes of a \<open>_ZxError\<close> as \<open>getattr\<close> sees them: \<open>None\<close> when the attribute is absent;
  \<open>zx_str\<close> is \<open>str(error)\<close>.
\<close>

record zx_error =
  zx_code :: "int option"
  zx_category :: "int option"
  zx_message :: "string option"
  zx_str :: string

fun category_names :: "int \<Rightarrow> string option" where
  "category_names n =
    (if n = 0 then Some ''none'' else if n = 1 then Some ''constraint''
     else if n = 2 then Some ''busy'' else if n = 3 then Some ''interrupt''
     else if n = 4 then Some ''misuse'' else if n = 5 then Some ''storage''
     else if n = 6 then Some ''integrity'' else if n = 7 then Some ''availability''
     else if n = 8 then Some ''session'' else if n = 9 then Some ''sql''
     else if n = 10 then Some ''validation'' else None)"

definition ascii_upper :: "string \<Rightarrow> string" where
  "ascii_upper s = map (\<lambda>c. if 97 \<le> ord_of c \<and> ord_of c \<le> 122 then char_of (ord_of c - 32) else c) s"

abbreviation nl :: string where "nl \<equiv> [CHR 0x0A]"

definition diagnostic :: "string \<Rightarrow> string \<Rightarrow> string \<Rightarrow> string" where
  "diagnostic title message hint =
     ''-- '' @ ascii_upper title @ '' --'' @ nl @ nl @ message @ nl @ nl @ ''Hint: '' @ hint"

text \<open>\<open>getattr(error, "category", 0)\<close> and \<open>getattr(error, "message", None) or str(error)\<close>.\<close>

definition error_category :: "zx_error \<Rightarrow> int" where
  "error_category e = (case zx_category e of None \<Rightarrow> 0 | Some c \<Rightarrow> c)"

definition error_message :: "zx_error \<Rightarrow> string" where
  "error_message e = (case zx_message e of None \<Rightarrow> zx_str e | Some m \<Rightarrow> if m = [] then zx_str e else m)"

definition native_exception_type :: "int option \<Rightarrow> int \<Rightarrow> exc_class" where
  "native_exception_type code category =
    (if code = Some 2 then ProgrammingError
     else if code = Some 4 then OperationalError
     else if code = Some 3 then DatabaseError
     else if code = Some 1 then
       (if category = 1 then IntegrityError
        else if category = 10 then ProgrammingError
        else OperationalError)
     else OperationalError)"

definition unavailable_hint :: string where
  "unavailable_hint = ''Check the node status, storage, transport, and quorum, then retry.''"

definition map_native_error :: "zx_error \<Rightarrow> pyexc" where
  "map_native_error e =
    (let category = error_category e;
         exception_type = native_exception_type (zx_code e) category;
         message = (if exception_type = OperationalError \<and> category \<in> {5, 7}
                    then diagnostic ''database unavailable'' (error_message e) unavailable_hint
                    else error_message e)
     in \<lparr>exc_type = exception_type, exc_msg = message,
         exc_category = Some (case category_names category of None \<Rightarrow> ''none'' | Some n \<Rightarrow> n)\<rparr>)"

definition admission_diagnostic :: string where
  "admission_diagnostic =
     diagnostic ''write queue timeout''
       ''The write was not admitted before the configured timeout.''
       ''A plain retry is safe; increase timeout or reduce concurrent writers if contention persists.''"

definition map_remote_error :: "zx_error \<Rightarrow> pyexc" where
  "map_remote_error e =
    (let category = error_category e in
     if zx_code e = Some 3 \<or> category = 6 then
       \<lparr>exc_type = InterfaceError,
        exc_msg = diagnostic ''database identity mismatch'' (error_message e)
          ''Verify the seed list, credentials, and expected_database_id.'',
        exc_category =
          Some (case category_names category of None \<Rightarrow> ''integrity'' | Some n \<Rightarrow> n)\<rparr>
     else
       (let mapped = map_native_error e in
        if exc_type mapped \<le> OperationalError \<and> exc_category mapped = Some ''busy'' \<and>
           py_contains ''admission timed out'' (exc_msg mapped)
        then mapped\<lparr>exc_category := Some ''write_queue_timeout'', exc_msg := admission_diagnostic\<rparr>
        else mapped))"

section \<open>Properties\<close>

definition stable_categories :: "string list" where
  "stable_categories = [''none'', ''constraint'', ''busy'', ''interrupt'', ''misuse'', ''storage'',
     ''integrity'', ''availability'', ''session'', ''sql'', ''validation'', ''write_queue_timeout'']"

lemma category_names_stable: "category_names n = Some s \<Longrightarrow> s \<in> set stable_categories"
  by (auto simp: stable_categories_def split: if_splits)

lemma category_names_busy: "category_names n = Some ''busy'' \<longleftrightarrow> n = 2"
  by auto

lemma category_names_not_timeout: "category_names n \<noteq> Some ''write_queue_timeout''"
  by auto

declare category_names.simps [simp del]

lemma native_exception_type_database: "native_exception_type code cat \<le> DatabaseError"
  by (simp add: native_exception_type_def less_eq_exc_class_def)

lemma operational_le_iff: "c \<le> OperationalError \<longleftrightarrow> c = OperationalError"
  by (cases c) (simp_all add: less_eq_exc_class_def)

lemma native_exception_type_interface: "native_exception_type code cat \<noteq> InterfaceError"
  by (simp add: native_exception_type_def)

lemma native_type_operational_busy:
  "native_exception_type code 2 = OperationalError \<longleftrightarrow> code \<noteq> Some 2 \<and> code \<noteq> Some 3"
  by (simp add: native_exception_type_def)

lemma map_native_error_category:
  "exc_category (map_native_error e) =
     Some (case category_names (error_category e) of None \<Rightarrow> ''none'' | Some n \<Rightarrow> n)"
  by (simp add: map_native_error_def Let_def)

lemma map_native_error_busy:
  "exc_category (map_native_error e) = Some ''busy'' \<longleftrightarrow> error_category e = 2"
  by (auto simp: map_native_error_category category_names_busy [symmetric] split: option.splits)

lemma categorised_not_timeout:
  "d \<noteq> ''write_queue_timeout'' \<Longrightarrow>
     (case category_names n of None \<Rightarrow> d | Some s \<Rightarrow> s) \<noteq> ''write_queue_timeout''"
  using category_names_not_timeout by (auto split: option.splits)

lemma map_native_error_not_timeout:
  "exc_category (map_native_error e) \<noteq> Some ''write_queue_timeout''"
  by (simp add: map_native_error_category categorised_not_timeout)

lemma map_native_error_type:
  "exc_type (map_native_error e) = native_exception_type (zx_code e) (error_category e)"
  by (simp add: map_native_error_def Let_def)

lemma map_native_error_msg_busy:
  "error_category e = 2 \<Longrightarrow> exc_msg (map_native_error e) = error_message e"
  by (simp add: map_native_error_def Let_def)

text \<open>
  C28. Translation of remote native errors is exact where clients branch on it: the stable
  category \<open>write_queue_timeout\<close> (the statement never left the process) is attached to precisely the
  busy errors whose message reports an admission timeout and whose return code is neither
  misuse (2) nor integrity (3); an \<open>InterfaceError\<close> is raised precisely for return code 3 or
  category 6 (database identity mismatch).
\<close>

theorem map_remote_error_exact:
  "(exc_category (map_remote_error e) = Some ''write_queue_timeout'' \<longleftrightarrow>
      error_category e = 2 \<and> zx_code e \<noteq> Some 2 \<and> zx_code e \<noteq> Some 3 \<and>
      py_contains ''admission timed out'' (error_message e)) \<and>
   (exc_type (map_remote_error e) = InterfaceError \<longleftrightarrow>
      zx_code e = Some 3 \<or> error_category e = 6)"
proof (cases "zx_code e = Some 3 \<or> error_category e = 6")
  case True
  then show ?thesis using categorised_not_timeout [of "''integrity''"]
    by (auto simp: map_remote_error_def Let_def)
next
  case False
  then show ?thesis
    by (auto simp: map_remote_error_def Let_def operational_le_iff map_native_error_type
        native_exception_type_interface map_native_error_busy native_type_operational_busy
        map_native_error_msg_busy map_native_error_not_timeout)
qed

text \<open>
  Every native error, local or remote, surfaces as an instance of the DB-API base class
  \<open>Error\<close> and carries one of the documented stable category names; a local one is always a
  \<open>DatabaseError\<close>.
\<close>

lemma mapped_errors_stable:
  "exc_type (map_native_error e) \<le> DatabaseError \<and>
   exc_type (map_remote_error e) \<le> ErrorC \<and>
   (\<exists>c \<in> set stable_categories. exc_category (map_native_error e) = Some c) \<and>
   (\<exists>c \<in> set stable_categories. exc_category (map_remote_error e) = Some c)"
proof -
  have db: "exc_type (map_native_error e) \<le> DatabaseError"
    by (simp add: map_native_error_type native_exception_type_database)
  then have err: "exc_type (map_native_error e) \<le> ErrorC"
    by (rule order_trans) (simp add: less_eq_exc_class_def)
  have cat: "\<exists>c \<in> set stable_categories. Some (case category_names n of None \<Rightarrow> d | Some s \<Rightarrow> s) = Some c"
    if "d \<in> set stable_categories" for n d
    using that category_names_stable by (auto split: option.splits)
  have none: "''none'' \<in> set stable_categories" and
    int: "''integrity'' \<in> set stable_categories" and
    wqt: "''write_queue_timeout'' \<in> set stable_categories"
    by (simp_all add: stable_categories_def)
  have nat: "\<exists>c \<in> set stable_categories. exc_category (map_native_error e) = Some c"
    unfolding map_native_error_category by (rule cat [OF none])
  have "\<exists>c \<in> set stable_categories. exc_category (map_remote_error e) = Some c"
    using nat cat [OF int, of "error_category e"] wqt by (auto simp: map_remote_error_def Let_def)
  moreover have "exc_type (map_remote_error e) \<le> ErrorC"
    using err by (auto simp: map_remote_error_def Let_def less_eq_exc_class_def)
  ultimately show ?thesis using db nat by blast
qed

end
