(* ===== verification/Zx_Rows.thy ===== *)
theory Zx_Rows
  imports Zx_Errors
begin

text \<open>
  \<open>Row\<close> of \<open>rows.py\<close>: the column names and values captured from a cursor, access by integer
  index, slice and case-insensitive name, length, iteration, equality and \<open>keys()\<close>, with Python's
  indexing and slicing rules for a tuple of values.

  A cursor description is the list of its column names: the six other fields of every entry are the
  constant \<open>None\<close>. A \<^const>\<open>PRow\<close> value of \<^typ>\<open>pyobj\<close> is a \<open>Row\<close> object.
\<close>

section \<open>Tuples\<close>

text \<open>\<open>values[i]\<close>: a negative index counts from the end, any other index out of range raises.\<close>

definition py_index :: "'a list \<Rightarrow> int \<Rightarrow> 'a pyres" where
  "py_index xs i =
    (let n = int (length xs); j = (if i < 0 then i + n else i) in
     if 0 \<le> j \<and> j < n then Inr (xs ! nat j)
     else Inl (exc PyIndexError ''tuple index out of range''))"

text \<open>\<open>slice.indices(n)\<close> and the positions a slice selects.\<close>

record pyslice =
  sl_start :: "int option"
  sl_stop :: "int option"
  sl_step :: "int option"

definition clamp_index :: "int \<Rightarrow> int \<Rightarrow> int \<Rightarrow> int \<Rightarrow> int" where
  "clamp_index n lower upper i = (if i < 0 then max (i + n) lower else min i upper)"

definition slice_bounds :: "int \<Rightarrow> pyslice \<Rightarrow> int \<Rightarrow> int \<times> int" where
  "slice_bounds n sl step =
    (let lower = (if step < 0 then -1 else 0);
         upper = (if step < 0 then n - 1 else n);
         start = (case sl_start sl of
             None \<Rightarrow> if step < 0 then upper else lower | Some i \<Rightarrow> clamp_index n lower upper i);
         stop = (case sl_stop sl of
             None \<Rightarrow> if step < 0 then lower else upper | Some i \<Rightarrow> clamp_index n lower upper i)
     in (start, stop))"

definition range_count :: "int \<Rightarrow> int \<Rightarrow> int \<Rightarrow> nat" where
  "range_count start stop step =
    (if 0 < step then nat ((stop - start + step - 1) div step)
     else nat ((start - stop - step - 1) div (- step)))"

definition slice_positions :: "int \<Rightarrow> pyslice \<Rightarrow> int \<Rightarrow> int list" where
  "slice_positions n sl step =
    (case slice_bounds n sl step of (start, stop) \<Rightarrow>
       map (\<lambda>k. start + int k * step) [0 ..< range_count start stop step])"

definition py_slice :: "'a list \<Rightarrow> pyslice \<Rightarrow> 'a list pyres" where
  "py_slice xs sl =
    (let step = (case sl_step sl of None \<Rightarrow> 1 | Some s \<Rightarrow> s) in
     if step = 0 then Inl (exc PyValueError ''slice step cannot be zero'')
     else Inr (map (\<lambda>i. xs ! nat i) (slice_positions (int (length xs)) sl step)))"

section \<open>Rows\<close>

record row =
  row_columns :: "string list"
  row_values :: "pyobj list"

datatype row_key = KeyInt int | KeySlice pyslice | KeyStr string | KeyOther

definition row_init :: "string list option \<Rightarrow> pyobj list \<Rightarrow> row" where
  "row_init description values =
    \<lparr>row_columns = (case description of None \<Rightarrow> [] | Some names \<Rightarrow> names), row_values = values\<rparr>"

definition row_obj :: "row \<Rightarrow> pyobj" where
  "row_obj r = PRow (row_columns r) (row_values r)"

definition row_keys :: "row \<Rightarrow> string list" where
  "row_keys r = row_columns r"

text \<open>The loop over \<open>zip(columns, values, strict=True)\<close>: unequal lengths raise when one side ends.\<close>

fun row_lookup :: "string \<Rightarrow> string list \<Rightarrow> pyobj list \<Rightarrow> pyobj pyres" where
  "row_lookup folded (name # names) (v # vs) =
     (if py_lower name = folded then Inr v else row_lookup folded names vs)"
| "row_lookup folded [] [] = Inl (exc PyIndexError ''no such column: '')"
| "row_lookup folded names vs = Inl (exc PyValueError ''zip() argument 2 is '')"

definition row_getitem :: "row \<Rightarrow> row_key \<Rightarrow> pyobj pyres" where
  "row_getitem r key =
    (case key of
       KeyInt i \<Rightarrow> py_index (row_values r) i
     | KeySlice sl \<Rightarrow> rbind (py_slice (row_values r) sl) (\<lambda>vs. Inr (PTuple vs))
     | KeyStr k \<Rightarrow> row_lookup (py_lower k) (row_columns r) (row_values r)
     | KeyOther \<Rightarrow> Inl (exc PyTypeError ''indices must be integers, slices, or strings, not ''))"

definition row_len :: "row \<Rightarrow> nat" where
  "row_len r = length (row_values r)"

definition row_iter :: "row \<Rightarrow> pyobj list" where
  "row_iter r = row_values r"

text \<open>
  Python's \<open>==\<close> on the values SQLite produces: numbers compare across \<open>bool\<close>, \<open>int\<close> and \<open>float\<close>,
  byte strings across their types, sequences element by element, other objects by identity.
\<close>

fun num_value :: "pyobj \<Rightarrow> rat option" where
  "num_value (PBool b) = Some (if b then 1 else 0)"
| "num_value (PInt i) = Some (of_int i)"
| "num_value (PFloat q) = Some q"
| "num_value _ = None"

fun bytes_value :: "pyobj \<Rightarrow> byte_list option" where
  "bytes_value (PBytes b) = Some b"
| "bytes_value (PByteArray b) = Some b"
| "bytes_value (PMemoryView b) = Some b"
| "bytes_value _ = None"

fun py_eq :: "pyobj \<Rightarrow> pyobj \<Rightarrow> bool" and py_eqs :: "pyobj list \<Rightarrow> pyobj list \<Rightarrow> bool" where
  "py_eq (PTuple xs) (PTuple ys) = py_eqs xs ys"
| "py_eq (PList xs) (PList ys) = py_eqs xs ys"
| "py_eq (PRow cs xs) (PRow ds ys) = (cs = ds \<and> py_eqs xs ys)"
| "py_eq x y =
     (x = y \<or> num_value x \<noteq> None \<and> num_value x = num_value y \<or>
      bytes_value x \<noteq> None \<and> bytes_value x = bytes_value y)"
| "py_eqs [] [] = True"
| "py_eqs (x # xs) (y # ys) = (py_eq x y \<and> py_eqs xs ys)"
| "py_eqs _ _ = False"

text \<open>\<open>Row.__eq__\<close>: \<open>None\<close> is \<open>NotImplemented\<close>.\<close>

definition row_eq :: "row \<Rightarrow> pyobj \<Rightarrow> bool option" where
  "row_eq r other =
    (case other of
       PRow cs vs \<Rightarrow> Some (row_columns r = cs \<and> py_eqs (row_values r) vs)
     | _ \<Rightarrow> None)"

text \<open>
  \<open>Row.__hash__\<close> and \<open>Row.__repr__\<close>, over the interpreter's \<open>hash\<close> and \<open>repr\<close> of values. The strict \<open>zip\<close>
  raises for a row built without a description.
\<close>

definition row_hash :: "(pyobj \<Rightarrow> int pyres) \<Rightarrow> row \<Rightarrow> int pyres" where
  "row_hash py_hash r = py_hash (PTuple [PTuple (map PStr (row_columns r)), PTuple (row_values r)])"

fun row_pairs :: "(pyobj \<Rightarrow> string) \<Rightarrow> string list \<Rightarrow> pyobj list \<Rightarrow> string list pyres" where
  "row_pairs py_repr (name # names) (v # vs) =
     rbind (row_pairs py_repr names vs) (\<lambda>rest. Inr ((name @ ''='' @ py_repr v) # rest))"
| "row_pairs py_repr [] [] = Inr []"
| "row_pairs py_repr names vs = Inl (exc PyValueError ''zip() argument 2 is '')"

fun comma_join :: "string list \<Rightarrow> string" where
  "comma_join [] = []"
| "comma_join [s] = s"
| "comma_join (s # t # ss) = s @ '', '' @ comma_join (t # ss)"

definition row_repr :: "(pyobj \<Rightarrow> string) \<Rightarrow> row \<Rightarrow> string pyres" where
  "row_repr py_repr r =
    rbind (row_pairs py_repr (row_columns r) (row_values r)) (\<lambda>pairs.
      Inr (''<zxlite.Row '' @ comma_join pairs @ ''>''))"

lemma row_pairs_ok:
  "(\<exists>ps. row_pairs py_repr names vs = Inr ps) \<longleftrightarrow> length names = length vs"
  by (induction py_repr names vs rule: row_pairs.induct) (auto simp: rbind_Inr_iff)

text \<open>A row shows itself exactly when it has one value per column.\<close>

lemma row_repr_ok: "(\<exists>s. row_repr py_repr r = Inr s) \<longleftrightarrow> length (row_columns r) = length (row_values r)"
  using row_pairs_ok [of py_repr "row_columns r" "row_values r"] by (auto simp: row_repr_def rbind_Inr_iff)

text \<open>Rows that compare equal have equal hashes, provided \<open>hash\<close> respects \<open>==\<close> on tuples.\<close>

lemma equal_rows_hash:
  assumes "\<And>xs ys i j. py_eqs xs ys \<Longrightarrow> py_hash (PTuple xs) = Inr i \<Longrightarrow> py_hash (PTuple ys) = Inr j \<Longrightarrow> i = j"
    and "row_eq r (row_obj r') = Some True" and "row_hash py_hash r = Inr i" and "row_hash py_hash r' = Inr j"
  shows "i = j"
proof -
  have "row_columns r = row_columns r' \<and> py_eqs (row_values r) (row_values r')"
    using assms(2) by (simp add: row_eq_def row_obj_def)
  moreover have refl: "py_eqs (map PStr ss) (map PStr ss)" for ss by (induction ss) simp_all
  ultimately have "py_eqs [PTuple (map PStr (row_columns r)), PTuple (row_values r)]
      [PTuple (map PStr (row_columns r')), PTuple (row_values r')]" by simp
  from assms(1) [OF this] assms(3,4) show ?thesis by (simp add: row_hash_def)
qed

section \<open>Indexing and slicing\<close>

lemma py_index_Inr_iff:
  "py_index xs i = Inr v \<longleftrightarrow>
     - int (length xs) \<le> i \<and> i < int (length xs) \<and> v = xs ! nat (i mod int (length xs))"
proof -
  have "(if i < 0 then i + int (length xs) else i) = i mod int (length xs)"
    if "- int (length xs) \<le> i" "i < int (length xs)"
    using that
    by (smt (verit) mod_add_self2 mod_pos_pos_trivial)
  then show ?thesis
    by (auto simp: py_index_def Let_def split: if_splits)
qed

lemma clamp_index_bounds:
  "lower \<le> upper \<Longrightarrow> lower \<le> 0 \<Longrightarrow> n \<le> upper + 1 \<Longrightarrow> 0 \<le> n \<Longrightarrow>
     lower \<le> clamp_index n lower upper i \<and> clamp_index n lower upper i \<le> upper"
  by (auto simp: clamp_index_def)

lemma slice_bounds_within:
  assumes "0 \<le> n" and "slice_bounds n sl step = (start, stop)"
  shows "(if step < 0 then -1 \<le> start \<and> start < n \<and> -1 \<le> stop \<and> stop < n
          else 0 \<le> start \<and> start \<le> n \<and> 0 \<le> stop \<and> stop \<le> n)"
  using assms
  by (auto simp: slice_bounds_def Let_def clamp_index_def min_def max_def split: option.splits if_splits)

lemma range_positions_within:
  assumes "step \<noteq> 0" and "k < range_count start stop step"
  shows "if 0 < step then start \<le> start + int k * step \<and> start + int k * step < stop
         else stop < start + int k * step \<and> start + int k * step \<le> start"
proof -
  have bound: "int k * s < d" if "0 < s" "int k < (d + s - 1) div s" for s d :: int
  proof -
    have "(int k + 1) * s \<le> (d + s - 1) div s * s"
      using that by (intro mult_right_mono) auto
    also have "\<dots> \<le> d + s - 1"
      using that(1) by (metis (no_types) div_mult_mod_eq le_add_same_cancel1 pos_mod_sign)
    finally show ?thesis by (simp add: algebra_simps)
  qed
  show ?thesis
  proof (cases "0 < step")
    case True
    with assms(2) have "int k < (stop - start + step - 1) div step"
      by (auto simp: range_count_def zless_nat_eq_int_zless)
    from bound [OF True this] True show ?thesis by (simp add: algebra_simps)
  next
    case False
    with assms have "0 < - step" "int k < (start - stop + (- step) - 1) div (- step)"
      by (auto simp: range_count_def zless_nat_eq_int_zless)
    from bound [OF this] False show ?thesis by (simp add: mult_nonneg_nonpos)
  qed
qed

lemma slice_positions_within:
  assumes "0 \<le> n" and "step \<noteq> 0" and "i \<in> set (slice_positions n sl step)"
  shows "0 \<le> i \<and> i < n"
proof -
  obtain start stop where b: "slice_bounds n sl step = (start, stop)" by fastforce
  with assms(3) obtain k where k: "k < range_count start stop step" "i = start + int k * step"
    by (auto simp: slice_positions_def)
  from range_positions_within [OF assms(2) k(1)] slice_bounds_within [OF assms(1) b] k(2) assms(2)
  show ?thesis by (auto split: if_splits)
qed

section \<open>Name access\<close>

lemma row_lookup_first:
  assumes "length names = length vs" and "i < length vs" and "py_lower (names ! i) = folded"
    and "\<And>j. j < i \<Longrightarrow> py_lower (names ! j) \<noteq> folded"
  shows "row_lookup folded names vs = Inr (vs ! i)"
  using assms
proof (induction names vs arbitrary: i rule: list_induct2)
  case Nil
  then show ?case by simp
next
  case (Cons name names v vs)
  show ?case
  proof (cases i)
    case 0
    with Cons.prems show ?thesis by simp
  next
    case (Suc k)
    from Cons.prems(3) [of 0] Suc have "py_lower name \<noteq> folded" by simp
    moreover have "row_lookup folded names vs = Inr (vs ! k)"
    proof (rule Cons.IH)
      show "py_lower (names ! j) \<noteq> folded" if "j < k" for j
        using Cons.prems(3) [of "Suc j"] Suc that by simp
    qed (use Cons.prems Suc in auto)
    ultimately show ?thesis using Suc by simp
  qed
qed

lemma row_lookup_missing:
  assumes "length names = length vs" and "\<And>name. name \<in> set names \<Longrightarrow> py_lower name \<noteq> folded"
  shows "row_lookup folded names vs = Inl (exc PyIndexError ''no such column: '')"
  using assms by (induction names vs rule: list_induct2) auto

text \<open>
  C35. Access by name agrees with access by position: on a row with as many names as values, a name
  that matches a column up to case yields the value of the first such column, and a name that
  matches none raises \<open>IndexError\<close>.
\<close>

theorem row_name_access:
  assumes "length (row_columns r) = length (row_values r)"
  shows "(\<forall>i < row_len r. py_lower (row_columns r ! i) = py_lower key \<longrightarrow>
            (\<forall>j < i. py_lower (row_columns r ! j) \<noteq> py_lower key) \<longrightarrow>
            row_getitem r (KeyStr key) = row_getitem r (KeyInt (int i))) \<and>
         ((\<forall>name \<in> set (row_keys r). py_lower name \<noteq> py_lower key) \<longrightarrow>
            (\<exists>e. row_getitem r (KeyStr key) = Inl e \<and> exc_type e = PyIndexError))"
  using assms row_lookup_first [OF assms] row_lookup_missing [OF assms]
  by (auto simp: row_getitem_def row_len_def row_keys_def py_index_def)

theorem row_name_access_witness:
  "row_getitem (row_init (Some [''Id'', ''NAME'']) [PInt 7, PStr ''x'']) (KeyStr ''name'') =
     row_getitem (row_init (Some [''Id'', ''NAME'']) [PInt 7, PStr ''x'']) (KeyInt 1)"
proof -
  let ?r = "row_init (Some [''Id'', ''NAME'']) [PInt 7, PStr ''x'']"
  have "row_getitem ?r (KeyStr ''name'') = row_getitem ?r (KeyInt (int 1))"
  proof (rule row_name_access [THEN conjunct1, rule_format])
    show "length (row_columns ?r) = length (row_values ?r)" "1 < row_len ?r"
      by (simp_all add: row_init_def row_len_def)
    show "py_lower (row_columns ?r ! 1) = py_lower ''name''" by code_simp
    fix j :: nat
    assume "j < 1"
    moreover have "py_lower ''Id'' \<noteq> py_lower ''name''" by code_simp
    ultimately show "py_lower (row_columns ?r ! j) \<noteq> py_lower ''name''"
      by (simp add: row_init_def)
  qed
  then show ?thesis by simp
qed

lemma slice_all: "0 \<le> n \<Longrightarrow> slice_positions n \<lparr>sl_start = None, sl_stop = None, sl_step = None\<rparr> 1 = map int [0 ..< nat n]"
  by (simp add: slice_positions_def slice_bounds_def range_count_def)

text \<open>
  Slicing a row never reads outside it: for every slice whose step is not zero the result is the
  tuple of the values at the selected positions, each of them a valid index of the row, and the full
  slice is the whole row.
\<close>

lemma row_slice_total:
  assumes "sl_step sl \<noteq> Some 0"
  shows "\<exists>ps. row_getitem r (KeySlice sl) = Inr (PTuple (map (\<lambda>i. row_values r ! nat i) ps)) \<and>
    (\<forall>i \<in> set ps. 0 \<le> i \<and> i < int (row_len r) \<and> row_getitem r (KeyInt i) = Inr (row_values r ! nat i)) \<and>
    (sl = \<lparr>sl_start = None, sl_stop = None, sl_step = None\<rparr> \<longrightarrow> map (\<lambda>i. row_values r ! nat i) ps = row_iter r)"
proof -
  define step where "step = (case sl_step sl of None \<Rightarrow> 1 | Some s \<Rightarrow> s)"
  with assms have nz: "step \<noteq> 0" by (auto split: option.splits)
  let ?ps = "slice_positions (int (row_len r)) sl step"
  have "row_getitem r (KeySlice sl) = Inr (PTuple (map (\<lambda>i. row_values r ! nat i) ?ps))"
    using nz by (simp add: row_getitem_def py_slice_def step_def row_len_def)
  moreover have "0 \<le> i \<and> i < int (row_len r) \<and> row_getitem r (KeyInt i) = Inr (row_values r ! nat i)"
    if "i \<in> set ?ps" for i
    using slice_positions_within [OF _ nz that] by (simp add: row_getitem_def py_index_def row_len_def)
  moreover have "map (\<lambda>i. row_values r ! nat i) ?ps = row_iter r"
    if "sl = \<lparr>sl_start = None, sl_stop = None, sl_step = None\<rparr>"
    using that slice_all [of "int (row_len r)"] by (simp add: step_def row_iter_def row_len_def comp_def map_nth)
  ultimately show ?thesis
    by (intro exI [of _ ?ps]) blast
qed

lemma row_slice_total_example:
  "\<exists>ps. row_getitem (row_init None [PInt 1, PInt 2, PInt 3])
      (KeySlice \<lparr>sl_start = None, sl_stop = Some (-9), sl_step = Some (-2)\<rparr>) =
      Inr (PTuple (map (\<lambda>i. [PInt 1, PInt 2, PInt 3] ! nat i) ps)) \<and> (\<forall>i \<in> set ps. 0 \<le> i \<and> i < 3)"
  using row_slice_total [of "\<lparr>sl_start = None, sl_stop = Some (-9), sl_step = Some (-2)\<rparr>"
      "row_init None [PInt 1, PInt 2, PInt 3]"]
  by (auto simp: row_init_def row_len_def)

end
