(* ===== verification/Zx_Cursor.thy ===== *)
theory Zx_Cursor
  imports Zx_Rows
begin

text \<open>
  \<open>Cursor\<close> of \<open>dbapi.py\<close>: the materialised result set, its position and the fetch operations.

  The fields of the record are the attributes of the class. The cursor sees its connection through
  \<open>conn_view\<close>: the outcome of \<open>connection._check()\<close> and the connection's row factory. A row factory
  is a function of the cursor's description and one tuple of values, as \<open>Row\<close> is; it may raise. An
  operation returns its result or exception and the cursor it leaves behind, also when it raises.
\<close>

section \<open>State\<close>

type_synonym row_factory = "string list option \<Rightarrow> pyobj list \<Rightarrow> pyobj pyres"

record cursor =
  c_arraysize :: int
  c_lastrowid :: "int option"
  c_rowcount :: int
  c_description :: "string list option"
  c_row_factory :: "row_factory option option"
  c_rows :: "pyobj list list"
  c_next_row :: nat
  c_closed :: bool

record conn_view =
  cv_check :: "unit pyres"
  cv_row_factory :: "row_factory option"

text \<open>\<open>zxlite.Row\<close> as a row factory.\<close>

definition Row_factory :: row_factory where
  "Row_factory description values = Inr (row_obj (row_init description values))"

definition cursor_init :: cursor where
  "cursor_init = \<lparr>c_arraysize = 1, c_lastrowid = None, c_rowcount = -1, c_description = None,
     c_row_factory = None, c_rows = [], c_next_row = 0, c_closed = False\<rparr>"

text \<open>The \<open>row_factory\<close> property: \<open>_UNSET\<close> is \<open>None\<close>.\<close>

definition row_factory_get :: "conn_view \<Rightarrow> cursor \<Rightarrow> row_factory option" where
  "row_factory_get v cur =
    (case c_row_factory cur of None \<Rightarrow> cv_row_factory v | Some factory \<Rightarrow> factory)"

definition row_factory_set :: "row_factory option \<Rightarrow> cursor \<Rightarrow> cursor" where
  "row_factory_set factory cur = cur\<lparr>c_row_factory := Some factory\<rparr>"

definition cursor_check :: "conn_view \<Rightarrow> cursor \<Rightarrow> unit pyres" where
  "cursor_check v cur =
    raise_if (c_closed cur) (exc ProgrammingError ''Cannot operate on a closed cursor.'') (cv_check v)"

definition cursor_reset :: "cursor \<Rightarrow> cursor" where
  "cursor_reset cur = cur\<lparr>c_description := None, c_rowcount := -1, c_rows := [], c_next_row := 0\<rparr>"

definition load_read_result :: "string list \<Rightarrow> pyobj list list \<Rightarrow> cursor \<Rightarrow> cursor" where
  "load_read_result column_names rows cur =
     cur\<lparr>c_description := Some column_names, c_rows := rows, c_next_row := 0, c_rowcount := -1\<rparr>"

definition load_returning_result :: "string list \<Rightarrow> pyobj list list \<Rightarrow> cursor \<Rightarrow> cursor" where
  "load_returning_result column_names rows cur =
     cur\<lparr>c_description := Some column_names, c_rows := rows, c_next_row := 0\<rparr>"

section \<open>Fetching\<close>

definition cursor_wrap :: "conn_view \<Rightarrow> cursor \<Rightarrow> pyobj list \<Rightarrow> pyobj pyres" where
  "cursor_wrap v cur values =
    (case row_factory_get v cur of
       None \<Rightarrow> Inr (PTuple values)
     | Some factory \<Rightarrow> factory (c_description cur) values)"

definition fetchone :: "conn_view \<Rightarrow> cursor \<Rightarrow> pyobj pyres \<times> cursor" where
  "fetchone v cur =
    (case cursor_check v cur of
       Inl e \<Rightarrow> (Inl e, cur)
     | Inr _ \<Rightarrow>
         if length (c_rows cur) \<le> c_next_row cur then (Inr PNone, cur)
         else (let values = c_rows cur ! c_next_row cur; cur = cur\<lparr>c_next_row := c_next_row cur + 1\<rparr>
               in (cursor_wrap v cur values, cur)))"

fun fetch_loop :: "conn_view \<Rightarrow> nat \<Rightarrow> pyobj list \<Rightarrow> cursor \<Rightarrow> pyobj list pyres \<times> cursor" where
  "fetch_loop v 0 gathered cur = (Inr gathered, cur)"
| "fetch_loop v (Suc n) gathered cur =
     (case fetchone v cur of
        (Inl e, cur') \<Rightarrow> (Inl e, cur')
      | (Inr r, cur') \<Rightarrow>
          if r = PNone then (Inr gathered, cur') else fetch_loop v n (gathered @ [r]) cur')"

definition fetchmany :: "conn_view \<Rightarrow> int option \<Rightarrow> cursor \<Rightarrow> pyobj list pyres \<times> cursor" where
  "fetchmany v sz cur =
    (case cursor_check v cur of
       Inl e \<Rightarrow> (Inl e, cur)
     | Inr _ \<Rightarrow>
         (let count = (case sz of None \<Rightarrow> c_arraysize cur | Some n \<Rightarrow> n)
          in fetch_loop v (nat count) [] cur))"

definition fetchall :: "conn_view \<Rightarrow> cursor \<Rightarrow> pyobj list pyres \<times> cursor" where
  "fetchall v cur =
    (case cursor_check v cur of
       Inl e \<Rightarrow> (Inl e, cur)
     | Inr _ \<Rightarrow>
         (case rmap (cursor_wrap v cur) (drop (c_next_row cur) (c_rows cur)) of
            Inl e \<Rightarrow> (Inl e, cur)
          | Inr remaining \<Rightarrow> (Inr remaining, cur\<lparr>c_next_row := length (c_rows cur)\<rparr>)))"

definition cursor_next :: "conn_view \<Rightarrow> cursor \<Rightarrow> pyobj pyres \<times> cursor" where
  "cursor_next v cur =
    (case fetchone v cur of
       (Inl e, cur') \<Rightarrow> (Inl e, cur')
     | (Inr r, cur') \<Rightarrow> if r = PNone then (Inl (exc PyStopIteration []), cur') else (Inr r, cur'))"

definition cursor_close :: "cursor \<Rightarrow> cursor" where
  "cursor_close cur = cur\<lparr>c_closed := True, c_rows := [], c_next_row := 0\<rparr>"

text \<open>\<open>setinputsizes\<close> and \<open>setoutputsize\<close> only check.\<close>

definition setinputsizes :: "conn_view \<Rightarrow> cursor \<Rightarrow> unit pyres \<times> cursor" where
  "setinputsizes v cur = (cursor_check v cur, cur)"

definition setoutputsize :: "conn_view \<Rightarrow> cursor \<Rightarrow> unit pyres \<times> cursor" where
  "setoutputsize v cur = (cursor_check v cur, cur)"

section \<open>The position of a cursor\<close>

definition cursor_inv :: "cursor \<Rightarrow> bool" where
  "cursor_inv cur \<longleftrightarrow> c_next_row cur \<le> length (c_rows cur) \<and> (c_description cur = None \<longrightarrow> c_rows cur = [])"

text \<open>Every way a cursor changes: an operation of the class, a result installed by a connection after
  the reset of \<open>execute\<close>, or an assignment to a public attribute.\<close>

inductive cursor_step :: "cursor \<Rightarrow> cursor \<Rightarrow> bool" where
  step_fetchone: "cursor_step cur (snd (fetchone v cur))"
| step_fetchmany: "cursor_step cur (snd (fetchmany v sz cur))"
| step_fetchall: "cursor_step cur (snd (fetchall v cur))"
| step_next: "cursor_step cur (snd (cursor_next v cur))"
| step_close: "cursor_step cur (cursor_close cur)"
| step_reset: "cursor_step cur (cursor_reset cur)"
| step_read: "cursor_step cur (load_read_result names rows cur)"
| step_returning: "cursor_step cur (load_returning_result names rows cur)"
| step_write: "cursor_step cur (cur\<lparr>c_rowcount := n, c_lastrowid := i\<rparr>)"
| step_factory: "cursor_step cur (row_factory_set f cur)"
| step_arraysize: "cursor_step cur (cur\<lparr>c_arraysize := n\<rparr>)"

inductive_cases cursor_stepE: "cursor_step cur cur'"

lemma fetchone_inv: "cursor_inv cur \<Longrightarrow> cursor_inv (snd (fetchone v cur))"
  by (auto simp: fetchone_def cursor_inv_def Let_def split: sum.splits)

lemma fetch_loop_inv: "cursor_inv cur \<Longrightarrow> cursor_inv (snd (fetch_loop v n gathered cur))"
proof (induction n arbitrary: gathered cur)
  case 0
  then show ?case by simp
next
  case (Suc n)
  from fetchone_inv [OF Suc.prems, of v] show ?case
    by (auto split: prod.splits sum.splits intro: Suc.IH)
qed

lemma fetchmany_inv: "cursor_inv cur \<Longrightarrow> cursor_inv (snd (fetchmany v sz cur))"
  by (simp add: fetchmany_def fetch_loop_inv Let_def split: sum.splits)

lemma cursor_next_inv: "cursor_inv cur \<Longrightarrow> cursor_inv (snd (cursor_next v cur))"
  using fetchone_inv [of cur v] by (auto simp: cursor_next_def split: prod.splits sum.splits)

lemma fetchall_inv: "cursor_inv cur \<Longrightarrow> cursor_inv (snd (fetchall v cur))"
  by (auto simp: fetchall_def cursor_inv_def split: sum.splits)

lemmas cursor_update_defs = cursor_close_def cursor_reset_def load_read_result_def
  load_returning_result_def row_factory_set_def

lemma cursor_step_inv: "cursor_inv cur \<Longrightarrow> cursor_step cur cur' \<Longrightarrow> cursor_inv cur'"
  by (erule cursor_stepE; hypsubst; (simp only: fetchone_inv fetchmany_inv fetchall_inv cursor_next_inv)?)
    (auto simp: cursor_update_defs cursor_inv_def)

lemma cursor_init_inv: "cursor_inv cursor_init"
  by (simp add: cursor_init_def cursor_inv_def)

interpretation cur: state_machine "\<lambda>cur. cur = cursor_init" cursor_step cursor_inv
  by unfold_locales (auto simp only: cursor_init_inv intro: cursor_step_inv)

section \<open>Every row once, in order\<close>

text \<open>An interactive use of the fetch methods; each call reports the rows it hands to the caller.\<close>

datatype fetch_op = OpOne | OpMany "int option" | OpNext

definition fetch_do :: "conn_view \<Rightarrow> fetch_op \<Rightarrow> cursor \<Rightarrow> pyobj list pyres \<times> cursor" where
  "fetch_do v op cur =
    (case op of
       OpOne \<Rightarrow> (case fetchone v cur of
           (Inl e, cur') \<Rightarrow> (Inl e, cur')
         | (Inr r, cur') \<Rightarrow> (Inr (if r = PNone then [] else [r]), cur'))
     | OpMany sz \<Rightarrow> fetchmany v sz cur
     | OpNext \<Rightarrow> (case cursor_next v cur of
           (Inl e, cur') \<Rightarrow> (if exc_type e = PyStopIteration then Inr [] else Inl e, cur')
         | (Inr r, cur') \<Rightarrow> (Inr [r], cur')))"

fun fetch_run :: "conn_view \<Rightarrow> fetch_op list \<Rightarrow> cursor \<Rightarrow> pyobj list pyres \<times> cursor" where
  "fetch_run v [] cur = (Inr [], cur)"
| "fetch_run v (op # ops) cur =
     (case fetch_do v op cur of
        (Inl e, cur') \<Rightarrow> (Inl e, cur')
      | (Inr rs, cur') \<Rightarrow>
          (case fetch_run v ops cur' of
             (Inl e, cur'') \<Rightarrow> (Inl e, cur'')
           | (Inr rs', cur'') \<Rightarrow> (Inr (rs @ rs'), cur'')))"

text \<open>The cursor is usable and its factory turns every row into an object other than \<open>None\<close>.\<close>

definition fetchable :: "conn_view \<Rightarrow> cursor \<Rightarrow> (pyobj list \<Rightarrow> pyobj) \<Rightarrow> bool" where
  "fetchable v cur f \<longleftrightarrow> cursor_check v cur = Inr () \<and>
     (\<forall>values. cursor_wrap v cur values = Inr (f values) \<and> f values \<noteq> PNone)"

definition unread :: "(pyobj list \<Rightarrow> pyobj) \<Rightarrow> cursor \<Rightarrow> pyobj list" where
  "unread f cur = map f (drop (c_next_row cur) (c_rows cur))"

lemma fetchable_next [simp]: "fetchable v (cur\<lparr>c_next_row := n\<rparr>) f \<longleftrightarrow> fetchable v cur f"
  by (simp add: fetchable_def cursor_check_def cursor_wrap_def row_factory_get_def split: option.splits)

lemma fetchone_fetchable:
  assumes "fetchable v cur f"
  shows "fetchone v cur =
    (case unread f cur of [] \<Rightarrow> (Inr PNone, cur) | r # _ \<Rightarrow> (Inr r, cur\<lparr>c_next_row := Suc (c_next_row cur)\<rparr>))"
proof -
  let ?n = "c_next_row cur"
  have "fetchable v (cur\<lparr>c_next_row := Suc ?n\<rparr>) f" using assms by simp
  then have wrap: "cursor_wrap v (cur\<lparr>c_next_row := Suc ?n\<rparr>) vs = Inr (f vs)" for vs
    by (simp add: fetchable_def)
  show ?thesis
  proof (cases "?n < length (c_rows cur)")
    case True
    then have "unread f cur = f (c_rows cur ! ?n) # map f (drop (Suc ?n) (c_rows cur))"
      by (simp add: unread_def Cons_nth_drop_Suc [symmetric])
    with True assms wrap show ?thesis by (simp add: fetchone_def fetchable_def)
  next
    case False
    with assms show ?thesis by (simp add: fetchone_def fetchable_def unread_def)
  qed
qed

lemma unread_Cons:
  "unread f cur = r # rs \<Longrightarrow> unread f (cur\<lparr>c_next_row := Suc (c_next_row cur)\<rparr>) = rs"
  by (auto simp: unread_def drop_Suc tl_drop [symmetric])

lemma unread_not_None: "fetchable v cur f \<Longrightarrow> r \<in> set (unread f cur) \<Longrightarrow> r \<noteq> PNone"
  by (auto simp: fetchable_def unread_def)

lemma fetch_loop_fetched:
  assumes "fetchable v cur f"
  shows "\<exists>cur'. fetch_loop v n gathered cur = (Inr (gathered @ take n (unread f cur)), cur') \<and>
     unread f cur' = drop n (unread f cur) \<and> fetchable v cur' f"
  using assms
proof (induction n arbitrary: gathered cur)
  case 0
  then show ?case by simp
next
  case (Suc n)
  show ?case
  proof (cases "unread f cur")
    case Nil
    with Suc.prems show ?thesis by (simp add: fetchone_fetchable)
  next
    case (Cons r rs)
    let ?next = "cur\<lparr>c_next_row := Suc (c_next_row cur)\<rparr>"
    from Cons have "r \<noteq> PNone" by (intro unread_not_None [OF Suc.prems]) simp
    moreover obtain cur' where
      "fetch_loop v n (gathered @ [r]) ?next = (Inr ((gathered @ [r]) @ take n (unread f ?next)), cur')"
      "unread f cur' = drop n (unread f ?next)" "fetchable v cur' f"
      using Suc.IH [of ?next "gathered @ [r]"] Suc.prems by auto
    ultimately show ?thesis
      using Cons Suc.prems unread_Cons [OF Cons] by (simp add: fetchone_fetchable)
  qed
qed

text \<open>What one call hands out is a prefix of what was unread, and the rest stays unread.\<close>

lemma fetch_do_prefix:
  assumes "fetchable v cur f"
  shows "\<exists>rs cur'. fetch_do v op cur = (Inr rs, cur') \<and> unread f cur = rs @ unread f cur' \<and> fetchable v cur' f"
proof (cases op)
  case (OpMany sz)
  let ?n = "nat (case sz of None \<Rightarrow> c_arraysize cur | Some n \<Rightarrow> n)"
  obtain cur' where "fetch_loop v ?n [] cur = (Inr (take ?n (unread f cur)), cur')"
    "unread f cur' = drop ?n (unread f cur)" "fetchable v cur' f"
    using fetch_loop_fetched [OF assms, of ?n "[]"] by auto
  with assms OpMany show ?thesis
    by (simp add: fetch_do_def fetchmany_def fetchable_def Let_def)
next
  case OpOne
  with assms show ?thesis
    by (cases "unread f cur")
      (auto simp: fetch_do_def fetchone_fetchable unread_Cons dest: unread_not_None)
next
  case OpNext
  with assms show ?thesis
    by (cases "unread f cur")
      (auto simp: fetch_do_def cursor_next_def fetchone_fetchable unread_Cons dest: unread_not_None)
qed

lemma fetch_run_prefix:
  assumes "fetchable v cur f"
  shows "\<exists>rs cur'. fetch_run v ops cur = (Inr rs, cur') \<and> unread f cur = rs @ unread f cur' \<and> fetchable v cur' f"
  using assms
proof (induction ops arbitrary: cur)
  case Nil
  then show ?case by simp
next
  case (Cons op ops)
  obtain rs cur1 where op: "fetch_do v op cur = (Inr rs, cur1)" "unread f cur = rs @ unread f cur1"
    "fetchable v cur1 f"
    using fetch_do_prefix [OF Cons.prems] by blast
  obtain rs' cur2 where "fetch_run v ops cur1 = (Inr rs', cur2)" "unread f cur1 = rs' @ unread f cur2"
    "fetchable v cur2 f"
    using Cons.IH [OF op(3)] by blast
  with op show ?case by simp
qed

lemma fetchall_fetchable:
  "fetchable v cur f \<Longrightarrow> fetchall v cur = (Inr (unread f cur), cur\<lparr>c_next_row := length (c_rows cur)\<rparr>)"
  by (auto simp: fetchall_def fetchable_def unread_def rmap_Inr_map)


text \<open>The two factories the driver ships satisfy the hypothesis: plain tuples and \<open>Row\<close>.\<close>

lemma fetchable_tuple:
  "cursor_check v cur = Inr () \<Longrightarrow> row_factory_get v cur = None \<Longrightarrow> fetchable v cur PTuple"
  by (simp add: fetchable_def cursor_wrap_def)

lemma fetchable_Row:
  "cursor_check v cur = Inr () \<Longrightarrow> row_factory_get v cur = Some Row_factory \<Longrightarrow>
     fetchable v cur (\<lambda>vs. row_obj (row_init (c_description cur) vs))"
  by (simp add: fetchable_def cursor_wrap_def Row_factory_def row_obj_def)


text \<open>
  Whatever a program does with a cursor, its position stays inside the materialised result, so
  the indexed access of \<open>fetchone\<close> is never out of range, and a cursor without a description holds
  no rows.
\<close>

lemma cursor_position_safe:
  "cursor_step\<^sup>*\<^sup>* cursor_init cur \<Longrightarrow>
     c_next_row cur \<le> length (c_rows cur) \<and> (c_description cur = None \<longrightarrow> c_rows cur = [])"
  using cur.reachable_inv [of cursor_init cur] by (simp add: cursor_inv_def)

lemma cursor_position_safe_example:
  "c_next_row (snd (fetchone \<lparr>cv_check = Inr (), cv_row_factory = None\<rparr> (load_read_result [''x''] [[PInt 1]] cursor_init))) \<le> 1"
proof -
  let ?v = "\<lparr>cv_check = Inr (), cv_row_factory = None\<rparr> :: conn_view"
  let ?c1 = "load_read_result [''x''] [[PInt 1]] cursor_init"
  have "cursor_step\<^sup>*\<^sup>* cursor_init (snd (fetchone ?v ?c1))"
    by (meson rtranclp.rtrancl_into_rtrancl rtranclp.rtrancl_refl step_read step_fetchone)
  from cursor_position_safe [OF this]
  show ?thesis by (auto simp: fetchone_def load_read_result_def Let_def split: sum.splits)
qed

text \<open>
  A row factory that returns \<open>None\<close> for a row makes that row look like the end of the result:
  \<open>fetchmany\<close> returns an empty list and the iterator stops, although rows remain, and the row that was
  read is skipped for good.
\<close>

lemma none_row_ends_fetch:
  assumes "cursor_check v cur = Inr ()" and "c_next_row cur < length (c_rows cur)"
    and "cursor_wrap v cur (c_rows cur ! c_next_row cur) = Inr PNone" and "0 < n"
  shows "fetchmany v (Some n) cur = (Inr [], cur\<lparr>c_next_row := Suc (c_next_row cur)\<rparr>) \<and>
    fst (cursor_next v cur) = Inl (exc PyStopIteration [])"
proof -
  let ?cur = "cur\<lparr>c_next_row := Suc (c_next_row cur)\<rparr>"
  have "cursor_wrap v ?cur = cursor_wrap v cur"
    by (rule ext) (simp add: cursor_wrap_def row_factory_get_def split: option.splits)
  with assms have one: "fetchone v cur = (Inr PNone, ?cur)"
    by (simp add: fetchone_def Let_def)
  moreover obtain k where "nat n = Suc k" using assms(4) by (cases "nat n") auto
  ultimately show ?thesis using assms(1) by (simp add: fetchmany_def cursor_next_def)
qed

lemma none_row_ends_fetch_example:
  "fetchmany \<lparr>cv_check = Inr (), cv_row_factory = Some (\<lambda>_ vs. Inr (hd vs))\<rparr> (Some 2)
     (load_read_result [''x''] [[PNone], [PInt 1]] cursor_init) =
   (Inr [], (load_read_result [''x''] [[PNone], [PInt 1]] cursor_init)\<lparr>c_next_row := 1\<rparr>)"
proof -
  let ?v = "\<lparr>cv_check = Inr (), cv_row_factory = Some (\<lambda>_ vs. Inr (hd vs))\<rparr> :: conn_view"
  let ?cur = "load_read_result [''x''] [[PNone], [PInt 1]] cursor_init"
  note defs = cursor_check_def load_read_result_def cursor_init_def cursor_wrap_def row_factory_get_def
  have "fetchmany ?v (Some 2) ?cur = (Inr [], ?cur\<lparr>c_next_row := Suc (c_next_row ?cur)\<rparr>)"
    by (rule none_row_ends_fetch [THEN conjunct1]) (simp_all add: defs)
  then show ?thesis by (simp add: defs)
qed

end
