(* ===== verification/Zx_Dsn.thy ===== *)
theory Zx_Dsn
  imports Zx_Errors
begin

text \<open>
  Remote DSN parsing of \<open>dbapi.py\<close>: percent decoding (\<open>_strict_unquote\<close>), endpoint validation
  (\<open>_validate_tcp_seed\<close>, \<open>_validate_unix_endpoint\<close>, \<open>_is_numeric_loopback\<close>), option parsing
  (\<open>_parse_unsigned\<close>, \<open>_parse_remote_dsn\<close>) and \<open>_decode_database_id\<close>. \<open>os.name == "nt"\<close> is the
  argument \<open>nt\<close>.

  \<open>urllib.parse.unquote\<close> and \<open>quote\<close> are modelled as the standard library implements them: the
  input is cut into its maximal ASCII runs, each run is turned into bytes and decoded as strict
  UTF-8. A DSN whose escapes decode to characters beyond the modelled alphabet gives the marker
  \<open>OutsideAlphabet\<close>.
\<close>

section \<open>UTF-8 and percent encoding\<close>

definition cont :: "nat \<Rightarrow> bool" where
  "cont b = (128 \<le> b \<and> b \<le> 191)"

text \<open>Strict UTF-8 decoding to code points; \<open>None\<close> is \<open>UnicodeDecodeError\<close>.\<close>

fun utf8_decode :: "nat list \<Rightarrow> nat list option" where
  "utf8_decode [] = Some []"
| "utf8_decode (b0 # r0) =
    (if b0 < 128 then map_option (\<lambda>ps. b0 # ps) (utf8_decode r0)
     else case r0 of [] \<Rightarrow> None | b1 # r1 \<Rightarrow>
       if 194 \<le> b0 \<and> b0 \<le> 223 then
         (if cont b1 then map_option (\<lambda>ps. ((b0 - 192) * 64 + (b1 - 128)) # ps) (utf8_decode r1) else None)
       else case r1 of [] \<Rightarrow> None | b2 # r2 \<Rightarrow>
         if 224 \<le> b0 \<and> b0 \<le> 239 then
           (if cont b1 \<and> cont b2 \<and> (b0 = 224 \<longrightarrow> 160 \<le> b1) \<and> (b0 = 237 \<longrightarrow> b1 \<le> 159)
            then map_option (\<lambda>ps. ((b0 - 224) * 4096 + (b1 - 128) * 64 + (b2 - 128)) # ps) (utf8_decode r2)
            else None)
         else case r2 of [] \<Rightarrow> None | b3 # r3 \<Rightarrow>
           if 240 \<le> b0 \<and> b0 \<le> 244 \<and> cont b1 \<and> cont b2 \<and> cont b3 \<and>
              (b0 = 240 \<longrightarrow> 144 \<le> b1) \<and> (b0 = 244 \<longrightarrow> b1 \<le> 143)
           then map_option (\<lambda>ps. ((b0 - 240) * 262144 + (b1 - 128) * 4096 + (b2 - 128) * 64 + (b3 - 128)) # ps)
                  (utf8_decode r3)
           else None)"

text \<open>UTF-8 of one code point, and of one character of the modelled alphabet.\<close>

definition utf8_encode_point :: "nat \<Rightarrow> nat list" where
  "utf8_encode_point p =
    (if p < 128 then [p]
     else if p < 2048 then [192 + p div 64, 128 + p mod 64]
     else if p < 65536 then [224 + p div 4096, 128 + p div 64 mod 64, 128 + p mod 64]
     else [240 + p div 262144, 128 + p div 4096 mod 64, 128 + p div 64 mod 64, 128 + p mod 64])"

definition surrogate :: "nat \<Rightarrow> bool" where
  "surrogate p = (55296 \<le> p \<and> p \<le> 57343)"

definition utf8_encode_char :: "char \<Rightarrow> nat list" where
  "utf8_encode_char c = utf8_encode_point (ord_of c)"

text \<open>The digits of a number to the base 64.\<close>

lemma base64: fixes p :: nat
  shows "p = p div 64 * 64 + p mod 64" "p div 64 = p div 4096 * 64 + p div 64 mod 64"
    "p div 4096 = p div 262144 * 64 + p div 4096 mod 64"
  using div_mult_mod_eq [of "p div 64" 64] div_mult_mod_eq [of "p div 4096" 64]
  by (simp_all add: div_mult2_eq [symmetric])

lemma utf8_point_roundtrip:
  assumes "p < 1114112" and "\<not> surrogate p"
  shows "utf8_decode (utf8_encode_point p @ bs) = map_option (\<lambda>ps. p # ps) (utf8_decode bs)"
proof -
  consider "p < 128" | "128 \<le> p" "p < 2048" | "2048 \<le> p" "p < 65536" | "65536 \<le> p" by linarith
  then show ?thesis
  proof cases
    case 1
    then show ?thesis by (simp add: utf8_encode_point_def)
  next
    case 2
    define h l where "h = p div 64" and "l = p mod 64"
    have p: "p = h * 64 + l" unfolding h_def l_def by presburger
    have b: "l < 64" "h < 32" "2 \<le> h" using 2 by (auto simp: h_def l_def)
    have "utf8_encode_point p = [192 + h, 128 + l]"
      using 2 by (simp add: utf8_encode_point_def h_def l_def)
    then show ?thesis using b p by (auto simp: cont_def)
  next
    case 3
    define h m l where "h = p div 4096" and "m = p div 64 mod 64" and "l = p mod 64"
    have p: "p = h * 4096 + m * 64 + l" unfolding h_def m_def l_def using base64 [of p] by linarith
    have b: "m < 64" "l < 64" "h < 16" using 3 by (auto simp: h_def m_def l_def)
    have g: "h = 0 \<Longrightarrow> 32 \<le> m" using 3 p b by linarith
    have s: "h = 13 \<Longrightarrow> m \<le> 31" using assms(2) p b unfolding surrogate_def by linarith
    have "utf8_encode_point p = [224 + h, 128 + m, 128 + l]"
      using 3 by (simp add: utf8_encode_point_def h_def m_def l_def)
    then show ?thesis using b g s p by (auto simp: cont_def)
  next
    case 4
    define h m n l where "h = p div 262144" and "m = p div 4096 mod 64" and "n = p div 64 mod 64" and "l = p mod 64"
    have p: "p = h * 262144 + m * 4096 + n * 64 + l" unfolding h_def m_def n_def l_def using base64 [of p] by linarith
    have b: "m < 64" "n < 64" "l < 64" "h \<le> 4" using assms(1) by (auto simp: h_def m_def n_def l_def)
    have g: "h = 0 \<Longrightarrow> 16 \<le> m" using 4 p b by linarith
    have s: "h = 4 \<Longrightarrow> m \<le> 15" using assms(1) p b by linarith
    have "utf8_encode_point p = [240 + h, 128 + m, 128 + n, 128 + l]"
      using 4 by (simp add: utf8_encode_point_def h_def m_def n_def l_def)
    then show ?thesis using b g s p by (auto simp: cont_def)
  qed
qed

definition ascii_char :: "char \<Rightarrow> bool" where
  "ascii_char c = (ord_of c < 128)"

definition is_hex :: "char \<Rightarrow> bool" where
  "is_hex c = (hex_value c \<noteq> None)"

definition two_hex :: "string \<Rightarrow> bool" where
  "two_hex s = (case s of a # b # _ \<Rightarrow> is_hex a \<and> is_hex b | _ \<Rightarrow> False)"

text \<open>\<open>re.search("%(?![0-9A-Fa-f]{2})", value)\<close>.\<close>

fun has_bad_escape :: "string \<Rightarrow> bool" where
  "has_bad_escape [] = False"
| "has_bad_escape (c # s) = ((c = CHR ''%'' \<and> \<not> two_hex s) \<or> has_bad_escape s)"

text \<open>\<open>urllib.parse.unquote_to_bytes\<close> of an ASCII string.\<close>

fun unquote_bytes :: "string \<Rightarrow> nat list" where
  "unquote_bytes [] = []"
| "unquote_bytes (c # s) =
    (if c = CHR ''%'' \<and> two_hex s then
       (the (hex_value (s ! 0)) * 16 + the (hex_value (s ! 1))) # unquote_bytes (drop 2 s)
     else ord_of c # unquote_bytes s)"

text \<open>\<open>urllib.parse.unquote(value, errors="strict")\<close> as code points.\<close>

function unquote_points :: "string \<Rightarrow> nat list option" where
  "unquote_points [] = Some []"
| "unquote_points (c # s) =
    (if \<not> ascii_char c then map_option (\<lambda>ps. ord_of c # ps) (unquote_points s)
     else case utf8_decode (unquote_bytes (takeWhile ascii_char (c # s))) of
       None \<Rightarrow> None
     | Some qs \<Rightarrow> map_option (\<lambda>ps. qs @ ps) (unquote_points (dropWhile ascii_char (c # s))))"
  by pat_completeness auto
termination
  by (relation "measure length") (auto simp: le_imp_less_Suc length_dropWhile_le)

definition strict_unquote :: "string \<Rightarrow> string pyres" where
  "strict_unquote value =
    (if has_bad_escape value then Inl (exc ProgrammingError ''invalid percent encoding in '')
     else case unquote_points value of
       None \<Rightarrow> Inl (exc PyUnicodeDecodeError '''')
     | Some ps \<Rightarrow>
         if list_all (\<lambda>p. p < 256) ps then Inr (map char_of ps) else Inl (exc OutsideAlphabet ''''))"

section \<open>Endpoints\<close>

definition find_char :: "string \<Rightarrow> char \<Rightarrow> nat option" where
  "find_char s c = py_find s [c] 0"

definition port_check :: "string \<Rightarrow> string \<Rightarrow> string \<Rightarrow> string pyres" where
  "port_check seed host port_text =
    (if host = [] then Inl (exc ProgrammingError ''seed has an empty host: '')
     else if \<not> py_isdigit port_text then Inl (exc ProgrammingError ''seed has an invalid port: '')
     else case py_int port_text of
       None \<Rightarrow> Inl (exc PyValueError '''')
     | Some port \<Rightarrow>
         if \<not> (1 \<le> port \<and> port \<le> 65535) then Inl (exc ProgrammingError ''seed has an invalid port: '')
         else Inr seed)"

definition validate_tcp_seed :: "string \<Rightarrow> string pyres" where
  "validate_tcp_seed seed =
    (if startswith seed ''['' then
       (case find_char seed (CHR '']'') of
          None \<Rightarrow> Inl (exc ProgrammingError ''IPv6 seed must use [address]:port syntax: '')
        | Some closing \<Rightarrow>
            if \<not> startswith (drop (closing + 1) seed) '':''
            then Inl (exc ProgrammingError ''IPv6 seed must use [address]:port syntax: '')
            else port_check seed (drop 1 (take closing seed)) (drop (closing + 2) seed))
     else
       (case py_rpartition (CHR '':'') seed of
          (host, separator, port_text) \<Rightarrow>
            if \<not> separator \<or> CHR '':'' \<in> set host
            then Inl (exc ProgrammingError ''seed must be host:port (IPv6 literals need brackets): '')
            else port_check seed host port_text))"

definition validate_unix_endpoint :: "bool \<Rightarrow> string \<Rightarrow> string pyres" where
  "validate_unix_endpoint nt endpoint =
    (let path = drop (length ''unix:'') endpoint in
     if nt then Inl (exc NotSupportedError ''unix-domain endpoints are not supported on Windows'')
     else if \<not> startswith path ''/''
       then Inl (exc ProgrammingError ''unix endpoint path must be absolute: '')
     else if CHR 0x00 \<in> set path
       then Inl (exc ProgrammingError ''unix endpoint path contains NUL'')
     else Inr endpoint)"

definition is_numeric_loopback :: "string \<Rightarrow> bool" where
  "is_numeric_loopback endpoint =
    (let host =
       (if startswith endpoint ''['' then
          (case find_char endpoint (CHR '']'') of
             None \<Rightarrow> drop 1 (butlast endpoint)
           | Some closing \<Rightarrow> drop 1 (take closing endpoint))
        else fst (py_rpartition (CHR '':'') endpoint))
     in host = ''127.0.0.1'' \<or> host = ''::1'')"

section \<open>Options\<close>

definition parse_unsigned :: "string \<Rightarrow> int pyres" where
  "parse_unsigned value =
    (if \<not> py_isdigit value then Inl (exc ProgrammingError [])
     else case py_int value of None \<Rightarrow> Inl (exc PyValueError []) | Some n \<Rightarrow> Inr n)"

definition singleton_options :: "string list" where
  "singleton_options = [''read_level'', ''read_policy'', ''freshness_ms'', ''pool_size'',
     ''connect_timeout_ms'', ''operation_timeout_ms'', ''expected_database_id'']"

definition remote_read_levels :: "string \<Rightarrow> nat option" where
  "remote_read_levels s =
    (if s = ''any'' then Some 0 else if s = ''leader'' then Some 1
     else if s = ''linearizable'' then Some 2 else None)"

definition remote_read_policies :: "string list" where
  "remote_read_policies = [''least_in_flight'', ''round_robin'']"

record dsn =
  d_seeds :: "string list"
  d_read_level :: "string option"
  d_read_policy :: "string option"
  d_freshness_ms :: "int option"
  d_pool_size :: "int option"
  d_connect_timeout_ms :: "int option"
  d_operation_timeout_ms :: "int option"
  d_expected_database_id :: "string option"

text \<open>The loop over the query's \<open>key=value\<close> pairs: the options seen so far and the \<open>seed=\<close> values.\<close>

fun parse_pairs :: "string \<Rightarrow> string list \<Rightarrow> (string \<times> string) list \<Rightarrow> string list
    \<Rightarrow> ((string \<times> string) list \<times> string list) pyres" where
  "parse_pairs authority [] options query_seeds = Inr (options, query_seeds)"
| "parse_pairs authority (pair # pairs) options query_seeds =
    raise_if (pair = []) (exc ProgrammingError ''empty option in remote DSN query'')
    (case py_partition (CHR ''='') pair of (key, separator, raw_value) \<Rightarrow>
     raise_if (\<not> separator) (exc ProgrammingError ''remote DSN option needs a value: '')
     (rbind (strict_unquote raw_value) (\<lambda>value.
      if key = ''seed'' then
        raise_if (authority \<noteq> [])
          (exc ProgrammingError ''seed= options require the zxlite:///? form without authority seeds'')
          (parse_pairs authority pairs options (query_seeds @ [value]))
      else if key \<in> set singleton_options then
        raise_if (map_of options key \<noteq> None) (exc ProgrammingError ''duplicate remote DSN option: '')
          (parse_pairs authority pairs ((key, value) # options) query_seeds)
      else Inl (exc ProgrammingError ''unknown remote DSN option: ''))))"

definition check_seeds :: "bool \<Rightarrow> string \<Rightarrow> string list \<Rightarrow> string list pyres" where
  "check_seeds nt authority seeds =
    raise_if (seeds = [] \<or> [] \<in> set seeds) (exc ProgrammingError ''remote DSN needs at least one seed'')
    (raise_if (36 < length seeds) (exc ProgrammingError ''remote DSN accepts at most 36 seeds'')
    (raise_if (\<not> distinct seeds) (exc ProgrammingError ''remote DSN seeds must be unique'')
    (if list_ex (\<lambda>seed. startswith seed ''unix:'') seeds then
       raise_if (authority \<noteq> [])
         (exc ProgrammingError ''unix endpoints cannot appear in the authority form'')
       (raise_if (length seeds \<noteq> 1) (exc ProgrammingError ''a unix endpoint must be the only seed'')
       (rbind (validate_unix_endpoint nt (hd seeds)) (\<lambda>_. Inr seeds)))
     else rbind (rmap validate_tcp_seed seeds) (\<lambda>_. Inr seeds))))"

definition check_choice :: "string option \<Rightarrow> (string \<Rightarrow> bool) \<Rightarrow> pyexc \<Rightarrow> string option pyres" where
  "check_choice opt ok e = (case opt of None \<Rightarrow> Inr None | Some v \<Rightarrow> if ok v then Inr (Some v) else Inl e)"

definition check_unsigned :: "string option \<Rightarrow> int option pyres" where
  "check_unsigned opt =
    (case opt of None \<Rightarrow> Inr None | Some v \<Rightarrow> rbind (parse_unsigned v) (\<lambda>n. Inr (Some n)))"

text \<open>The part of \<open>_parse_remote_dsn\<close> after the seeds: validate the singleton options.\<close>

definition parse_options :: "string list \<Rightarrow> (string \<times> string) list \<Rightarrow> dsn pyres" where
  "parse_options seeds options =
    rbind (check_choice (map_of options ''read_level'') (\<lambda>v. remote_read_levels v \<noteq> None)
             (exc ProgrammingError ''read_level must be one of '')) (\<lambda>read_level.
    rbind (check_choice (map_of options ''read_policy'') (\<lambda>v. v \<in> set remote_read_policies)
             (exc ProgrammingError ''read_policy must be one of '')) (\<lambda>read_policy.
    rbind (check_unsigned (map_of options ''freshness_ms'')) (\<lambda>freshness_ms.
    rbind (check_unsigned (map_of options ''pool_size'')) (\<lambda>pool_size.
    rbind (check_unsigned (map_of options ''connect_timeout_ms'')) (\<lambda>connect_timeout_ms.
    rbind (check_unsigned (map_of options ''operation_timeout_ms'')) (\<lambda>operation_timeout_ms.
    Inr \<lparr>d_seeds = seeds, d_read_level = read_level, d_read_policy = read_policy,
         d_freshness_ms = freshness_ms, d_pool_size = pool_size,
         d_connect_timeout_ms = connect_timeout_ms,
         d_operation_timeout_ms = operation_timeout_ms,
         d_expected_database_id = map_of options ''expected_database_id''\<rparr>))))))"

definition strip_slash :: "string \<Rightarrow> string" where
  "strip_slash authority =
    (if authority \<noteq> [] \<and> last authority = CHR ''/'' then butlast authority else authority)"

definition parse_remote_dsn :: "bool \<Rightarrow> string \<Rightarrow> dsn pyres" where
  "parse_remote_dsn nt text =
    raise_if (CHR ''#'' \<in> set text) (exc ProgrammingError ''remote DSN must not contain a fragment'')
    (let rest = drop (length ''zxlite://'') text in
     case py_partition (CHR ''?'') rest of (authority0, _, query) \<Rightarrow>
     let authority = strip_slash authority0 in
     raise_if (CHR ''/'' \<in> set authority)
       (exc ProgrammingError ''remote DSN must not contain a path (only an optional trailing slash)'')
     (raise_if (CHR ''@'' \<in> set authority)
       (exc ProgrammingError ''remote DSN must not contain userinfo'')
     (rbind (if query = [] then Inr ([], []) else parse_pairs authority (py_split (CHR ''&'') query) [] [])
       (\<lambda>(options, query_seeds).
     rbind (if authority \<noteq> [] then rmap strict_unquote (py_split (CHR '','') authority) else Inr query_seeds)
       (\<lambda>seeds.
     rbind (check_seeds nt authority seeds) (\<lambda>seeds'. parse_options seeds' options))))))"

section \<open>Database identities\<close>

fun hex_pairs :: "string \<Rightarrow> nat list" where
  "hex_pairs (a # b # s) = (the (hex_value a) * 16 + the (hex_value b)) # hex_pairs s"
| "hex_pairs s = []"

definition lower_hex :: "char \<Rightarrow> bool" where
  "lower_hex c = (c \<in> set ''0123456789abcdef'')"

definition decode_database_id :: "pyobj \<Rightarrow> nat list pyres" where
  "decode_database_id value =
    (let check_raw = (\<lambda>raw. if length raw \<noteq> 16
         then Inl (exc ProgrammingError ''expected_database_id bytes must have length 16'') else Inr raw)
     in case value of
       PBytes raw \<Rightarrow> check_raw raw
     | PByteArray raw \<Rightarrow> check_raw raw
     | PStr s \<Rightarrow>
         (let text = py_lower (py_strip s) in
          if length text \<noteq> 32 \<or> list_ex (\<lambda>c. \<not> lower_hex c) text
          then Inl (exc ProgrammingError ''expected_database_id must be 32 hexadecimal digits'')
          else Inr (hex_pairs text))
     | _ \<Rightarrow> Inl (exc ProgrammingError ''expected_database_id must be a 32-hex-digit string or 16 bytes''))"

section \<open>What an accepted endpoint looks like\<close>

definition valid_port :: "string \<Rightarrow> bool" where
  "valid_port p \<longleftrightarrow> (\<exists>n. py_int p = Some n \<and> 1 \<le> n \<and> n \<le> 65535)"

text \<open>\<open>host:port\<close>, or \<open>[host]:port\<close> for an IPv6 literal.\<close>

definition tcp_seed :: "string \<Rightarrow> bool" where
  "tcp_seed s \<longleftrightarrow> (\<exists>host port. host \<noteq> [] \<and> valid_port port \<and>
     (s = ''['' @ host @ '']:'' @ port \<and> CHR '']'' \<notin> set host \<or>
      s = host @ '':'' @ port \<and> CHR '':'' \<notin> set host \<and> \<not> startswith host ''[''))"

definition unix_seed :: "string \<Rightarrow> bool" where
  "unix_seed s \<longleftrightarrow> (\<exists>path. s = ''unix:/'' @ path \<and> CHR 0x00 \<notin> set path)"

lemma py_int_digits: "py_int p = Some n \<Longrightarrow> py_isdigit p"
  using decimal_value_Some_iff [of 0 p]
  by (auto simp: py_int_def py_isdigit_def py_isdigit_char_def list_all_iff split: if_splits)

lemma digit_not_sep: "ascii_digit c \<Longrightarrow> c \<noteq> CHR '':''"
proof -
  have "ord_of (CHR '':'') = 58" by code_simp
  then show "ascii_digit c \<Longrightarrow> ?thesis" by (auto simp: ascii_digit_def)
qed

lemma valid_port_no_colon: "valid_port p \<Longrightarrow> CHR '':'' \<notin> set p"
  using decimal_value_Some_iff [of 0 p] digit_not_sep
  by (auto simp: valid_port_def py_int_def list_all_iff split: if_splits)

lemma port_check_iff: "port_check seed host p = Inr r \<longleftrightarrow> r = seed \<and> host \<noteq> [] \<and> valid_port p"
  by (auto simp: port_check_def valid_port_def dest: py_int_digits split: option.splits)

lemma find_char_Some_iff:
  "find_char s c = Some k \<longleftrightarrow> (\<exists>a b. s = a @ c # b \<and> c \<notin> set a \<and> length a = k)"
proof -
  have "find_sub [c] s = Some k \<longleftrightarrow> (\<exists>a b. s = a @ c # b \<and> c \<notin> set a \<and> length a = k)"
  proof (induction s arbitrary: k)
    case Nil
    then show ?case by simp
  next
    case (Cons d s)
    show ?case
    proof (cases "d = c")
      case True
      then show ?thesis by (auto simp: append_eq_Cons_conv Cons_eq_append_conv)
    next
      case False
      with Cons.IH show ?thesis
        by (auto simp: Cons_eq_append_conv) (metis length_Cons append_Cons set_ConsD)+
    qed
  qed
  then show ?thesis by (simp add: find_char_def py_find_def option.map_id)
qed

lemma bracket_seed_split:
  assumes "s = (CHR ''['' # host) @ CHR '']'' # b" and "CHR '']'' \<notin> set host"
  shows "tcp_seed s \<longleftrightarrow> host \<noteq> [] \<and> (\<exists>port. b = CHR '':'' # port \<and> valid_port port)"
proof -
  have uniq: "host' = host" if "s = ''['' @ host' @ '']:'' @ port" "CHR '']'' \<notin> set host'" for host' port
    using that assms by (auto simp: append_eq_append_conv2 append_eq_Cons_conv Cons_eq_append_conv)
  have split: "s = ''['' @ host' @ '']:'' @ port \<and> CHR '']'' \<notin> set host' \<longleftrightarrow>
      host' = host \<and> b = CHR '':'' # port" for host' port
    using uniq assms by auto
  have "\<not> (s = host' @ '':'' @ port \<and> \<not> startswith host' ''['' \<and> host' \<noteq> [])" for host' port
    using assms by (cases host') auto
  then show ?thesis unfolding tcp_seed_def using split by blast
qed

lemma validate_bracket_seed:
  assumes "startswith s ''[''"
  shows "validate_tcp_seed s = Inr r \<longleftrightarrow> r = s \<and> tcp_seed s"
proof (cases "find_char s (CHR '']'')")
  case None
  then have "CHR '']'' \<notin> set s"
    by (metis find_char_Some_iff option.distinct(1) split_list_first)
  then have "\<not> tcp_seed s"
    using assms by (auto simp: tcp_seed_def startswith_def neq_Nil_conv)
  with None assms show ?thesis by (auto simp: validate_tcp_seed_def)
next
  case (Some k)
  then obtain a b where ab: "s = a @ CHR '']'' # b" "CHR '']'' \<notin> set a" "length a = k"
    by (auto simp: find_char_Some_iff)
  with assms obtain host where host: "a = CHR ''['' # host" by (cases a) auto
  with Some assms ab bracket_seed_split [of s host b] show ?thesis
    by (cases b) (auto simp: validate_tcp_seed_def port_check_iff)
qed

lemma validate_plain_seed:
  assumes "\<not> startswith s ''[''"
  shows "validate_tcp_seed s = Inr r \<longleftrightarrow> r = s \<and> tcp_seed s"
proof -
  obtain host sep port where r: "py_rpartition (CHR '':'') s = (host, sep, port)"
    by (cases "py_rpartition (CHR '':'') s") auto
  note parts = py_rpartition_append [OF r]
  have "tcp_seed s \<longleftrightarrow> sep \<and> CHR '':'' \<notin> set host \<and> host \<noteq> [] \<and> valid_port port"
  proof
    assume "tcp_seed s"
    with assms obtain h p where hp: "h \<noteq> []" "valid_port p" "s = h @ '':'' @ p" "CHR '':'' \<notin> set h"
      unfolding tcp_seed_def by auto
    with valid_port_no_colon [OF hp(2)] r show "sep \<and> CHR '':'' \<notin> set host \<and> host \<noteq> [] \<and> valid_port port"
      by auto
  next
    assume a: "sep \<and> CHR '':'' \<notin> set host \<and> host \<noteq> [] \<and> valid_port port"
    with parts assms have "s = host @ '':'' @ port" "\<not> startswith host ''[''"
      by (auto simp: startswith_def neq_Nil_conv)
    with a show "tcp_seed s" unfolding tcp_seed_def by blast
  qed
  with assms r show ?thesis by (auto simp: validate_tcp_seed_def port_check_iff)
qed

lemma validate_tcp_seed_iff: "validate_tcp_seed s = Inr r \<longleftrightarrow> r = s \<and> tcp_seed s"
  using validate_bracket_seed validate_plain_seed by blast

lemma validate_unix_endpoint_iff:
  "startswith s ''unix:'' \<Longrightarrow> validate_unix_endpoint nt s = Inr r \<longleftrightarrow> r = s \<and> \<not> nt \<and> unix_seed s"
proof -
  assume "startswith s ''unix:''"
  then obtain p where "s = ''unix:'' @ p" by (auto simp: startswith_iff_prefix prefix_def)
  then show ?thesis
    by (cases p) (auto simp: validate_unix_endpoint_def unix_seed_def Let_def)
qed

section \<open>What an accepted DSN looks like\<close>

definition seeds_ok :: "bool \<Rightarrow> string list \<Rightarrow> bool" where
  "seeds_ok nt seeds \<longleftrightarrow> seeds \<noteq> [] \<and> length seeds \<le> 36 \<and> distinct seeds \<and>
     (\<not> nt \<and> (\<exists>s. seeds = [s] \<and> unix_seed s) \<or> (\<forall>s \<in> set seeds. tcp_seed s \<and> \<not> startswith s ''unix:''))"

definition nonneg :: "int option \<Rightarrow> bool" where
  "nonneg opt \<longleftrightarrow> (\<forall>n. opt = Some n \<longrightarrow> 0 \<le> n)"

definition dsn_ok :: "bool \<Rightarrow> dsn \<Rightarrow> bool" where
  "dsn_ok nt d \<longleftrightarrow> seeds_ok nt (d_seeds d) \<and>
     (\<forall>l. d_read_level d = Some l \<longrightarrow> l \<in> {''any'', ''leader'', ''linearizable''}) \<and>
     (\<forall>p. d_read_policy d = Some p \<longrightarrow> p \<in> {''least_in_flight'', ''round_robin''}) \<and>
     nonneg (d_freshness_ms d) \<and> nonneg (d_pool_size d) \<and>
     nonneg (d_connect_timeout_ms d) \<and> nonneg (d_operation_timeout_ms d)"

lemma unix_seed_startswith: "unix_seed s \<Longrightarrow> startswith s ''unix:''"
  by (auto simp: unix_seed_def)

lemma check_seeds_iff:
  "check_seeds nt authority seeds = Inr r \<longleftrightarrow>
     r = seeds \<and> seeds_ok nt seeds \<and> [] \<notin> set seeds \<and>
     (list_ex (\<lambda>s. startswith s ''unix:'') seeds \<longrightarrow> authority = [])"
proof (cases "list_ex (\<lambda>s. startswith s ''unix:'') seeds")
  case True
  then show ?thesis
    by (cases seeds)
      (auto simp: check_seeds_def raise_if_Inr_iff rbind_Inr_iff validate_unix_endpoint_iff seeds_ok_def
        list_ex_iff dest: unix_seed_startswith)
next
  case False
  have "rmap validate_tcp_seed seeds = Inr ys \<longleftrightarrow> ys = seeds \<and> (\<forall>s \<in> set seeds. tcp_seed s)" for ys
    by (rule rmap_check) (rule validate_tcp_seed_iff)
  with False show ?thesis
    by (auto simp: check_seeds_def raise_if_Inr_iff rbind_Inr_iff seeds_ok_def list_ex_iff
        dest: unix_seed_startswith)
qed

lemma check_choice_Inr: "check_choice opt ok e = Inr v \<Longrightarrow> v = opt \<and> (\<forall>x. opt = Some x \<longrightarrow> ok x)"
  by (auto simp: check_choice_def split: option.splits if_splits)

lemma check_unsigned_Inr: "check_unsigned opt = Inr v \<Longrightarrow> nonneg v"
  by (auto simp: check_unsigned_def parse_unsigned_def rbind_Inr_iff nonneg_def
      split: option.splits if_splits dest: py_int_nonneg)

lemma remote_read_levels_iff:
  "remote_read_levels l \<noteq> None \<longleftrightarrow> l \<in> {''any'', ''leader'', ''linearizable''}"
  by (simp add: remote_read_levels_def)

lemma parse_options_ok:
  assumes "parse_options seeds options = Inr d" and "seeds_ok nt seeds"
  shows "dsn_ok nt d"
  using assms
  by (auto simp: parse_options_def rbind_Inr_iff dsn_ok_def remote_read_policies_def
      dest!: check_choice_Inr check_unsigned_Inr simp: remote_read_levels_iff [simplified])

lemma parse_remote_dsn_accepts: "parse_remote_dsn nt text = Inr d \<Longrightarrow> dsn_ok nt d"
  by (auto simp: parse_remote_dsn_def raise_if_Inr_iff rbind_Inr_iff Let_def check_seeds_iff
      split: prod.splits dest: parse_options_ok)

text \<open>
  C21. The DSN parser accepts only what it promises: every accepted \<open>zxlite:///\<close> DSN has a non-empty
  seed list in which each seed is a bracketed or plain \<open>host:port\<close> with port 1 to 65535 (or the
  list is a single local socket endpoint), a known read level and policy, and numeric options that
  are non-negative.
\<close>

theorem parse_remote_dsn_ok:
  "parse_remote_dsn nt text = Inr d \<Longrightarrow> dsn_ok nt d"
  by (rule parse_remote_dsn_accepts)

theorem parse_remote_dsn_ok_witness:
  "\<exists>d. parse_remote_dsn False ''zxlite://db1:9901,[::1]:9902/?read_level=any&freshness_ms=5'' = Inr d \<and>
     d_seeds d = [''db1:9901'', ''[::1]:9902''] \<and> dsn_ok False d"
proof -
  let ?r = "parse_remote_dsn False ''zxlite://db1:9901,[::1]:9902/?read_level=any&freshness_ms=5''"
  have "case ?r of Inr d \<Rightarrow> d_seeds d = [''db1:9901'', ''[::1]:9902''] | Inl _ \<Rightarrow> False" by code_simp
  then obtain d where "?r = Inr d" "d_seeds d = [''db1:9901'', ''[::1]:9902'']"
    by (cases ?r) auto
  with parse_remote_dsn_ok [of False _ d] show ?thesis by blast
qed

section \<open>Loopback endpoints\<close>

text \<open>The host part of a seed that \<open>_validate_tcp_seed\<close> accepted.\<close>

definition host_of :: "string \<Rightarrow> string \<Rightarrow> bool" where
  "host_of s h \<longleftrightarrow> (\<exists>port. valid_port port \<and>
     (s = ''['' @ h @ '']:'' @ port \<and> CHR '']'' \<notin> set h \<or>
      s = h @ '':'' @ port \<and> CHR '':'' \<notin> set h \<and> \<not> startswith h ''[''))"

lemma is_numeric_loopback_host:
  assumes "host_of s h" and "h \<noteq> []"
  shows "is_numeric_loopback s \<longleftrightarrow> h = ''127.0.0.1'' \<or> h = ''::1''"
proof -
  obtain port where port: "valid_port port" and
    s: "s = ''['' @ h @ '']:'' @ port \<and> CHR '']'' \<notin> set h \<or>
        s = h @ '':'' @ port \<and> CHR '':'' \<notin> set h \<and> \<not> startswith h ''[''"
    using assms(1) unfolding host_of_def by blast
  from s show ?thesis
  proof
    assume b: "s = ''['' @ h @ '']:'' @ port \<and> CHR '']'' \<notin> set h"
    then have "find_char s (CHR '']'') = Some (Suc (length h))"
      unfolding find_char_Some_iff
      by (intro exI [of _ "CHR ''['' # h"] exI [of _ "CHR '':'' # port"]) simp
    with b show ?thesis by (simp add: is_numeric_loopback_def Let_def)
  next
    assume p: "s = h @ '':'' @ port \<and> CHR '':'' \<notin> set h \<and> \<not> startswith h ''[''"
    with assms(2) have "\<not> startswith s ''[''" by (auto simp: neq_Nil_conv)
    with p valid_port_no_colon [OF port] show ?thesis
      by (simp add: is_numeric_loopback_def Let_def)
  qed
qed

lemma tcp_seed_host: "tcp_seed s \<longleftrightarrow> (\<exists>h. h \<noteq> [] \<and> host_of s h)"
  unfolding tcp_seed_def host_of_def by blast

section \<open>Database identities\<close>

definition hex_digit :: "nat \<Rightarrow> char" where
  "hex_digit n = (if n < 10 then char_of (n + 48) else char_of (n + 87))"

fun hex_encode :: "nat list \<Rightarrow> string" where
  "hex_encode [] = []"
| "hex_encode (b # bs) = hex_digit (b div 16) # hex_digit (b mod 16) # hex_encode bs"

lemma lower_hex_ord: "lower_hex c \<longleftrightarrow> 48 \<le> ord_of c \<and> ord_of c \<le> 57 \<or> 97 \<le> ord_of c \<and> ord_of c \<le> 102"
proof -
  let ?hex = "''0123456789abcdef''"
  have "map ord_of ?hex = [48,49,50,51,52,53,54,55,56,57,97,98,99,100,101,102]"
    by code_simp
  then have "ord_of ` set ?hex = set [48,49,50,51,52,53,54,55,56,57,97,98,99,100,101,102]"
    by (simp only: set_map [symmetric])
  moreover have "c \<in> set ?hex \<longleftrightarrow> ord_of c \<in> ord_of ` set ?hex"
    by (rule inj_image_mem_iff [symmetric]) (simp add: inj_def ord_of_inj)
  ultimately have "lower_hex c \<longleftrightarrow> ord_of c \<in> set [48,49,50,51,52,53,54,55,56,57,97,98,99,100,101,102]"
    unfolding lower_hex_def by (simp only:)
  then show ?thesis by (simp only: list.set insert_iff empty_iff) arith
qed

lemma hex_digit_facts:
  assumes "n < 16"
  shows "hex_value (hex_digit n) = Some n" and "lower_hex (hex_digit n)"
    and "py_lower_char (hex_digit n) = hex_digit n" and "\<not> py_isspace (hex_digit n)"
  using assms
  by (auto simp: hex_digit_def hex_value_def lower_hex_ord py_lower_char_def py_isspace_def Let_def)

lemma hex_encode_facts:
  assumes "\<forall>b \<in> set bs. b < 256"
  shows "hex_pairs (hex_encode bs) = bs" and "length (hex_encode bs) = 2 * length bs"
    and "py_lower (hex_encode bs) = hex_encode bs"
    and "\<forall>c \<in> set (hex_encode bs). lower_hex c \<and> \<not> py_isspace c"
proof -
  have nibbles: "b div 16 < 16" "b mod 16 < 16" if "b \<in> set bs" for b
    using assms that by (auto simp: less_mult_imp_div_less)
  then show "hex_pairs (hex_encode bs) = bs"
    by (induction bs) (auto simp: hex_digit_facts)
  show "length (hex_encode bs) = 2 * length bs"
    by (induction bs) auto
  show "py_lower (hex_encode bs) = hex_encode bs" using nibbles
    by (induction bs) (auto simp: py_lower_def hex_digit_facts)
  show "\<forall>c \<in> set (hex_encode bs). lower_hex c \<and> \<not> py_isspace c" using nibbles
    by (induction bs) (auto simp: hex_digit_facts)
qed

lemma strip_pad:
  assumes "\<forall>c \<in> set s. \<not> py_isspace c" and "list_all py_isspace a" and "list_all py_isspace b" and "s \<noteq> []"
  shows "py_strip (a @ s @ b) = s"
proof -
  have "dropWhile py_isspace (a @ s @ b) = s @ b"
    using assms by (cases s) (auto simp: list_all_iff)
  moreover have "dropWhile py_isspace (rev b @ rev s) = rev s"
    using assms(1,3,4) by (subst dropWhile_append2) (auto simp: list_all_iff dropWhile_eq_self_iff hd_rev)
  ultimately show ?thesis by (simp add: py_strip_def)
qed

text \<open>
  A database identity survives printing: the lower-case hexadecimal form of any sixteen bytes
  decodes to the same sixteen bytes, and so do the bytes given directly.
\<close>

lemma decode_database_id_roundtrip:
  assumes "length raw = 16" and "\<forall>b \<in> set raw. b < 256"
    and "list_all py_isspace a" and "list_all py_isspace b"
  shows "decode_database_id (PStr (a @ hex_encode raw @ b)) = Inr raw \<and>
    decode_database_id (PBytes raw) = Inr raw"
proof -
  note h = hex_encode_facts [OF assms(2)]
  have "hex_encode raw \<noteq> []" using h(2) assms(1) by auto
  with h(4) assms(3,4) have "py_strip (a @ hex_encode raw @ b) = hex_encode raw"
    by (intro strip_pad) auto
  moreover have "\<not> list_ex (\<lambda>c. \<not> lower_hex c) (hex_encode raw)"
    using h(4) by (auto simp: list_ex_iff)
  ultimately show ?thesis
    using h assms(1) by (simp add: decode_database_id_def Let_def)
qed

lemma decode_database_id_roundtrip_example:
  "decode_database_id (PStr ('' '' @ hex_encode [0,1,2,3,4,5,6,7,8,9,10,11,12,13,14,255] @ [])) =
     Inr [0,1,2,3,4,5,6,7,8,9,10,11,12,13,14,255]"
proof -
  have "list_all py_isspace '' ''" by code_simp
  from decode_database_id_roundtrip [OF _ _ this, of "[0,1,2,3,4,5,6,7,8,9,10,11,12,13,14,255]" "[]"]
  show ?thesis by simp
qed

section \<open>Errors that leave the DB-API hierarchy\<close>

lemma digits_not_decimal: "\<not> list_all ascii_digit p \<Longrightarrow> py_int p = None"
  using decimal_value_Some_iff [of 0 p] by (auto simp: py_int_def)

lemma isdigit_no_colon: "py_isdigit p \<Longrightarrow> CHR '':'' \<notin> set p"
proof -
  have "ord_of (CHR '':'') = 58" by code_simp
  then show "py_isdigit p \<Longrightarrow> ?thesis"
    by (auto simp: py_isdigit_def list_all_iff py_isdigit_char_def ascii_digit_def)
qed

text \<open>
  A port of superscript digits passes \<open>isdigit\<close> and then fails in \<open>int\<close>: the parser raises the
  interpreter error \<open>ValueError\<close>, which is outside the DB-API exception hierarchy.
\<close>

lemma superscript_port_escapes:
  assumes "h \<noteq> []" and "CHR '':'' \<notin> set h" and "\<not> startswith h ''[''"
    and "py_isdigit p" and "\<not> list_all ascii_digit p"
  shows "\<exists>e. validate_tcp_seed (h @ '':'' @ p) = Inl e \<and> exc_type e = PyValueError \<and> \<not> exc_type e \<le> ErrorC"
proof -
  have "\<not> startswith (h @ '':'' @ p) ''[''"
    using assms(1,3) by (auto simp: neq_Nil_conv)
  with assms isdigit_no_colon [OF assms(4)] digits_not_decimal [OF assms(5)]
  have "validate_tcp_seed (h @ '':'' @ p) = Inl (exc PyValueError [])"
    by (simp add: validate_tcp_seed_def port_check_def)
  then show ?thesis by (simp add: less_eq_exc_class_def)
qed

lemma superscript_port_escapes_example:
  "\<exists>e. validate_tcp_seed (''db1'' @ '':'' @ [CHR 0xB2]) = Inl e \<and> exc_type e = PyValueError \<and>
     \<not> exc_type e \<le> ErrorC"
  by (rule superscript_port_escapes; code_simp)

end
