(* ===== verification/Zx_Connect.thy ===== *)
theory Zx_Connect
  imports Zx_Dsn
begin

text \<open>
  Argument validation of the driver: \<open>_normalize_parameters\<close>, \<open>_search_arguments\<close> and the whole of
  \<open>connect\<close> and \<open>_connect_local\<close> of \<open>dbapi.py\<close>. \<open>connect\<close> returns a plan, the constructor call it
  ends with: \<open>Connection(...)\<close> or \<open>RemoteConnection(...)\<close> with its arguments.

  \<open>os.fspath(target)\<close> is a \<open>str\<close> or \<open>bytes\<close>; the timeout is a finite number (its product with 1000
  is taken exactly). Keyword arguments have the types of their annotations.
\<close>

section \<open>Parameters of a statement\<close>

definition normalize_parameters :: "pyobj \<Rightarrow> pyobj list pyres" where
  "normalize_parameters parameters =
    (case parameters of
       PStr _ \<Rightarrow> Inl (exc ProgrammingError
         ''parameters must be a sequence of values, not a single string or bytes-like object'')
     | PBytes _ \<Rightarrow> Inl (exc ProgrammingError
         ''parameters must be a sequence of values, not a single string or bytes-like object'')
     | PByteArray _ \<Rightarrow> Inl (exc ProgrammingError
         ''parameters must be a sequence of values, not a single string or bytes-like object'')
     | PMemoryView _ \<Rightarrow> Inl (exc ProgrammingError
         ''parameters must be a sequence of values, not a single string or bytes-like object'')
     | PTuple vs \<Rightarrow> Inr vs
     | PList vs \<Rightarrow> Inr vs
     | _ \<Rightarrow> Inl (exc ProgrammingError ''parameters must be a sequence of values''))"

section \<open>Search arguments\<close>

record search_request =
  s_fts_table :: pyobj
  s_vec_table :: pyobj
  s_text :: pyobj
  s_embedding :: pyobj
  s_k :: pyobj
  s_candidate_count :: pyobj
  s_fusion :: string
  s_text_weight :: pyobj
  s_vector_weight :: pyobj
  s_metadata_table :: pyobj
  s_metadata_id_column :: pyobj
  s_metadata_columns :: "pyobj list"

record search_native =
  n_request :: search_request
  n_fusion :: int
  n_text_weight :: rat
  n_vector_weight :: rat

definition is_str :: "pyobj \<Rightarrow> bool" where
  "is_str v = (case v of PStr _ \<Rightarrow> True | _ \<Rightarrow> False)"

definition is_bytes_like :: "pyobj \<Rightarrow> bool" where
  "is_bytes_like v = (case v of PBytes _ \<Rightarrow> True | PByteArray _ \<Rightarrow> True | PMemoryView _ \<Rightarrow> True | _ \<Rightarrow> False)"

text \<open>\<open>isinstance(v, int) and not isinstance(v, bool)\<close>.\<close>

definition is_plain_int :: "pyobj \<Rightarrow> bool" where
  "is_plain_int v = (case v of PInt _ \<Rightarrow> True | _ \<Rightarrow> False)"

definition fusion_codes :: "string \<Rightarrow> int option" where
  "fusion_codes f = (if f = ''rrf'' then Some 0 else if f = ''dbsf'' then Some 1 else None)"

text \<open>
  \<open>py_float\<close> is the interpreter's \<open>float(...)\<close>, a parameter because its result is an IEEE double;
  its \<open>TypeError\<close> and \<open>ValueError\<close> are caught, every other exception propagates.
\<close>

definition weight_value :: "(pyobj \<Rightarrow> rat pyres) \<Rightarrow> pyobj \<Rightarrow> rat pyres" where
  "weight_value py_float v =
    (case py_float v of
       Inr w \<Rightarrow> Inr w
     | Inl e \<Rightarrow> if exc_type e \<in> {PyTypeError, PyValueError}
         then Inl (exc ProgrammingError ''search weights must be real numbers'') else Inl e)"

definition search_arguments :: "(pyobj \<Rightarrow> rat pyres) \<Rightarrow> search_request \<Rightarrow> search_native pyres" where
  "search_arguments py_float q =
    (case fusion_codes (s_fusion q) of
       None \<Rightarrow> Inl (exc ProgrammingError ''fusion must be 'rrf' or 'dbsf', not '')
     | Some fusion \<Rightarrow>
    raise_if (s_text q \<noteq> PNone \<and> \<not> is_str (s_text q)) (exc ProgrammingError ''text must be a str'')
    (raise_if (s_embedding q \<noteq> PNone \<and> \<not> is_bytes_like (s_embedding q))
      (exc ProgrammingError ''embedding must be bytes, bytearray, or a contiguous memoryview of little-endian float32 values'')
    (raise_if (list_ex (\<lambda>v. v \<noteq> PNone \<and> \<not> is_str v)
        [s_fts_table q, s_vec_table q, s_metadata_table q, s_metadata_id_column q])
      (exc ProgrammingError [])
    (raise_if (list_ex (\<lambda>c. \<not> is_str c) (s_metadata_columns q))
      (exc ProgrammingError ''metadata_columns must contain only str values'')
    (raise_if (\<not> is_plain_int (s_k q)) (exc ProgrammingError ''k must be an int'')
    (raise_if (s_candidate_count q \<noteq> PNone \<and> \<not> is_plain_int (s_candidate_count q))
      (exc ProgrammingError ''candidate_count must be an int'')
    (rbind (weight_value py_float (s_text_weight q)) (\<lambda>tw.
     rbind (weight_value py_float (s_vector_weight q)) (\<lambda>vw.
     Inr \<lparr>n_request = q, n_fusion = fusion, n_text_weight = tw, n_vector_weight = vw\<rparr>)))))))))"

section \<open>Connection plans\<close>

record connect_args =
  a_timeout :: rat
  a_isolation_level :: "string option"
  a_check_same_thread :: "bool option"
  a_autocommit :: bool
  a_tls_ca :: "string option"
  a_tls_cert :: "string option"
  a_tls_key :: "string option"
  a_auth_file :: "string option"
  a_allow_psk :: bool
  a_read_level :: "string option"
  a_read_policy :: "string option"
  a_freshness_ms :: "int option"
  a_pool_size :: "int option"
  a_connect_timeout_ms :: "int option"
  a_operation_timeout_ms :: "int option"
  a_database_id :: "pyobj option"

definition connect_defaults :: connect_args where
  "connect_defaults = \<lparr>a_timeout = 5, a_isolation_level = None, a_check_same_thread = None,
     a_autocommit = True, a_tls_ca = None, a_tls_cert = None, a_tls_key = None, a_auth_file = None,
     a_allow_psk = False, a_read_level = None, a_read_policy = None, a_freshness_ms = None,
     a_pool_size = None, a_connect_timeout_ms = None, a_operation_timeout_ms = None,
     a_database_id = None\<rparr>"

record local_plan =
  l_path :: string
  l_timeout :: rat
  l_check_same_thread :: bool
  l_transactional :: bool

record remote_plan =
  r_seeds :: "string list"
  r_tls_ca :: "string option"
  r_tls_cert :: "string option"
  r_tls_key :: "string option"
  r_auth_file :: "string option"
  r_allow_psk :: bool
  r_pool_size :: int
  r_connect_timeout_ms :: int
  r_operation_timeout_ms :: int
  r_database_id :: "nat list option"
  r_read_level :: string
  r_freshness_ms :: int
  r_check_same_thread :: bool
  r_admission_ms :: int

datatype target = TStr string | TBytes byte_list

datatype plan = PlanLocal local_plan | PlanRemote remote_plan

text \<open>The loop of \<open>_connect_local\<close> over the remote-only keyword arguments, in keyword order.\<close>

definition reject_remote_only :: "connect_args \<Rightarrow> unit pyres" where
  "reject_remote_only a =
    raise_if (a_tls_ca a \<noteq> None \<or> a_tls_cert a \<noteq> None \<or> a_tls_key a \<noteq> None \<or>
        a_auth_file a \<noteq> None \<or> a_allow_psk a)
      (exc NotSupportedError [])
    (raise_if (a_read_level a \<noteq> None \<and> a_read_level a \<noteq> Some ''linearizable'')
      (exc NotSupportedError ''local connections serve linearizable reads only'')
    (raise_if (a_read_policy a \<noteq> None \<or> a_freshness_ms a \<noteq> None \<or> a_pool_size a \<noteq> None \<or>
        a_connect_timeout_ms a \<noteq> None \<or> a_operation_timeout_ms a \<noteq> None \<or> a_database_id a \<noteq> None)
      (exc NotSupportedError [])
    (Inr ())))"

definition connect_local :: "string \<Rightarrow> connect_args \<Rightarrow> plan pyres" where
  "connect_local path a =
    rbind (reject_remote_only a) (\<lambda>_.
    rbind
      (if a_isolation_level a = None \<and> a_autocommit a then Inr False
       else if a_isolation_level a = Some ''DEFERRED'' \<and> \<not> a_autocommit a then Inr True
       else Inl (exc NotSupportedError
         ''local connections accept isolation_level=None with autocommit=True (Gate A) or isolation_level='DEFERRED' with autocommit=False (Gate C)''))
      (\<lambda>transactional.
        Inr (PlanLocal \<lparr>l_path = path, l_timeout = a_timeout a,
          l_check_same_thread = (case a_check_same_thread a of None \<Rightarrow> True | Some b \<Rightarrow> b),
          l_transactional = transactional\<rparr>)))"

text \<open>An option may be given in the DSN or as a keyword, not both.\<close>

definition merge_option :: "'a option \<Rightarrow> 'a option \<Rightarrow> 'a option pyres" where
  "merge_option parsed keyword =
    (case keyword of None \<Rightarrow> Inr parsed
     | Some v \<Rightarrow> if parsed \<noteq> None then Inl (exc ProgrammingError []) else Inr (Some v))"

definition bare_dsn :: "string \<Rightarrow> dsn" where
  "bare_dsn path = \<lparr>d_seeds = [path], d_read_level = None, d_read_policy = None,
     d_freshness_ms = None, d_pool_size = None, d_connect_timeout_ms = None,
     d_operation_timeout_ms = None, d_expected_database_id = None\<rparr>"

definition parse_target :: "bool \<Rightarrow> string \<Rightarrow> dsn pyres" where
  "parse_target nt path =
    (if startswith path ''unix:'' then rbind (validate_unix_endpoint nt path) (\<lambda>_. Inr (bare_dsn path))
     else parse_remote_dsn nt path)"

text \<open>Transport arguments: TLS material, pre-shared keys and Unix sockets.\<close>

definition check_transport :: "string list \<Rightarrow> connect_args \<Rightarrow> unit pyres" where
  "check_transport seeds a =
    (let unix_mode = startswith (hd seeds) ''unix:'';
         tls_supplied = filter (\<lambda>v. v \<noteq> None) [a_tls_ca a, a_tls_cert a, a_tls_key a]
     in
     raise_if (tls_supplied \<noteq> [] \<and> length tls_supplied \<noteq> 3)
       (exc ProgrammingError ''tls_ca, tls_cert, and tls_key must be supplied together'')
     (raise_if (unix_mode \<and> (tls_supplied \<noteq> [] \<or> a_allow_psk a))
       (exc ProgrammingError ''a unix endpoint composes with neither TLS nor allow_psk_only_loopback'')
     (if a_allow_psk a then
        raise_if (a_auth_file a = None)
          (exc ProgrammingError ''allow_psk_only_loopback requires auth_file'')
        (raise_if (tls_supplied \<noteq> [])
          (exc ProgrammingError ''allow_psk_only_loopback forbids TLS arguments'')
        (raise_if (list_ex (\<lambda>seed. \<not> is_numeric_loopback seed) seeds)
          (exc ProgrammingError ''allow_psk_only_loopback requires numeric loopback seeds; got '')
        (Inr ())))
      else Inr ())))"

definition or_default :: "string option \<Rightarrow> string \<Rightarrow> string" where
  "or_default v d = (case v of None \<Rightarrow> d | Some s \<Rightarrow> if s = [] then d else s)"

definition admission_ms :: "rat \<Rightarrow> int" where
  "admission_ms timeout = (if 0 < timeout then max 1 \<lfloor>timeout * 1000\<rfloor> else 1)"

text \<open>The consistency options after merging.\<close>

definition check_read_options ::
  "string \<Rightarrow> string option \<Rightarrow> int option \<Rightarrow> int option \<Rightarrow> unit pyres" where
  "check_read_options level policy freshness pool =
    raise_if (remote_read_levels level = None) (exc ProgrammingError ''read_level must be one of '')
    (raise_if (case policy of None \<Rightarrow> False | Some p \<Rightarrow> p \<notin> set remote_read_policies)
      (exc ProgrammingError ''read_policy must be one of '')
    (raise_if (freshness \<noteq> None \<and> level \<noteq> ''any'')
      (exc ProgrammingError ''freshness_ms is only meaningful with read_level=any'')
    (raise_if (case pool of None \<Rightarrow> False | Some n \<Rightarrow> \<not> (1 \<le> n \<and> n \<le> 64))
      (exc ProgrammingError ''pool_size must be between 1 and 64'')
    (Inr ()))))"

definition int_or_zero :: "int option \<Rightarrow> int" where
  "int_or_zero v = (case v of None \<Rightarrow> 0 | Some n \<Rightarrow> n)"

definition decode_identity :: "pyobj option \<Rightarrow> nat list option pyres" where
  "decode_identity identity =
    (case identity of None \<Rightarrow> Inr None
     | Some i \<Rightarrow> rbind (decode_database_id i) (\<lambda>raw. Inr (Some raw)))"

text \<open>The arguments of the final \<open>RemoteConnection(...)\<close> call.\<close>

definition remote_plan_of :: "connect_args \<Rightarrow> string list \<Rightarrow> string \<Rightarrow> int option \<Rightarrow> int option \<Rightarrow>
    int option \<Rightarrow> int option \<Rightarrow> nat list option \<Rightarrow> remote_plan" where
  "remote_plan_of a seeds level freshness pool connect_timeout operation_timeout identity_bytes =
    \<lparr>r_seeds = seeds, r_tls_ca = a_tls_ca a, r_tls_cert = a_tls_cert a,
     r_tls_key = a_tls_key a, r_auth_file = a_auth_file a, r_allow_psk = a_allow_psk a,
     r_pool_size = int_or_zero pool, r_connect_timeout_ms = int_or_zero connect_timeout,
     r_operation_timeout_ms = int_or_zero operation_timeout, r_database_id = identity_bytes,
     r_read_level = level, r_freshness_ms = int_or_zero freshness,
     r_check_same_thread = (case a_check_same_thread a of None \<Rightarrow> False | Some b \<Rightarrow> b),
     r_admission_ms = admission_ms (a_timeout a)\<rparr>"

definition connect_remote :: "bool \<Rightarrow> string \<Rightarrow> connect_args \<Rightarrow> plan pyres" where
  "connect_remote nt path a =
    raise_if (a_isolation_level a \<noteq> None \<or> \<not> a_autocommit a)
      (exc NotSupportedError ''remote connections are autocommit-only; transactions require a local Gate C connection'')
    (rbind (parse_target nt path) (\<lambda>parsed.
     rbind (merge_option (d_read_level parsed) (a_read_level a)) (\<lambda>read_level.
     rbind (merge_option (d_read_policy parsed) (a_read_policy a)) (\<lambda>read_policy.
     rbind (merge_option (d_freshness_ms parsed) (a_freshness_ms a)) (\<lambda>freshness.
     rbind (merge_option (d_pool_size parsed) (a_pool_size a)) (\<lambda>pool.
     rbind (merge_option (d_connect_timeout_ms parsed) (a_connect_timeout_ms a)) (\<lambda>connect_timeout.
     rbind (merge_option (d_operation_timeout_ms parsed) (a_operation_timeout_ms a)) (\<lambda>operation_timeout.
     rbind (merge_option (map_option PStr (d_expected_database_id parsed)) (a_database_id a)) (\<lambda>identity.
     let level = or_default read_level ''linearizable'' in
     rbind (check_read_options level read_policy freshness pool) (\<lambda>_.
     rbind (check_transport (d_seeds parsed) a) (\<lambda>_.
     rbind (decode_identity identity) (\<lambda>identity_bytes.
     Inr (PlanRemote (remote_plan_of a (d_seeds parsed) level freshness pool connect_timeout
       operation_timeout identity_bytes))))))))))))))"

definition connect :: "bool \<Rightarrow> target \<Rightarrow> connect_args \<Rightarrow> plan pyres" where
  "connect nt tgt a =
    (case tgt of
       TBytes _ \<Rightarrow> Inl (exc InterfaceError ''target must be a str or PathLike path'')
     | TStr path \<Rightarrow>
         if \<not> (startswith path ''zxlite://'' \<or> startswith path ''unix:'') then connect_local path a
         else connect_remote nt path a)"

section \<open>What an accepted plan guarantees\<close>

definition loopback_seed :: "string \<Rightarrow> bool" where
  "loopback_seed s \<longleftrightarrow> host_of s ''127.0.0.1'' \<or> host_of s ''::1''"

definition transport_ok :: "remote_plan \<Rightarrow> bool" where
  "transport_ok p \<longleftrightarrow>
     (r_tls_ca p = None \<longleftrightarrow> r_tls_cert p = None) \<and> (r_tls_ca p = None \<longleftrightarrow> r_tls_key p = None) \<and>
     (list_ex unix_seed (r_seeds p) \<longrightarrow> r_tls_ca p = None \<and> \<not> r_allow_psk p) \<and>
     (r_allow_psk p \<longrightarrow>
        r_auth_file p \<noteq> None \<and> r_tls_ca p = None \<and> (\<forall>s \<in> set (r_seeds p). loopback_seed s))"

definition consistency_ok :: "remote_plan \<Rightarrow> bool" where
  "consistency_ok p \<longleftrightarrow>
     r_read_level p \<in> {''any'', ''leader'', ''linearizable''} \<and>
     (r_freshness_ms p \<noteq> 0 \<longrightarrow> r_read_level p = ''any'') \<and>
     (r_pool_size p = 0 \<or> 1 \<le> r_pool_size p \<and> r_pool_size p \<le> 64) \<and>
     1 \<le> r_admission_ms p \<and>
     (\<forall>raw. r_database_id p = Some raw \<longrightarrow> length raw = 16)"

lemma check_transport_iff:
  "check_transport seeds a = Inr u \<longleftrightarrow>
     (a_tls_ca a = None \<longleftrightarrow> a_tls_cert a = None) \<and> (a_tls_ca a = None \<longleftrightarrow> a_tls_key a = None) \<and>
     (startswith (hd seeds) ''unix:'' \<longrightarrow> a_tls_ca a = None \<and> \<not> a_allow_psk a) \<and>
     (a_allow_psk a \<longrightarrow> a_auth_file a \<noteq> None \<and> a_tls_ca a = None \<and> list_all is_numeric_loopback seeds)"
  by (auto simp: check_transport_def raise_if_Inr_iff Let_def list_ex_iff list_all_iff)

lemma merge_option_Inr: "merge_option parsed keyword = Inr v \<Longrightarrow> v = (case keyword of None \<Rightarrow> parsed | _ \<Rightarrow> keyword)"
  by (auto simp: merge_option_def split: option.splits if_splits)

lemma check_read_options_iff:
  "check_read_options level policy freshness pool = Inr u \<longleftrightarrow>
     level \<in> {''any'', ''leader'', ''linearizable''} \<and>
     (\<forall>p. policy = Some p \<longrightarrow> p \<in> set remote_read_policies) \<and>
     (freshness \<noteq> None \<longrightarrow> level = ''any'') \<and>
     (\<forall>n. pool = Some n \<longrightarrow> 1 \<le> n \<and> n \<le> 64)"
  by (auto simp: check_read_options_def raise_if_Inr_iff remote_read_levels_iff [simplified]
      split: option.splits)

lemma parse_target_seeds: "parse_target nt path = Inr d \<Longrightarrow> seeds_ok nt (d_seeds d)"
  by (auto simp: parse_target_def rbind_Inr_iff validate_unix_endpoint_iff bare_dsn_def seeds_ok_def
      dsn_ok_def dest!: parse_remote_dsn_accepts split: if_splits)

lemma hex_pairs_length: "length (hex_pairs s) = length s div 2"
  by (induction s rule: hex_pairs.induct) auto

lemma py_lower_length [simp]: "length (py_lower s) = length s"
  by (simp add: py_lower_def)

lemma decode_database_id_length: "decode_database_id v = Inr raw \<Longrightarrow> length raw = 16"
  by (auto simp: decode_database_id_def Let_def hex_pairs_length split: pyobj.splits if_splits)

lemma loopback_seedI: "tcp_seed s \<Longrightarrow> is_numeric_loopback s \<Longrightarrow> loopback_seed s"
  by (auto simp: tcp_seed_host loopback_seed_def is_numeric_loopback_host)

lemma seeds_unix_head: "seeds_ok nt seeds \<Longrightarrow> startswith (hd seeds) ''unix:'' \<longleftrightarrow> list_ex unix_seed seeds"
  by (cases seeds) (auto simp: seeds_ok_def list_ex_iff dest: unix_seed_startswith)

lemma admission_ms_pos: "1 \<le> admission_ms t"
  by (simp add: admission_ms_def)

lemma seeds_loopback:
  assumes "seeds_ok nt seeds" and "\<not> list_ex unix_seed seeds" and "list_all is_numeric_loopback seeds"
    and "s \<in> set seeds"
  shows "loopback_seed s"
  using assms by (auto simp: seeds_ok_def list_ex_iff list_all_iff intro: loopback_seedI)

lemma decode_identity_length: "decode_identity v = Inr (Some raw) \<Longrightarrow> length raw = 16"
  by (auto simp: decode_identity_def rbind_Inr_iff split: option.splits dest: decode_database_id_length)

lemma connect_remote_plan:
  assumes "connect_remote nt path a = Inr pl"
  obtains p where "pl = PlanRemote p" and "seeds_ok nt (r_seeds p)" and "transport_ok p"
    and "consistency_ok p" and "a_isolation_level a = None" and "a_autocommit a"
proof -
  from assms obtain d policy freshness pool level ct ot identity ident where
    pt: "parse_target nt path = Inr d" and ro: "check_read_options level policy freshness pool = Inr ()"
    and tr: "check_transport (d_seeds d) a = Inr ()" and gate: "a_isolation_level a = None" "a_autocommit a"
    and ident: "decode_identity ident = Inr identity"
    and pl: "pl = PlanRemote (remote_plan_of a (d_seeds d) level freshness pool ct ot identity)"
    unfolding connect_remote_def by (auto simp: raise_if_Inr_iff rbind_Inr_iff Let_def)
  note ok = parse_target_seeds [OF pt]
  let ?p = "remote_plan_of a (d_seeds d) level freshness pool ct ot identity"
  from tr ok have "transport_ok ?p"
    by (auto simp: transport_ok_def remote_plan_of_def check_transport_iff seeds_unix_head
        intro: seeds_loopback)
  moreover from ro ident have "consistency_ok ?p"
    by (auto simp: consistency_ok_def remote_plan_of_def check_read_options_iff int_or_zero_def
        admission_ms_pos split: option.splits dest: decode_identity_length)
  moreover have "r_seeds ?p = d_seeds d" by (simp add: remote_plan_of_def)
  ultimately show ?thesis using that pl ok gate by simp
qed

lemma connect_remote_consistency:
  "connect nt tgt a = Inr (PlanRemote p) \<Longrightarrow> seeds_ok nt (r_seeds p) \<and> transport_ok p \<and> consistency_ok p"
  by (auto simp: connect_def connect_local_def rbind_Inr_iff split: target.splits if_splits
      elim: connect_remote_plan)

text \<open>
  C8. Every remote connection that \<open>connect\<close> agrees to open is safe by construction: its seeds are
  valid and distinct, TLS material is complete or absent, a Unix socket carries neither TLS nor the
  pre-shared-key mode, that mode needs an auth file, no TLS and only numeric loopback hosts, the read
  level is known, a staleness bound occurs only with level \<open>any\<close>, the pool is the default or
  1 to 64, the write-admission bound is at least a millisecond and a pinned identity has 16 bytes.
\<close>

theorem connect_remote_secure:
  "connect nt tgt a = Inr (PlanRemote p) \<Longrightarrow>
     seeds_ok nt (r_seeds p) \<and> transport_ok p \<and> consistency_ok p"
  by (rule connect_remote_consistency)

theorem connect_remote_secure_witness:
  "\<exists>p. connect False (TStr ''zxlite://127.0.0.1:9901,[::1]:9902/?read_level=any'')
       (connect_defaults\<lparr>a_allow_psk := True, a_auth_file := Some ''k'', a_freshness_ms := Some 5\<rparr>) =
         Inr (PlanRemote p) \<and>
     r_seeds p = [''127.0.0.1:9901'', ''[::1]:9902''] \<and> transport_ok p \<and> consistency_ok p"
proof -
  let ?r = "connect False (TStr ''zxlite://127.0.0.1:9901,[::1]:9902/?read_level=any'')
       (connect_defaults\<lparr>a_allow_psk := True, a_auth_file := Some ''k'', a_freshness_ms := Some 5\<rparr>)"
  have "case ?r of Inr (PlanRemote p) \<Rightarrow> r_seeds p = [''127.0.0.1:9901'', ''[::1]:9902''] | _ \<Rightarrow> False"
    by code_simp
  then obtain p where "?r = Inr (PlanRemote p)" "r_seeds p = [''127.0.0.1:9901'', ''[::1]:9902'']"
    by (auto split: sum.splits plan.splits)
  with connect_remote_secure [of False _ _ p] show ?thesis by blast
qed



end
