(* ===== verification/Zx_Native.thy ===== *)
theory Zx_Native
  imports Zx_Cursor Zx_Connect
begin

text \<open>
  The effects of the connection classes and the boundary to the native module.

  \<^item> A method is a value of type \<open>('s, 'a) py\<close>: from the state it starts in to its outcome and the
    state it leaves. It returns, raises, or never comes back (\<open>Blocked\<close>). \<open>finally_do\<close> and
    \<open>catch\<close> are \<open>try/finally\<close> and \<open>try/except\<close>; \<open>keeps P m\<close> says that \<open>m\<close> preserves \<open>P\<close> on
    every outcome, \<open>calm P m\<close> that it also comes back.
  \<^item> \<open>_NativeWorker\<close> of \<open>dbapi.py\<close>: the queue served by the dedicated thread until the stop request.
  \<^item> The functions of the extension module \<open>_zxlite\<close> a local connection calls are the fields of the
    record \<open>native\<close>, over an arbitrary native state. The locale \<open>live_native\<close> states the laws of the
    live-transaction functions the Python side relies on.
\<close>

named_theorems keeps_intros "introduction rules for preserved predicates"

section \<open>Outcomes\<close>

datatype 'a outcome = Return 'a | Raise pyexc | Blocked

type_synonym ('s, 'a) py = "'s \<Rightarrow> 'a outcome \<times> 's"

definition ret :: "'a \<Rightarrow> ('s, 'a) py" where
  "ret a s = (Return a, s)"

definition throw :: "pyexc \<Rightarrow> ('s, 'a) py" where
  "throw e s = (Raise e, s)"

definition lift_res :: "'a pyres \<Rightarrow> ('s, 'a) py" where
  "lift_res r s = (case r of Inl e \<Rightarrow> Raise e | Inr a \<Rightarrow> Return a, s)"

definition pbind :: "('s, 'a) py \<Rightarrow> ('a \<Rightarrow> ('s, 'b) py) \<Rightarrow> ('s, 'b) py" where
  "pbind m f s = (case m s of (Return a, s') \<Rightarrow> f a s' | (Raise e, s') \<Rightarrow> (Raise e, s') | (Blocked, s') \<Rightarrow> (Blocked, s'))"

definition modify_s :: "('s \<Rightarrow> 's) \<Rightarrow> ('s, unit) py" where
  "modify_s f s = (Return (), f s)"

definition gets :: "('s \<Rightarrow> 'a) \<Rightarrow> ('s, 'a) py" where
  "gets f s = (Return (f s), s)"

definition guard_not :: "bool \<Rightarrow> pyexc \<Rightarrow> ('s, unit) py" where
  "guard_not bad e = (if bad then throw e else ret ())"

text \<open>\<open>try: m finally: f\<close>: an exception of \<open>f\<close> replaces the outcome of \<open>m\<close>.\<close>

definition finally_do :: "('s, 'a) py \<Rightarrow> ('s, unit) py \<Rightarrow> ('s, 'a) py" where
  "finally_do m f s =
    (case m s of
       (Blocked, s') \<Rightarrow> (Blocked, s')
     | (r, s') \<Rightarrow> (case f s' of
           (Return _, s'') \<Rightarrow> (r, s'')
         | (Raise e, s'') \<Rightarrow> (Raise e, s'')
         | (Blocked, s'') \<Rightarrow> (Blocked, s'')))"

definition catch :: "('s, 'a) py \<Rightarrow> (pyexc \<Rightarrow> ('s, 'a) py) \<Rightarrow> ('s, 'a) py" where
  "catch m h s = (case m s of (Raise e, s') \<Rightarrow> h e s' | r \<Rightarrow> r)"

text \<open>A loop whose body may raise, collecting the results in order.\<close>

fun for_each :: "('a \<Rightarrow> ('s, 'b) py) \<Rightarrow> 'a list \<Rightarrow> ('s, 'b list) py" where
  "for_each f [] = ret []"
| "for_each f (x # xs) = pbind (f x) (\<lambda>y. pbind (for_each f xs) (\<lambda>ys. ret (y # ys)))"

lemmas py_defs = ret_def throw_def lift_res_def pbind_def modify_s_def gets_def guard_not_def
  finally_do_def catch_def

subsection \<open>Preserved predicates\<close>

definition keeps :: "('s \<Rightarrow> bool) \<Rightarrow> ('s, 'a) py \<Rightarrow> bool" where
  "keeps P m \<longleftrightarrow> (\<forall>s. P s \<longrightarrow> P (snd (m s)))"

lemma keepsD: "keeps P m \<Longrightarrow> P s \<Longrightarrow> P (snd (m s))"
  by (simp add: keeps_def)

lemma keeps_basic [keeps_intros]:
  "keeps P (ret a)" "keeps P (throw e)" "keeps P (lift_res r)" "keeps P (gets f)" "keeps P (guard_not b e)"
  by (simp_all add: keeps_def py_defs)

lemma keeps_modify [keeps_intros]: "(\<And>s. P s \<Longrightarrow> P (f s)) \<Longrightarrow> keeps P (modify_s f)"
  by (simp add: keeps_def modify_s_def)

lemma keeps_bind [keeps_intros]: "keeps P m \<Longrightarrow> (\<And>a. keeps P (f a)) \<Longrightarrow> keeps P (pbind m f)"
  by (fastforce simp: keeps_def pbind_def split: prod.splits outcome.splits)

lemma keeps_finally [keeps_intros]: "keeps P m \<Longrightarrow> keeps P f \<Longrightarrow> keeps P (finally_do m f)"
  by (fastforce simp: keeps_def finally_do_def split: prod.splits outcome.splits)

lemma keeps_catch [keeps_intros]: "keeps P m \<Longrightarrow> (\<And>e. keeps P (h e)) \<Longrightarrow> keeps P (catch m h)"
  by (fastforce simp: keeps_def catch_def split: prod.splits outcome.splits)

lemma keeps_for_each [keeps_intros]: "(\<And>x. keeps P (f x)) \<Longrightarrow> keeps P (for_each f xs)"
  by (induction xs) (auto intro!: keeps_intros)

lemma keeps_if [keeps_intros]: "(b \<Longrightarrow> keeps P m) \<Longrightarrow> (\<not> b \<Longrightarrow> keeps P m') \<Longrightarrow> keeps P (if b then m else m')"
  by simp

lemma keeps_case_option [keeps_intros]:
  "keeps P m \<Longrightarrow> (\<And>a. keeps P (f a)) \<Longrightarrow> keeps P (case x of None \<Rightarrow> m | Some a \<Rightarrow> f a)"
  by (simp split: option.splits)

lemma keeps_case_prod [keeps_intros]: "(\<And>a b. keeps P (f a b)) \<Longrightarrow> keeps P (case x of (a, b) \<Rightarrow> f a b)"
  by (simp split: prod.splits)

subsection \<open>Computations that come back\<close>

text \<open>From a state with \<open>P\<close> the computation returns or raises, in a state with \<open>P\<close> again.\<close>

definition calm :: "('s \<Rightarrow> bool) \<Rightarrow> ('s, 'a) py \<Rightarrow> bool" where
  "calm P m \<longleftrightarrow> (\<forall>s. P s \<longrightarrow> fst (m s) \<noteq> Blocked \<and> P (snd (m s)))"

named_theorems calm_intros "introduction rules for computations that come back"

lemma calmD: "calm P m \<Longrightarrow> P s \<Longrightarrow> m s = (r, s') \<Longrightarrow> r \<noteq> Blocked \<and> P s'"
  by (auto simp: calm_def)

lemma calm_basic [calm_intros]:
  "calm P (ret a)" "calm P (throw e)" "calm P (lift_res r)" "calm P (gets f)" "calm P (guard_not b e)"
  "calm P (\<lambda>w. lift_res (h w) w)"
  by (simp_all add: calm_def py_defs split: sum.splits)

lemma calm_bind [calm_intros]: "calm P m \<Longrightarrow> (\<And>a. calm P (f a)) \<Longrightarrow> calm P (pbind m f)"
  by (fastforce simp: calm_def pbind_def split: prod.splits outcome.splits)

lemma calm_finally [calm_intros]: "calm P m \<Longrightarrow> calm P f \<Longrightarrow> calm P (finally_do m f)"
  by (fastforce simp: calm_def finally_do_def split: prod.splits outcome.splits)

lemma calm_catch [calm_intros]: "calm P m \<Longrightarrow> (\<And>e. calm P (h e)) \<Longrightarrow> calm P (catch m h)"
  by (fastforce simp: calm_def catch_def split: prod.splits outcome.splits)

lemma calm_for_each [calm_intros]: "(\<And>x. calm P (f x)) \<Longrightarrow> calm P (for_each f xs)"
  by (induction xs) (auto intro!: calm_intros)

lemma calm_if [calm_intros]:
  "calm P m \<Longrightarrow> calm P m' \<Longrightarrow> calm P (if b then m else m')"
  "calm P m \<Longrightarrow> calm P m' \<Longrightarrow> calm P (\<lambda>w. if c w then m w else m' w)"
  by (simp_all add: calm_def)

lemma calm_case [calm_intros]:
  "calm P m \<Longrightarrow> (\<And>a. calm P (f a)) \<Longrightarrow> calm P (case x of None \<Rightarrow> m | Some a \<Rightarrow> f a)"
  "(\<And>a b. calm P (g a b)) \<Longrightarrow> calm P (case y of (a, b) \<Rightarrow> g a b)"
  by (simp_all split: option.splits prod.splits)

section \<open>The worker thread\<close>

text \<open>
  The request queue holds jobs and stop markers (\<open>None\<close>). \<open>worker_run\<close> is the loop of the thread on
  the queue: the results it delivers, the native state it leaves and whether it is still running.
\<close>

datatype 'j request = Request 'j | Stop

fun worker_run :: "('j \<Rightarrow> 'n \<Rightarrow> 'v \<times> 'n) \<Rightarrow> 'j request list \<Rightarrow> 'n \<Rightarrow> 'v list \<times> 'n \<times> bool" where
  "worker_run run [] n = ([], n, True)"
| "worker_run run (Stop # q) n = ([], n, False)"
| "worker_run run (Request j # q) n =
     (case run j n of (v, n') \<Rightarrow>
      (case worker_run run q n' of (vs, n'', running) \<Rightarrow> (v # vs, n'', running)))"

text \<open>
  \<open>call\<close> on a worker whose queue holds \<open>stops\<close> unserved stop markers: the caller waits for its own
  completion event, which never comes when the thread has left the loop.
\<close>

definition worker_call :: "nat \<Rightarrow> ('n \<Rightarrow> 'v \<times> 'n) \<Rightarrow> 'n \<Rightarrow> 'v option \<times> 'n" where
  "worker_call stops f n =
    (case worker_run (\<lambda>f. f) (replicate stops Stop @ [Request f]) n of
       ([], n', _) \<Rightarrow> (None, n')
     | (v # _, n', _) \<Rightarrow> (Some v, n'))"

definition worker_stop :: "nat \<Rightarrow> nat" where
  "worker_stop stops = stops + 1"

lemma worker_call_0 [simp]: "worker_call 0 f n = (Some (fst (f n)), snd (f n))"
  by (simp add: worker_call_def split: prod.splits)

lemma worker_call_stopped [simp]: "0 < stops \<Longrightarrow> worker_call stops f n = (None, n)"
  by (cases stops) (simp_all add: worker_call_def)

lemma worker_run_served:
  "worker_run run (map Request js) n = (vs, n', True) \<Longrightarrow>
     worker_run run (map Request js @ q) n =
       (case worker_run run q n' of (ws, n'', r) \<Rightarrow> (vs @ ws, n'', r))"
  by (induction js arbitrary: n vs) (auto split: prod.splits)

lemma worker_run_requests: "\<exists>vs n'. worker_run run (map Request js) n = (vs, n', True) \<and> length vs = length js"
proof (induction js arbitrary: n)
  case Nil
  then show ?case by simp
next
  case (Cons j js)
  obtain v n1 where "run j n = (v, n1)" by fastforce
  with Cons.IH [of n1] show ?case by auto
qed


section \<open>The extension module\<close>

datatype native_exc = ZxErr zx_error | PyErr pyexc

type_synonym 'a nres = "(native_exc, 'a) result"

text \<open>What the caller of a native function sees, with its translation of \<open>_ZxError\<close>.\<close>

definition native_outcome :: "(zx_error \<Rightarrow> pyexc) \<Rightarrow> 'a nres \<Rightarrow> 'a outcome" where
  "native_outcome remap r =
    (case r of Inr a \<Rightarrow> Return a | Inl (ZxErr e) \<Rightarrow> Raise (remap e) | Inl (PyErr e) \<Rightarrow> Raise e)"

lemma native_outcome_Return: "native_outcome remap r = Return a \<longleftrightarrow> r = Inr a"
  by (auto simp: native_outcome_def split: sum.splits native_exc.splits)

lemma native_outcome_not_Blocked [simp]: "native_outcome remap r \<noteq> Blocked"
  by (auto simp: native_outcome_def split: sum.splits native_exc.splits)

text \<open>\<open>PyArg_ParseTuple\<close> refuses a string with an embedded NUL character.\<close>

definition nul_free :: "string \<Rightarrow> bool" where
  "nul_free s = (CHR 0x00 \<notin> set s)"

type_synonym table = "string list \<times> pyobj list list"

text \<open>\<open>(changes, lastrowid, replayed, returning)\<close>\<close>

type_synonym write_result = "int \<times> int option \<times> bool \<times> table option"

record 'n native =
  nv_open :: "string \<Rightarrow> 'n \<Rightarrow> unit nres \<times> 'n"
  nv_close :: "'n \<Rightarrow> unit nres \<times> 'n"
  nv_describe :: "string \<Rightarrow> 'n \<Rightarrow> (int \<times> int \<times> bool \<times> bool) nres \<times> 'n"
  nv_parameter_name :: "string \<Rightarrow> int \<Rightarrow> 'n \<Rightarrow> string nres \<times> 'n"
  nv_query :: "string \<Rightarrow> pyobj list \<Rightarrow> 'n \<Rightarrow> table nres \<times> 'n"
  nv_exec :: "string \<Rightarrow> pyobj list \<Rightarrow> 'n \<Rightarrow> write_result nres \<times> 'n"
  nv_exec_script :: "string \<Rightarrow> 'n \<Rightarrow> int nres \<times> 'n"
  nv_begin :: "'n \<Rightarrow> nat nres \<times> 'n"
  nv_tx_exec :: "nat \<Rightarrow> string \<Rightarrow> pyobj list \<Rightarrow> 'n \<Rightarrow> unit nres \<times> 'n"
  nv_tx_commit :: "nat \<Rightarrow> 'n \<Rightarrow> int nres \<times> 'n"
  nv_tx_close :: "nat \<Rightarrow> 'n \<Rightarrow> unit nres \<times> 'n"
  nv_live_begin :: "'n \<Rightarrow> unit nres \<times> 'n"
  nv_live_exec :: "string \<Rightarrow> pyobj list \<Rightarrow> 'n \<Rightarrow> write_result nres \<times> 'n"
  nv_live_commit :: "'n \<Rightarrow> int nres \<times> 'n"
  nv_live_rollback :: "'n \<Rightarrow> unit nres \<times> 'n"
  nv_live_savepoint :: "int \<Rightarrow> 'n \<Rightarrow> unit nres \<times> 'n"
  nv_live_release_savepoint :: "int \<Rightarrow> 'n \<Rightarrow> unit nres \<times> 'n"
  nv_live_rollback_to_savepoint :: "int \<Rightarrow> 'n \<Rightarrow> unit nres \<times> 'n"
  nv_snapshot :: "'n \<Rightarrow> unit nres \<times> 'n"
  nv_backup :: "string \<Rightarrow> 'n \<Rightarrow> unit nres \<times> 'n"
  nv_integrity_check :: "'n \<Rightarrow> unit nres \<times> 'n"
  nv_session_open :: "'n \<Rightarrow> int nres \<times> 'n"
  nv_exec_idempotent :: "int \<Rightarrow> int \<Rightarrow> string \<Rightarrow> 'n \<Rightarrow> (int \<times> bool) nres \<times> 'n"
  nv_expire_sessions :: "int \<Rightarrow> 'n \<Rightarrow> int nres \<times> 'n"
  nv_search :: "search_native \<Rightarrow> 'n \<Rightarrow> table nres \<times> 'n"

text \<open>
  The contract of live transactions: which calls open, keep and end one. A failed call may end the
  transaction but never opens one; a rollback ends it whether or not it reports an error.
\<close>

locale live_native =
  fixes N :: "'n native"
    and live :: "'n \<Rightarrow> bool"
  assumes open_fresh: "\<not> live (snd (nv_open N path n))"
    and begin_ok: "nv_live_begin N n = (Inr u, n') \<Longrightarrow> live n' \<and> \<not> live n"
    and begin_fail: "nv_live_begin N n = (Inl e, n') \<Longrightarrow> live n' = live n"
    and exec_ok: "nv_live_exec N sql ps n = (Inr r, n') \<Longrightarrow> live n \<and> live n'"
    and exec_fail: "nv_live_exec N sql ps n = (Inl e, n') \<Longrightarrow> live n' \<Longrightarrow> live n"
    and commit_ok: "nv_live_commit N n = (Inr c, n') \<Longrightarrow> live n \<and> \<not> live n'"
    and commit_fail: "nv_live_commit N n = (Inl e, n') \<Longrightarrow> live n' \<Longrightarrow> live n"
    and rollback_ends: "\<not> live (snd (nv_live_rollback N n))"
    and rollback_needs_live: "nv_live_rollback N n = (Inr u, n') \<Longrightarrow> live n"
    and savepoints_keep: "live (snd (nv_live_savepoint N i n)) = live n"
      "live (snd (nv_live_release_savepoint N i n)) = live n"
      "live (snd (nv_live_rollback_to_savepoint N i n)) = live n"
    and reads_keep: "live (snd (nv_describe N sql n)) = live n"
      "live (snd (nv_parameter_name N sql i n)) = live n"
      "live (snd (nv_query N sql ps n)) = live n"
      "live (snd (nv_search N q n)) = live n"
      "live (snd (nv_integrity_check N n)) = live n"
      "live (snd (nv_backup N path n)) = live n"
    and writes_keep: "live (snd (nv_exec N sql ps n)) = live n"
      "live (snd (nv_exec_script N sql n)) = live n"
      "live (snd (nv_begin N n)) = live n"
      "live (snd (nv_tx_exec N tx sql ps n)) = live n"
      "live (snd (nv_tx_commit N tx n)) = live n"
      "live (snd (nv_tx_close N tx n)) = live n"
      "live (snd (nv_snapshot N n)) = live n"
      "live (snd (nv_session_open N n)) = live n"
      "live (snd (nv_exec_idempotent N session sequence sql n)) = live n"
      "live (snd (nv_expire_sessions N retain n)) = live n"
    and close_keeps: "live (snd (nv_close N n)) \<Longrightarrow> live n"
begin

text \<open>Outside a live transaction a rollback or commit is refused.\<close>

lemma no_transaction_refused:
  assumes "\<not> live n"
  shows "\<exists>e. fst (nv_live_commit N n) = Inl e" and "\<exists>e. fst (nv_live_rollback N n) = Inl e"
    and "\<exists>e. fst (nv_live_exec N sql ps n) = Inl e"
  using assms commit_ok rollback_needs_live exec_ok
  by (metis prod.collapse sum.collapse(1) sum.collapse(2))+

lemma stays_ended:
  assumes "\<not> live n"
  shows "\<not> live (snd (nv_live_commit N n))" and "\<not> live (snd (nv_live_exec N sql ps n))"
  using assms commit_ok commit_fail exec_ok exec_fail
  by (metis prod.collapse sum.collapse(1) sum.collapse(2))+

lemmas keep_live = savepoints_keep reads_keep writes_keep

end

end
