(* ===== verification/Zx_Values.thy ===== *)
theory Zx_Values
  imports Zx_Native "HOL-Library.Word"
begin

text \<open>
  Values across the extension module \<open>module.c\<close> and the C interface \<open>capi.zig\<close>: a Python value is bound
  into a \<open>zaxonlite_value\<close>, read by the library as a \<open>Value\<close>, and a cell of a result comes back the same
  way.

  \<^item> \<open>pyval\<close> is a Python object as \<open>module.c\<close> sees it. A \<open>str\<close> is its list of code points, all of
    Unicode and the lone surrogates included. A bytes-like object has an identity and the answer of
    \<open>PyObject_GetBuffer\<close>, which may be an exception. A float is a rational number: NaN and the
    infinities are not modelled.
  \<^item> \<open>exports\<close> counts, for every object, the buffers exported from it: an object with an exported buffer
    cannot be resized or freed. \<open>bind_one\<close> acquires, \<open>bound_params_clear\<close> releases.
  \<^item> Integers are \<^typ>\<open>64 word\<close> on the C side.
  \<^item> \<open>PyErr_NoMemory\<close> is not modelled: allocations succeed.

  The lemmas show that what a program binds is what it reads back, which values are refused and how,
  and that every buffer is pinned during the native call and released after it.
\<close>

named_theorems value_simps "the conversions of single values"

section \<open>Python values and C values\<close>

datatype buffer_kind = BytesKind | ByteArrayKind | MemoryViewKind

datatype pyval =
    VNone
  | VBool bool
  | VInt int
  | VFloat rat
  | VStr "nat list"
  | VBuffer buffer_kind nat "byte_list pyres"
  | VOther

text \<open>\<open>zaxonlite_value\<close>; the null pointer is \<open>None\<close>.\<close>

record c_value =
  v_type :: nat
  v_integer :: "64 word"
  v_real :: rat
  v_bytes :: "byte_list option"
  v_length :: nat

definition c_zero :: c_value where
  "c_zero = \<lparr>v_type = 0, v_integer = 0, v_real = 0, v_bytes = None, v_length = 0\<rparr>"

text \<open>\<open>Value\<close> of the library.\<close>

datatype nvalue =
    NullValue
  | IntegerValue "64 word"
  | RealValue rat
  | TextValue byte_list
  | BlobValue byte_list

section \<open>Errors of the module\<close>

definition raise_zx_error :: "int \<Rightarrow> int \<Rightarrow> string \<Rightarrow> native_exc" where
  "raise_zx_error code category message =
    ZxErr \<lparr>zx_code = Some code, zx_category = Some category, zx_message = Some message, zx_str = message\<rparr>"

text \<open>The last error of a handle: its category and its text, which may be missing.\<close>

definition raise_native_error :: "int \<Rightarrow> int \<Rightarrow> string option \<Rightarrow> native_exc" where
  "raise_native_error code category message =
    raise_zx_error code category
      (case message of Some (c # cs) \<Rightarrow> c # cs | _ \<Rightarrow> ''zaxonlite call failed'')"

definition misuse_error :: "string \<Rightarrow> native_exc" where
  "misuse_error message = raise_zx_error 2 4 message"

section \<open>UTF-8\<close>

text \<open>\<open>PyUnicode_AsUTF8AndSize\<close>.\<close>

definition as_utf8 :: "nat list \<Rightarrow> byte_list pyres" where
  "as_utf8 points =
    raise_if (list_ex surrogate points) (exc PyUnicodeEncodeError ''surrogates not allowed'')
    (Inr (concat (map utf8_encode_point points)))"

section \<open>Binding\<close>

type_synonym exports = "nat \<Rightarrow> nat"

definition get_buffer :: "nat \<Rightarrow> byte_list pyres \<Rightarrow> exports \<Rightarrow> byte_list pyres \<times> exports" where
  "get_buffer i access ex =
    (case access of Inl e \<Rightarrow> (Inl e, ex) | Inr bytes \<Rightarrow> (Inr bytes, ex(i := ex i + 1)))"

definition release_buffer :: "nat \<Rightarrow> exports \<Rightarrow> exports" where
  "release_buffer i ex = ex(i := ex i - 1)"

text \<open>\<open>BoundParams\<close>: the filled views are the identities of their objects.\<close>

record bound_params =
  bp_values :: "c_value list"
  bp_buffers :: "nat list"
  bp_count :: nat

definition params_zero :: bound_params where
  "params_zero = \<lparr>bp_values = [], bp_buffers = [], bp_count = 0\<rparr>"

definition bound_params_clear :: "bound_params \<Rightarrow> exports \<Rightarrow> bound_params \<times> exports" where
  "bound_params_clear params ex = (params_zero, fold release_buffer (bp_buffers params) ex)"

text \<open>\<open>PyLong_AsLongLong\<close>.\<close>

definition as_long_long :: "int \<Rightarrow> 64 word pyres" where
  "as_long_long i =
    raise_if (i < - (2 ^ 63) \<or> 2 ^ 63 \<le> i) (exc PyOverflowError ''int too big to convert'')
    (Inr (word_of_int i))"

definition bind_one :: "pyval \<Rightarrow> bound_params \<Rightarrow> exports \<Rightarrow> c_value nres \<times> bound_params \<times> exports" where
  "bind_one item params ex =
    (case item of
       VNone \<Rightarrow> (Inr (c_zero\<lparr>v_type := 0\<rparr>), params, ex)
     | VBool b \<Rightarrow> (Inr (c_zero\<lparr>v_type := 1, v_integer := if b then 1 else 0\<rparr>), params, ex)
     | VInt i \<Rightarrow> (case as_long_long i of
           Inl e \<Rightarrow> (Inl (PyErr e), params, ex)
         | Inr integer \<Rightarrow> (Inr (c_zero\<lparr>v_type := 1, v_integer := integer\<rparr>), params, ex))
     | VFloat x \<Rightarrow> (Inr (c_zero\<lparr>v_type := 2, v_real := x\<rparr>), params, ex)
     | VStr points \<Rightarrow> (case as_utf8 points of
           Inl e \<Rightarrow> (Inl (PyErr e), params, ex)
         | Inr bytes \<Rightarrow> (Inr (c_zero\<lparr>v_type := 3, v_bytes := Some bytes, v_length := length bytes\<rparr>), params, ex))
     | VBuffer kind i access \<Rightarrow> (case get_buffer i access ex of
           (Inl e, ex') \<Rightarrow> (Inl (PyErr e), params, ex')
         | (Inr bytes, ex') \<Rightarrow>
             (Inr (c_zero\<lparr>v_type := 4, v_bytes := Some bytes, v_length := length bytes\<rparr>),
              params\<lparr>bp_buffers := bp_buffers params @ [i]\<rparr>, ex'))
     | VOther \<Rightarrow> (Inl (misuse_error ''unsupported parameter type; supported types are None, bool, int, float, str, bytes, bytearray, and contiguous memoryview''), params, ex))"

text \<open>The loop of \<open>bind_params\<close> from index \<open>i\<close> on.\<close>

fun bind_items :: "nat \<Rightarrow> pyval list \<Rightarrow> bound_params \<Rightarrow> exports \<Rightarrow> bound_params nres \<times> exports" where
  "bind_items i [] params ex = (Inr params, ex)"
| "bind_items i (item # items) params ex =
     (case bind_one item params ex of
        (Inl e, params', ex') \<Rightarrow> (Inl e, snd (bound_params_clear params' ex'))
      | (Inr value, params', ex') \<Rightarrow>
          bind_items (i + 1) items (params'\<lparr>bp_values := (bp_values params')[i := value]\<rparr>) ex')"

text \<open>The argument is the items of a tuple, or \<open>None\<close> for an object that is not a tuple.\<close>

definition bind_params :: "pyval list option \<Rightarrow> exports \<Rightarrow> bound_params nres \<times> exports" where
  "bind_params tuple ex =
    (case tuple of
       None \<Rightarrow> (Inl (misuse_error ''parameters must be passed as a tuple''), ex)
     | Some items \<Rightarrow>
         (let params = params_zero\<lparr>bp_count := length items\<rparr> in
          if items = [] then (Inr params, ex)
          else bind_items 0 items (params\<lparr>bp_values := replicate (length items) c_zero\<rparr>) ex))"

section \<open>The C interface\<close>

definition maximum_values :: int where
  "maximum_values = 1024 * 64"

definition maximum_input_bytes :: int where
  "maximum_input_bytes = 64 * 1024 * 1024"

definition cBytes :: "c_value \<Rightarrow> (string, byte_list) result" where
  "cBytes v =
    (if v_length v = 0 then Inr []
     else if maximum_input_bytes < int (v_length v) then Inl ''ValueTooLarge''
     else case v_bytes v of None \<Rightarrow> Inl ''NullValueBytes'' | Some bytes \<Rightarrow> Inr (take (v_length v) bytes))"

definition value_from_c :: "c_value \<Rightarrow> (string, nvalue) result" where
  "value_from_c v =
    (if v_type v = 0 then Inr NullValue
     else if v_type v = 1 then Inr (IntegerValue (v_integer v))
     else if v_type v = 2 then Inr (RealValue (v_real v))
     else if v_type v = 3 then rbind (cBytes v) (\<lambda>bytes. Inr (TextValue bytes))
     else if v_type v = 4 then rbind (cBytes v) (\<lambda>bytes. Inr (BlobValue bytes))
     else Inl ''InvalidValueType'')"

definition valuesFromC :: "c_value list \<Rightarrow> nat \<Rightarrow> (string, nvalue list) result" where
  "valuesFromC values count =
    (if count = 0 then Inr []
     else if maximum_values < int count then Inl ''TooManyValues''
     else rmap value_from_c (take count values))"

text \<open>A typed result: the column names as C strings, and the rows.\<close>

record typed_result =
  tr_columns :: "byte_list list"
  tr_rows :: "nvalue list list"

definition result_column_name :: "typed_result \<Rightarrow> nat \<Rightarrow> byte_list option" where
  "result_column_name result column =
    (if length (tr_columns result) \<le> column then None
     else Some (takeWhile (\<lambda>b. b \<noteq> 0) (tr_columns result ! column)))"

definition c_of_nvalue :: "nvalue \<Rightarrow> c_value" where
  "c_of_nvalue cell =
    (case cell of
       NullValue \<Rightarrow> c_zero
     | IntegerValue number \<Rightarrow> c_zero\<lparr>v_type := 1, v_integer := number\<rparr>
     | RealValue number \<Rightarrow> c_zero\<lparr>v_type := 2, v_real := number\<rparr>
     | TextValue bytes \<Rightarrow> c_zero\<lparr>v_type := 3, v_bytes := Some bytes, v_length := length bytes\<rparr>
     | BlobValue bytes \<Rightarrow> c_zero\<lparr>v_type := 4, v_bytes := Some bytes, v_length := length bytes\<rparr>)"

text \<open>\<open>zaxonlite_result_value\<close>: \<open>None\<close> is the misuse code of an index out of bounds.\<close>

definition result_value :: "typed_result \<Rightarrow> nat \<Rightarrow> nat \<Rightarrow> c_value option" where
  "result_value result row column =
    (if length (tr_rows result) \<le> row then None
     else if length (tr_rows result ! row) \<le> column then None
     else Some (c_of_nvalue (tr_rows result ! row ! column)))"

section \<open>Result conversion\<close>

definition convert_cell :: "c_value \<Rightarrow> pyval nres" where
  "convert_cell cell =
    (let bytes = take (v_length cell) (case v_bytes cell of None \<Rightarrow> [] | Some bytes \<Rightarrow> bytes) in
     if v_type cell = 0 then Inr VNone
     else if v_type cell = 1 then Inr (VInt (sint (v_integer cell)))
     else if v_type cell = 2 then Inr (VFloat (v_real cell))
     else if v_type cell = 3 then
       (case utf8_decode bytes of
          None \<Rightarrow> Inl (raise_zx_error 1 9 ''TEXT result is not valid UTF-8'')
        | Some points \<Rightarrow> Inr (VStr points))
     else if v_type cell = 4 then Inr (VBuffer BytesKind 0 (Inr bytes))
     else Inl (misuse_error ''unknown result value type''))"

definition convert_name :: "byte_list option \<Rightarrow> nat list nres" where
  "convert_name name =
    (case utf8_decode (case name of None \<Rightarrow> [] | Some bytes \<Rightarrow> bytes) of
       None \<Rightarrow> Inl (PyErr (exc PyUnicodeDecodeError ''utf-8''))
     | Some points \<Rightarrow> Inr points)"

definition convert_result :: "typed_result \<Rightarrow> (nat list list \<times> pyval list list) nres" where
  "convert_result result =
    (let column_count = length (tr_columns result); row_count = length (tr_rows result) in
     rbind (rmap (\<lambda>c. convert_name (result_column_name result c)) [0 ..< column_count]) (\<lambda>columns.
     rbind (rmap (\<lambda>r. rmap (\<lambda>c.
         case result_value result r c of
           None \<Rightarrow> Inl (misuse_error ''result cell index out of bounds'')
         | Some cell \<Rightarrow> convert_cell cell) [0 ..< column_count]) [0 ..< row_count]) (\<lambda>rows.
     Inr (columns, rows))))"

section \<open>The statement functions\<close>

text \<open>
  The common course of \<open>zx_query\<close>, \<open>zx_exec\<close>, \<open>zx_tx_exec\<close> and \<open>zx_live_exec\<close>: parse the arguments, check
  the handle, bind, call, release, and raise when the call failed. The call \<open>f\<close> sees the bound values,
  their number and the buffers exported while it runs; its error is the one \<open>raise_native_error\<close> made.
\<close>

definition zx_statement ::
  "string \<Rightarrow> bool \<Rightarrow> string \<Rightarrow> pyval list option \<Rightarrow> (c_value list \<Rightarrow> nat \<Rightarrow> exports \<Rightarrow> 'n \<Rightarrow> 'a nres \<times> 'n) \<Rightarrow>
     exports \<times> 'n \<Rightarrow> 'a nres \<times> exports \<times> 'n" where
  "zx_statement kind open_handle sql tuple f s =
    (case s of (ex, n) \<Rightarrow>
     if \<not> nul_free sql then (Inl (PyErr (exc PyValueError ''embedded null character'')), ex, n)
     else if \<not> open_handle then (Inl (misuse_error (kind @ '' handle is closed'')), ex, n)
     else (case bind_params tuple ex of
         (Inl e, ex') \<Rightarrow> (Inl e, ex', n)
       | (Inr params, ex') \<Rightarrow>
           (case f (bp_values params) (bp_count params) ex' n of
              (r, n') \<Rightarrow> (r, snd (bound_params_clear params ex'), n'))))"

definition zx_query ::
  "bool \<Rightarrow> string \<Rightarrow> pyval list option \<Rightarrow> (c_value list \<Rightarrow> nat \<Rightarrow> exports \<Rightarrow> 'n \<Rightarrow> typed_result nres \<times> 'n) \<Rightarrow>
     exports \<times> 'n \<Rightarrow> (nat list list \<times> pyval list list) nres \<times> exports \<times> 'n" where
  "zx_query open_handle sql tuple f s =
    (case zx_statement ''connection'' open_handle sql tuple f s of (r, s') \<Rightarrow> (rbind r convert_result, s'))"

definition zx_tx_exec ::
  "bool \<Rightarrow> string \<Rightarrow> pyval list option \<Rightarrow> (c_value list \<Rightarrow> nat \<Rightarrow> exports \<Rightarrow> 'n \<Rightarrow> unit nres \<times> 'n) \<Rightarrow>
     exports \<times> 'n \<Rightarrow> unit nres \<times> exports \<times> 'n" where
  "zx_tx_exec open_handle sql tuple f s = zx_statement ''transaction'' open_handle sql tuple f s"

text \<open>\<open>zaxonlite_exec_result\<close> and the optional typed result beside it.\<close>

record exec_result =
  er_changes :: int
  er_last_insert_rowid :: int
  er_has_last_insert_rowid :: bool
  er_replayed :: bool

type_synonym exec_value = "int \<times> int option \<times> bool \<times> (nat list list \<times> pyval list list) option"

text \<open>The tail of \<open>zx_exec\<close> and of \<open>zx_live_exec\<close>: RETURNING rows are converted after the call succeeded.\<close>

definition build_exec :: "exec_result \<times> typed_result option \<Rightarrow> exec_value nres" where
  "build_exec p =
    (case p of (result, returning) \<Rightarrow>
     rbind (case returning of None \<Rightarrow> Inr None | Some rows \<Rightarrow> rbind (convert_result rows) (\<lambda>t. Inr (Some t))) (\<lambda>returning_obj.
     Inr (er_changes result,
          if er_has_last_insert_rowid result then Some (er_last_insert_rowid result) else None,
          er_replayed result, returning_obj)))"

definition zx_exec ::
  "bool \<Rightarrow> string \<Rightarrow> pyval list option \<Rightarrow>
     (c_value list \<Rightarrow> nat \<Rightarrow> exports \<Rightarrow> 'n \<Rightarrow> (exec_result \<times> typed_result option) nres \<times> 'n) \<Rightarrow>
     exports \<times> 'n \<Rightarrow> exec_value nres \<times> exports \<times> 'n" where
  "zx_exec open_handle sql tuple f s =
    (case zx_statement ''connection'' open_handle sql tuple f s of (r, s') \<Rightarrow> (rbind r build_exec, s'))"

definition zx_live_exec ::
  "bool \<Rightarrow> string \<Rightarrow> pyval list option \<Rightarrow>
     (c_value list \<Rightarrow> nat \<Rightarrow> exports \<Rightarrow> 'n \<Rightarrow> (exec_result \<times> typed_result option) nres \<times> 'n) \<Rightarrow>
     exports \<times> 'n \<Rightarrow> exec_value nres \<times> exports \<times> 'n" where
  "zx_live_exec open_handle sql tuple f s =
    (case zx_statement ''connection'' open_handle sql tuple f s of (r, s') \<Rightarrow> (rbind r build_exec, s'))"

section \<open>Search\<close>

text \<open>
  \<open>zx_search_impl\<close>: strings of the formats \<open>z\<close> (no embedded NUL) and \<open>z#\<close>, the unchecked 32-bit \<open>k\<close>, the
  candidate count narrowed to 32 bits, the pinned embedding, and the column names, which are C strings.
\<close>

record search_options =
  so_fts_table :: "byte_list option"
  so_vec_table :: "byte_list option"
  so_text :: "byte_list option"
  so_embedding :: "byte_list option"
  so_k :: "32 word"
  so_candidate_count :: "32 word option"
  so_dbsf :: bool
  so_text_weight :: rat
  so_vector_weight :: rat
  so_metadata_table :: "byte_list option"
  so_metadata_id_column :: "byte_list option"
  so_metadata_columns :: "byte_list list"

definition text_argument :: "pyval \<Rightarrow> byte_list option nres" where
  "text_argument v =
    (case v of
       VNone \<Rightarrow> Inr None
     | VStr points \<Rightarrow> (case as_utf8 points of Inl e \<Rightarrow> Inl (PyErr e) | Inr bytes \<Rightarrow> Inr (Some bytes))
     | _ \<Rightarrow> Inl (PyErr (exc PyTypeError ''argument must be str or None'')))"

definition name_argument :: "pyval \<Rightarrow> byte_list option nres" where
  "name_argument v =
    rbind (text_argument v) (\<lambda>r.
      case r of
        None \<Rightarrow> Inr None
      | Some bytes \<Rightarrow> raise_if (0 \<in> set bytes) (PyErr (exc PyValueError ''embedded null character'')) (Inr (Some bytes)))"

definition uint_argument :: "pyval \<Rightarrow> 32 word nres" where
  "uint_argument v =
    (case v of
       VInt i \<Rightarrow> Inr (word_of_int i)
     | VBool b \<Rightarrow> Inr (if b then 1 else 0)
     | _ \<Rightarrow> Inl (PyErr (exc PyTypeError ''argument must be int'')))"

text \<open>\<open>PyLong_AsUnsignedLong\<close> with a 64-bit \<open>unsigned long\<close>, then the cast to \<open>uint32_t\<close>.\<close>

definition candidate_argument :: "pyval \<Rightarrow> 32 word option nres" where
  "candidate_argument v =
    (case v of
       VNone \<Rightarrow> Inr None
     | VInt i \<Rightarrow> raise_if (i < 0 \<or> 2 ^ 64 \<le> i) (PyErr (exc PyOverflowError ''int too large to convert'')) (Inr (Some (word_of_int i)))
     | VBool b \<Rightarrow> Inr (Some (if b then 1 else 0))
     | _ \<Rightarrow> Inl (PyErr (exc PyTypeError ''an integer is required'')))"

definition embedding_argument :: "pyval \<Rightarrow> exports \<Rightarrow> (byte_list option nres \<times> nat list) \<times> exports" where
  "embedding_argument v ex =
    (case v of
       VNone \<Rightarrow> ((Inr None, []), ex)
     | VBuffer kind i access \<Rightarrow> (case get_buffer i access ex of
           (Inl e, ex') \<Rightarrow> ((Inl (PyErr e), []), ex')
         | (Inr bytes, ex') \<Rightarrow> ((Inr (Some bytes), [i]), ex'))
     | _ \<Rightarrow> ((Inl (PyErr (exc PyTypeError ''a bytes-like object is required'')), []), ex))"

definition column_argument :: "pyval \<Rightarrow> byte_list nres" where
  "column_argument v =
    (case v of
       VStr points \<Rightarrow> (case as_utf8 points of Inl e \<Rightarrow> Inl (PyErr e) | Inr bytes \<Rightarrow> Inr (takeWhile (\<lambda>b. 0 < b) bytes))
     | _ \<Rightarrow> Inl (PyErr (exc PyTypeError ''bad argument type for built-in operation'')))"

definition search_scalars :: "string \<Rightarrow> bool \<Rightarrow> (pyobj \<Rightarrow> pyval) \<Rightarrow> search_native \<Rightarrow> search_options nres" where
  "search_scalars kind open_handle val q =
    (let a = n_request q in
     rbind (name_argument (val (s_fts_table a))) (\<lambda>fts.
     rbind (name_argument (val (s_vec_table a))) (\<lambda>vec.
     rbind (text_argument (val (s_text a))) (\<lambda>txt.
     rbind (uint_argument (val (s_k a))) (\<lambda>k.
     rbind (name_argument (val (s_metadata_table a))) (\<lambda>mt.
     rbind (name_argument (val (s_metadata_id_column a))) (\<lambda>mi.
     raise_if (\<not> open_handle) (misuse_error (kind @ '' handle is closed''))
     (rbind (candidate_argument (val (s_candidate_count a))) (\<lambda>cc.
     Inr \<lparr>so_fts_table = fts, so_vec_table = vec, so_text = txt, so_embedding = None, so_k = k,
       so_candidate_count = cc, so_dbsf = (n_fusion q = 1), so_text_weight = n_text_weight q,
       so_vector_weight = n_vector_weight q, so_metadata_table = mt, so_metadata_id_column = mi,
       so_metadata_columns = []\<rparr>)))))))))"

definition zx_search_impl ::
  "string \<Rightarrow> bool \<Rightarrow> (pyobj \<Rightarrow> pyval) \<Rightarrow> search_native \<Rightarrow> (search_options \<Rightarrow> exports \<Rightarrow> 'n \<Rightarrow> typed_result nres \<times> 'n) \<Rightarrow>
     exports \<times> 'n \<Rightarrow> (nat list list \<times> pyval list list) nres \<times> exports \<times> 'n" where
  "zx_search_impl kind open_handle val q f s =
    (case s of (ex, n) \<Rightarrow>
    (case search_scalars kind open_handle val q of
       Inl e \<Rightarrow> (Inl e, ex, n)
     | Inr options \<Rightarrow>
         (case embedding_argument (val (s_embedding (n_request q))) ex of
            ((Inl e, view), ex') \<Rightarrow> (Inl e, ex', n)
          | ((Inr embedding, view), ex') \<Rightarrow>
              (case rmap (\<lambda>c. column_argument (val c)) (s_metadata_columns (n_request q)) of
                 Inl e \<Rightarrow> (Inl e, fold release_buffer view ex', n)
               | Inr columns \<Rightarrow>
                   (case f (options\<lparr>so_embedding := embedding, so_metadata_columns := columns\<rparr>) ex' n of
                      (r, n') \<Rightarrow> (rbind r convert_result, fold release_buffer view ex', n'))))))"

section \<open>The objects of the driver\<close>

text \<open>
  The values of the rest of the development at this boundary. Text beyond the driver's alphabet is the
  marker \<open>OutsideAlphabet\<close>.
\<close>

fun pyval_of :: "pyobj \<Rightarrow> pyval" where
  "pyval_of PNone = VNone"
| "pyval_of (PBool b) = VBool b"
| "pyval_of (PInt i) = VInt i"
| "pyval_of (PFloat x) = VFloat x"
| "pyval_of (PStr s) = VStr (map ord_of s)"
| "pyval_of (PBytes bs) = VBuffer BytesKind 0 (Inr bs)"
| "pyval_of (PByteArray bs) = VBuffer ByteArrayKind 0 (Inr bs)"
| "pyval_of (PMemoryView bs) = VBuffer MemoryViewKind 0 (Inr bs)"
| "pyval_of _ = VOther"

definition narrow :: "nat list \<Rightarrow> string nres" where
  "narrow points =
    (if list_all (\<lambda>p. p < 256) points then Inr (map char_of points)
     else Inl (PyErr (exc OutsideAlphabet ''text'')))"

definition pyobj_of :: "pyval \<Rightarrow> pyobj nres" where
  "pyobj_of v =
    (case v of
       VNone \<Rightarrow> Inr PNone
     | VBool b \<Rightarrow> Inr (PBool b)
     | VInt i \<Rightarrow> Inr (PInt i)
     | VFloat x \<Rightarrow> Inr (PFloat x)
     | VStr points \<Rightarrow> rbind (narrow points) (\<lambda>s. Inr (PStr s))
     | VBuffer _ _ (Inr bs) \<Rightarrow> Inr (PBytes bs)
     | _ \<Rightarrow> Inl (PyErr (exc OutsideAlphabet ''object'')))"

definition table_of :: "nat list list \<times> pyval list list \<Rightarrow> table nres" where
  "table_of t =
    (case t of (columns, rows) \<Rightarrow>
     rbind (rmap narrow columns) (\<lambda>names. rbind (rmap (rmap pyobj_of) rows) (\<lambda>rs. Inr (names, rs))))"

definition write_of :: "exec_value \<Rightarrow> write_result nres" where
  "write_of v =
    (case v of (changes, rowid, replayed, returning) \<Rightarrow>
     rbind (case returning of None \<Rightarrow> Inr None | Some t \<Rightarrow> rbind (table_of t) (\<lambda>t. Inr (Some t))) (\<lambda>returning.
     Inr (changes, rowid, replayed, returning)))"

section \<open>What binding accepts, and how it pins\<close>

text \<open>The value of one parameter, or the error of a value that is refused; the objects it pins.\<close>

definition bound_value :: "pyval \<Rightarrow> c_value nres" where
  "bound_value item = fst (bind_one item params_zero (\<lambda>_. 0))"

fun pins :: "pyval \<Rightarrow> nat list" where
  "pins (VBuffer kind i (Inr bytes)) = [i]"
| "pins _ = []"

lemma fold_release: "fold release_buffer ids ex = (\<lambda>j. ex j - count_list ids j)"
  by (induction ids arbitrary: ex) (auto simp: release_buffer_def fun_eq_iff)

lemma bind_one_exact:
  "bind_one item params ex =
    (case bound_value item of
       Inl e \<Rightarrow> (Inl e, params, ex)
     | Inr v \<Rightarrow> (Inr v, params\<lparr>bp_buffers := bp_buffers params @ pins item\<rparr>, \<lambda>j. ex j + count_list (pins item) j))"
proof (cases item)
  case (VBuffer kind i access)
  then show ?thesis
    by (cases access) (auto simp: bound_value_def bind_one_def get_buffer_def fun_eq_iff)
qed (auto simp: bound_value_def bind_one_def split: sum.splits)

lemma bind_items_exact:
  assumes "length (bp_values params) = i + length items" and "ex = (\<lambda>j. ex0 j + count_list (bp_buffers params) j)"
  shows "bind_items i items params ex =
    (case rmap bound_value items of
       Inl e \<Rightarrow> (Inl e, ex0)
     | Inr vs \<Rightarrow> (Inr (params\<lparr>bp_values := take i (bp_values params) @ vs,
           bp_buffers := bp_buffers params @ concat (map pins items)\<rparr>),
         \<lambda>j. ex j + count_list (concat (map pins items)) j))"
  using assms
proof (induction items arbitrary: i params ex)
  case Nil
  then show ?case by simp
next
  case (Cons item items)
  show ?case
  proof (cases "bound_value item")
    case (Inl e)
    with Cons.prems show ?thesis
      by (simp add: bind_one_exact bound_params_clear_def fold_release fun_eq_iff)
  next
    case (Inr v)
    let ?p = "params\<lparr>bp_buffers := bp_buffers params @ pins item, bp_values := (bp_values params)[i := v]\<rparr>"
    have "take (Suc i) ((bp_values params)[i := v]) = take i (bp_values params) @ [v]"
      using Cons.prems(1) by (simp add: take_Suc_conv_app_nth)
    with Cons.IH [of ?p "i + 1" "\<lambda>j. ex j + count_list (pins item) j"] Cons.prems Inr show ?thesis
      by (cases "rmap bound_value items") (auto simp: bind_one_exact fun_eq_iff)
  qed
qed

lemma bind_params_exact:
  "bind_params (Some items) ex =
    (case rmap bound_value items of
       Inl e \<Rightarrow> (Inl e, ex)
     | Inr vs \<Rightarrow> (Inr \<lparr>bp_values = vs, bp_buffers = concat (map pins items), bp_count = length items\<rparr>,
         \<lambda>j. ex j + count_list (concat (map pins items)) j))"
  using bind_items_exact [of "\<lparr>bp_values = replicate (length items) c_zero, bp_buffers = [], bp_count = length items\<rparr>" 0 items ex ex]
  by (cases "items = []") (auto simp: bind_params_def params_zero_def Let_def split: sum.splits)

lemma pin_counts:
  "(\<lambda>j. ex j + length (filter (\<lambda>item. j \<in> set (pins item)) items)) =
     (\<lambda>j. ex j + count_list (concat (map pins items)) j)"
proof -
  have one: "count_list (pins item) j = (if j \<in> set (pins item) then 1 else 0)" for item j
    by (induction item rule: pins.induct) auto
  have "length (filter (\<lambda>item. j \<in> set (pins item)) items) = count_list (concat (map pins items)) j" for j
    by (induction items) (auto simp: one)
  then show ?thesis by simp
qed

lemma statement_exact:
  "zx_statement kind open_handle sql (Some items) f (ex, n) =
    (if \<not> nul_free sql then (Inl (PyErr (exc PyValueError ''embedded null character'')), ex, n)
     else if \<not> open_handle then (Inl (misuse_error (kind @ '' handle is closed'')), ex, n)
     else case rmap bound_value items of
       Inl e \<Rightarrow> (Inl e, ex, n)
     | Inr vs \<Rightarrow>
         let during = (\<lambda>j. ex j + count_list (concat (map pins items)) j)
         in (fst (f vs (length items) during n), ex, snd (f vs (length items) during n)))"
  by (auto simp: zx_statement_def bind_params_exact bound_params_clear_def fold_release split: sum.splits prod.splits)

text \<open>
  C13. Resource safety of the statement functions of the extension module, on every path: the values
  reach the library in order and complete or not at all, the first value that cannot be bound decides
  the exception, every bytes-like parameter is pinned once for each time it occurs for exactly as long
  as the library call runs, and afterwards every object has as many exported buffers as before,
  whether the binding failed, the call failed or it succeeded.
\<close>

theorem statement_call_exact:
  "zx_statement kind open_handle sql (Some items) f (ex, n) =
    (if \<not> nul_free sql then (Inl (PyErr (exc PyValueError ''embedded null character'')), ex, n)
     else if \<not> open_handle then (Inl (misuse_error (kind @ '' handle is closed'')), ex, n)
     else case rmap bound_value items of
       Inl e \<Rightarrow> (Inl e, ex, n)
     | Inr vs \<Rightarrow>
         let during = (\<lambda>j. ex j + length (filter (\<lambda>item. j \<in> set (pins item)) items))
         in (fst (f vs (length items) during n), ex, snd (f vs (length items) during n)))"
  unfolding pin_counts by (rule statement_exact)

section \<open>Round trip\<close>

text \<open>Which values the library stores, and what it gives back for them.\<close>

definition text_bytes :: "nat list \<Rightarrow> byte_list" where
  "text_bytes points = concat (map utf8_encode_point points)"

definition scalar :: "nat \<Rightarrow> bool" where
  "scalar p \<longleftrightarrow> p < 1114112 \<and> \<not> surrogate p"

fun storable :: "pyval \<Rightarrow> bool" where
  "storable (VInt i) \<longleftrightarrow> - (2 ^ 63) \<le> i \<and> i < 2 ^ 63"
| "storable (VStr points) \<longleftrightarrow> list_all scalar points \<and> int (length (text_bytes points)) \<le> maximum_input_bytes"
| "storable (VBuffer kind i (Inr bytes)) \<longleftrightarrow> int (length bytes) \<le> maximum_input_bytes"
| "storable (VBuffer kind i (Inl e)) \<longleftrightarrow> False"
| "storable VOther \<longleftrightarrow> False"
| "storable _ \<longleftrightarrow> True"

fun stored :: "pyval \<Rightarrow> pyval" where
  "stored (VBool b) = VInt (if b then 1 else 0)"
| "stored (VBuffer kind i access) = VBuffer BytesKind 0 access"
| "stored v = v"

lemma sint_as_long_long: "- (2 ^ 63) \<le> i \<Longrightarrow> i < 2 ^ 63 \<Longrightarrow> sint (word_of_int i :: 64 word) = i"
  unfolding sint_sbintrunc' by (rule signed_take_bit_int_eq_self) simp_all

lemma decode_text: "list_all scalar points \<Longrightarrow> utf8_decode (text_bytes points) = Some points"
  by (induction points) (auto simp: text_bytes_def scalar_def utf8_point_roundtrip)

lemma encode_text: "list_all scalar points \<Longrightarrow> as_utf8 points = Inr (text_bytes points)"
  by (auto simp: as_utf8_def text_bytes_def raise_if_def list_ex_iff list_all_iff scalar_def)

text \<open>One value through the four conversions.\<close>

lemma value_roundtrip:
  assumes "storable item"
  shows "\<exists>c v. bound_value item = Inr c \<and> value_from_c c = Inr v \<and> convert_cell (c_of_nvalue v) = Inr (stored item)"
proof (cases item)
  case (VInt i)
  with assms have "as_long_long i = Inr (word_of_int i)" "sint (word_of_int i :: 64 word) = i"
    by (auto simp: as_long_long_def raise_if_def sint_as_long_long)
  with VInt show ?thesis
    by (simp add: bound_value_def bind_one_def value_from_c_def c_of_nvalue_def convert_cell_def c_zero_def)
next
  case (VStr points)
  with assms have "as_utf8 points = Inr (text_bytes points)" "utf8_decode (text_bytes points) = Some points"
    "int (length (text_bytes points)) \<le> maximum_input_bytes"
    by (simp_all add: encode_text decode_text)
  with VStr show ?thesis
    by (auto simp: bound_value_def bind_one_def value_from_c_def cBytes_def c_of_nvalue_def convert_cell_def c_zero_def)
next
  case (VBuffer kind i access)
  with assms obtain bytes where "access = Inr bytes" "int (length bytes) \<le> maximum_input_bytes" by (cases access) auto
  with VBuffer show ?thesis
    by (auto simp: bound_value_def bind_one_def get_buffer_def value_from_c_def cBytes_def c_of_nvalue_def convert_cell_def c_zero_def)
qed (use assms in \<open>auto simp: bound_value_def bind_one_def value_from_c_def c_of_nvalue_def convert_cell_def c_zero_def\<close>)

lemma values_stored:
  assumes "list_all storable items"
  shows "\<exists>cs vs. rmap bound_value items = Inr cs \<and> rmap value_from_c cs = Inr vs \<and> length cs = length items \<and>
    rmap (\<lambda>v. convert_cell (c_of_nvalue v)) vs = Inr (map stored items)"
  using assms
proof (induction items)
  case (Cons item items)
  with value_roundtrip [of item] show ?case by auto
qed simp

lemma point_no_nul: "0 < p \<Longrightarrow> 0 \<notin> set (utf8_encode_point p)"
  by (simp add: utf8_encode_point_def)

lemma convert_text_name:
  assumes "list_all scalar name" and "0 \<notin> set name"
  shows "convert_name (Some (takeWhile (\<lambda>b. 0 < b) (text_bytes name))) = Inr name"
proof -
  have "0 \<notin> set (text_bytes name)"
    using assms(2) by (induction name) (auto simp: text_bytes_def point_no_nul)
  then have "\<forall>b \<in> set (text_bytes name). 0 < b" by (metis gr0I)
  then have "takeWhile (\<lambda>b. 0 < b) (text_bytes name) = text_bytes name"
    by (simp only: takeWhile_eq_all_conv)
  then show ?thesis by (simp only: convert_name_def decode_text [OF assms(1)] option.case)
qed

lemma convert_one_row:
  assumes "length vs = length names" and "rmap (\<lambda>v. convert_cell (c_of_nvalue v)) vs = Inr row"
    and "\<forall>name \<in> set names. list_all scalar name \<and> 0 \<notin> set name"
  shows "convert_result \<lparr>tr_columns = map text_bytes names, tr_rows = [vs]\<rparr> = Inr (names, [row])"
proof -
  let ?R = "\<lparr>tr_columns = map text_bytes names, tr_rows = [vs]\<rparr>"
  have "rmap (\<lambda>c. convert_name (result_column_name ?R c)) [0 ..< length names] = Inr names"
    using assms(3) by (simp add: rmap_Inr_iff result_column_name_def convert_text_name)
  moreover have "rmap (\<lambda>c. case result_value ?R 0 c of
      None \<Rightarrow> Inl (misuse_error ''result cell index out of bounds'') | Some cell \<Rightarrow> convert_cell cell) [0 ..< length names] = Inr row"
    using assms(1,2) by (simp add: rmap_Inr_iff result_value_def)
  ultimately show ?thesis by (simp add: convert_result_def)
qed

text \<open>
  C12. Values survive the trip through the library: a row of parameters of supported types, with integers
  in the signed 64-bit range, text without lone surrogates and no value beyond the input limit, is
  bound, read by the library as typed values, and a result row of these values comes back as the same
  Python values, where a bool comes back as an int and every bytes-like object as bytes.
\<close>

theorem values_roundtrip:
  assumes "list_all storable items" and "int (length items) \<le> maximum_values" and "length names = length items"
    and "\<forall>name \<in> set names. list_all scalar name \<and> 0 \<notin> set name"
  shows "\<exists>params vs. fst (bind_params (Some items) ex) = Inr params \<and>
    valuesFromC (bp_values params) (bp_count params) = Inr vs \<and>
    convert_result \<lparr>tr_columns = map text_bytes names, tr_rows = [vs]\<rparr> = Inr (names, [map stored items])"
proof -
  obtain cs vs where v: "rmap bound_value items = Inr cs" "rmap value_from_c cs = Inr vs" "length cs = length items"
    "rmap (\<lambda>v. convert_cell (c_of_nvalue v)) vs = Inr (map stored items)"
    using values_stored [OF assms(1)] by blast
  then have "length vs = length names" using assms(3) by (simp add: rmap_Inr_iff)
  moreover have "valuesFromC cs (length items) = Inr vs"
    using v assms(2) by (cases "items = []") (auto simp: valuesFromC_def)
  ultimately show ?thesis
    using v convert_one_row [of vs names "map stored items"] assms(4) by (auto simp: bind_params_exact)
qed

theorem values_roundtrip_witness:
  "\<exists>params vs. fst (bind_params (Some [VBool True, VInt (- (2 ^ 63)), VStr [104, 233, 128512], VBuffer ByteArrayKind 7 (Inr [0, 255])]) (\<lambda>_. 0)) = Inr params \<and>
    valuesFromC (bp_values params) (bp_count params) = Inr vs \<and>
    convert_result \<lparr>tr_columns = map text_bytes [[97], [98], [99], [100]], tr_rows = [vs]\<rparr> =
      Inr ([[97], [98], [99], [100]], [[VInt 1, VInt (- (2 ^ 63)), VStr [104, 233, 128512], VBuffer BytesKind 0 (Inr [0, 255])]])"
  using values_roundtrip [of "[VBool True, VInt (- (2 ^ 63)), VStr [104, 233, 128512], VBuffer ByteArrayKind 7 (Inr [0, 255])]"
      "[[97], [98], [99], [100]]" "\<lambda>_. 0"]
  by (simp add: scalar_def surrogate_def text_bytes_def utf8_encode_point_def maximum_values_def maximum_input_bytes_def)

text \<open>A value that is refused: how, and whether the exception belongs to the DB-API hierarchy.\<close>

lemma refused_values:
  "i < - (2 ^ 63) \<or> 2 ^ 63 \<le> i \<Longrightarrow> bound_value (VInt i) = Inl (PyErr (exc PyOverflowError ''int too big to convert''))"
  "list_ex surrogate points \<Longrightarrow> bound_value (VStr points) = Inl (PyErr (exc PyUnicodeEncodeError ''surrogates not allowed''))"
  "bound_value (VBuffer kind j (Inl e)) = Inl (PyErr e)"
  by (auto simp: bound_value_def bind_one_def as_long_long_def as_utf8_def get_buffer_def raise_if_def)

text \<open>
  The rows of a \<open>RETURNING\<close> clause are converted after the statement ran: text that is not UTF-8 makes
  the call raise although the library has carried out the write.
\<close>

lemma returning_text_raises:
  assumes "f [] 0 ex n = (Inr (result, Some \<lparr>tr_columns = [[116]], tr_rows = [[TextValue [255]]]\<rparr>), n')" and "nul_free sql"
  shows "zx_exec True sql (Some []) f (ex, n) = (Inl (raise_zx_error 1 9 ''TEXT result is not valid UTF-8''), ex, n')"
  using assms
  by (simp add: zx_exec_def statement_exact build_exec_def convert_result_def convert_name_def result_column_name_def
      result_value_def c_of_nvalue_def convert_cell_def c_zero_def)

text \<open>
  A search releases its embedding on every path, holds it while the library runs, and takes \<open>k\<close> modulo
  \<open>2 ^ 32\<close> without a check.
\<close>

lemma search_balanced: "fst (snd (zx_search_impl kind h val q f (ex, n))) = ex"
proof -
  have get: "embedding_argument v ex = ((r, view), ex') \<Longrightarrow> fold release_buffer view ex' = ex" for v r view ex'
    by (auto simp: embedding_argument_def get_buffer_def release_buffer_def split: pyval.splits sum.splits)
  have err: "embedding_argument v ex = ((Inl e, view), ex') \<Longrightarrow> ex' = ex" for v e view ex'
    by (auto simp: embedding_argument_def get_buffer_def split: pyval.splits sum.splits)
  show ?thesis
    by (auto simp: zx_search_impl_def split: sum.splits prod.splits dest!: get err)
qed

lemma search_k_wraps:
  assumes "s_k (n_request q) = PInt k" and "k' mod 2 ^ 32 = k mod 2 ^ 32"
  shows "zx_search_impl kind h pyval_of (q\<lparr>n_request := (n_request q)\<lparr>s_k := PInt k'\<rparr>\<rparr>) f s = zx_search_impl kind h pyval_of q f s"
proof -
  have "(word_of_int k' :: 32 word) = word_of_int k" using assms(2) by (simp add: word_of_int_eq_iff take_bit_eq_mod)
  with assms(1) have "search_scalars kind h pyval_of (q\<lparr>n_request := (n_request q)\<lparr>s_k := PInt k'\<rparr>\<rparr>) = search_scalars kind h pyval_of q"
    by (simp add: search_scalars_def uint_argument_def Let_def)
  then show ?thesis by (cases s) (simp add: zx_search_impl_def cong: sum.case_cong)
qed

end
