(* ===== verification/Zx_Node.thy ===== *)
theory Zx_Node
  imports Zx_Values
begin

text \<open>
  The native side of Gate C: the live-transaction functions of \<open>node.zig\<close> (\<open>beginLive\<close>, \<open>liveExec\<close>,
  \<open>liveSavepointControl\<close>, \<open>commitLive\<close>, \<open>rollbackLive\<close>) and \<open>execIdempotent\<close>, each guard and each assignment of
  \<open>live_transaction\<close> in the order of the source, and the interpretation of \<open>live_native\<close> on them.

  The rest of a node, that is SQLite, the replicated log and the journal, is a state \<open>'d\<close> with the
  operations of the record \<open>core\<close>, which is a parameter. \<open>co_error\<close> is the conversion of a node error
  into the error object of the extension module; the conversion of parameters and rows is that of
  \<open>Zx_Values\<close>. The functions that do not concern live transactions come from a second parameter, a
  \<open>native\<close> record over \<open>'d\<close>: a write among them is refused while a live transaction is open.
\<close>

datatype node_error =
    ClusterTransactionUnsupported | RoleCannotWrite | TransactionOpen | StorageFailed | LogSealed
  | WriteInFlight | NoTransaction | UnknownSession | SequenceGap | ResultExpired | Panic | CoreError nat

type_synonym 'a zres = "(node_error, 'a) result"

text \<open>\<open>SessionCheck\<close>: run the sequence, or answer with the recorded number of changes.\<close>

datatype session_check = ExecuteSession | ReplaySession int

record 'd core =
  co_single :: "'d \<Rightarrow> bool"
  co_serves_writes :: "'d \<Rightarrow> bool"
  co_fatal :: "'d \<Rightarrow> bool"
  co_needs_resync :: "'d \<Rightarrow> bool"
  co_membership_pending :: "'d \<Rightarrow> bool"
  co_log_stopped :: "'d \<Rightarrow> bool"
  co_capture_pending :: "'d \<Rightarrow> bool"
  co_in_transaction :: "'d \<Rightarrow> bool"
  co_total_changes :: "'d \<Rightarrow> int"
  co_last_rowid :: "'d \<Rightarrow> int"
  co_resync :: "'d \<Rightarrow> unit zres \<times> 'd"
  co_ensure_writer :: "'d \<Rightarrow> unit zres \<times> 'd"
  co_mark_resync :: "'d \<Rightarrow> 'd"
  co_exec :: "string \<Rightarrow> 'd \<Rightarrow> unit zres \<times> 'd"
  co_run :: "string \<Rightarrow> nvalue list \<Rightarrow> 'd \<Rightarrow> typed_result option zres \<times> 'd"
  co_verify :: "'d \<Rightarrow> unit zres \<times> 'd"
  co_seal :: "int \<Rightarrow> 'd \<Rightarrow> int zres \<times> 'd"
  co_check_session :: "nat \<Rightarrow> nat \<Rightarrow> 'd \<Rightarrow> session_check zres \<times> 'd"
  co_session_write :: "nat \<Rightarrow> nat \<Rightarrow> string \<Rightarrow> 'd \<Rightarrow> int zres \<times> 'd"
  co_error :: "node_error \<Rightarrow> zx_error"

record 'd node =
  nd_live_transaction :: bool
  nd_changes_base :: int
  nd_core :: 'd

definition on_core :: "('d \<Rightarrow> 'a zres \<times> 'd) \<Rightarrow> 'd node \<Rightarrow> 'a zres \<times> 'd node" where
  "on_core f nd = (case f (nd_core nd) of (r, d) \<Rightarrow> (r, nd\<lparr>nd_core := d\<rparr>))"

text \<open>Zig's \<open>try\<close>: the rest runs on the state the call left, unless it failed.\<close>

definition and_then :: "'a zres \<times> 's \<Rightarrow> ('a \<Rightarrow> 's \<Rightarrow> 'b zres \<times> 's) \<Rightarrow> 'b zres \<times> 's" where
  "and_then p k = (case p of (Inl e, s) \<Rightarrow> (Inl e, s) | (Inr a, s) \<Rightarrow> k a s)"

definition beginLive :: "'d core \<Rightarrow> 'd node \<Rightarrow> unit zres \<times> 'd node" where
  "beginLive C nd =
    (if \<not> co_single C (nd_core nd) then (Inl ClusterTransactionUnsupported, nd)
     else if \<not> co_serves_writes C (nd_core nd) then (Inl RoleCannotWrite, nd)
     else if nd_live_transaction nd then (Inl TransactionOpen, nd)
     else if co_fatal C (nd_core nd) then (Inl StorageFailed, nd)
     else and_then (if co_needs_resync C (nd_core nd) then on_core (co_resync C) nd else (Inr (), nd)) (\<lambda>_ nd.
       if co_membership_pending C (nd_core nd) \<or> co_log_stopped C (nd_core nd) then (Inl LogSealed, nd)
       else and_then (on_core (co_ensure_writer C) nd) (\<lambda>_ nd.
         if co_capture_pending C (nd_core nd) then (Inl WriteInFlight, nd)
         else and_then (on_core (co_exec C ''begin immediate'') nd) (\<lambda>_ nd.
           (Inr (), nd\<lparr>nd_changes_base := co_total_changes C (nd_core nd), nd_live_transaction := True\<rparr>)))))"

definition liveExec ::
  "'d core \<Rightarrow> string \<Rightarrow> nvalue list \<Rightarrow> 'd node \<Rightarrow> (int \<times> int option \<times> typed_result option) zres \<times> 'd node" where
  "liveExec C sql vs nd =
    (if \<not> nd_live_transaction nd then (Inl NoTransaction, nd)
     else if co_fatal C (nd_core nd) then (Inl StorageFailed, nd)
     else let changes_before = co_total_changes C (nd_core nd);
              rowid_before = co_last_rowid C (nd_core nd) in
       (case on_core (co_run C sql vs) nd of
          (Inl e, nd') \<Rightarrow>
            (Inl e, if co_in_transaction C (nd_core nd') then nd' else nd'\<lparr>nd_live_transaction := False\<rparr>)
        | (Inr returning, nd') \<Rightarrow>
            (let rowid_after = co_last_rowid C (nd_core nd') in
             (Inr (co_total_changes C (nd_core nd') - changes_before,
                   if rowid_after \<noteq> rowid_before then Some rowid_after else None, returning), nd'))))"

definition liveSavepointControl :: "'d core \<Rightarrow> string \<Rightarrow> 'd node \<Rightarrow> unit zres \<times> 'd node" where
  "liveSavepointControl C sql nd =
    (if \<not> nd_live_transaction nd then (Inl NoTransaction, nd)
     else if co_fatal C (nd_core nd) then (Inl StorageFailed, nd)
     else on_core (co_exec C sql) nd)"

definition commitLive :: "'d core \<Rightarrow> 'd node \<Rightarrow> int zres \<times> 'd node" where
  "commitLive C nd =
    (if \<not> nd_live_transaction nd then (Inl NoTransaction, nd)
     else if co_fatal C (nd_core nd) then (Inl StorageFailed, nd)
     else if co_log_stopped C (nd_core nd) then (Inl LogSealed, nd)
     else let changes = co_total_changes C (nd_core nd) - nd_changes_base nd;
              nd = nd\<lparr>nd_live_transaction := False\<rparr> in
       (case and_then (on_core (co_verify C) nd) (\<lambda>_. on_core (co_seal C changes)) of
          (Inl e, nd') \<Rightarrow> (Inl e, snd (on_core (co_exec C ''rollback'') nd'))
        | (Inr c, nd') \<Rightarrow> (Inr c, nd')))"

definition rollbackLive :: "'d core \<Rightarrow> 'd node \<Rightarrow> unit zres \<times> 'd node" where
  "rollbackLive C nd =
    (if \<not> nd_live_transaction nd then (Inl NoTransaction, nd)
     else (case on_core (co_exec C ''rollback'') (nd\<lparr>nd_live_transaction := False\<rparr>) of
         (Inl e, nd') \<Rightarrow> (Inl e, nd'\<lparr>nd_core := co_mark_resync C (nd_core nd')\<rparr>)
       | (Inr u, nd') \<Rightarrow> (Inr u, nd')))"

text \<open>
  \<open>execIdempotent\<close>: the session table decides first, so a recorded sequence is answered even while a
  live transaction is open.
\<close>

definition execIdempotent :: "'d core \<Rightarrow> nat \<Rightarrow> nat \<Rightarrow> string \<Rightarrow> 'd node \<Rightarrow> (int \<times> bool) zres \<times> 'd node" where
  "execIdempotent C session_id sequence sql nd =
    and_then (on_core (co_check_session C session_id sequence) nd) (\<lambda>check nd.
      case check of
        ReplaySession changes \<Rightarrow> (Inr (changes, True), nd)
      | ExecuteSession \<Rightarrow>
          if nd_live_transaction nd then (Inl TransactionOpen, nd)
          else and_then (on_core (co_session_write C session_id sequence sql) nd)
            (\<lambda>changes nd. (Inr (changes, False), nd)))"

text \<open>The savepoint names are formatted from the index.\<close>

fun digits_of :: "nat \<Rightarrow> string" where
  "digits_of n = (if n < 10 then [char_of (n + 48)] else digits_of (n div 10) @ [char_of (n mod 10 + 48)])"

declare digits_of.simps [simp del]

definition savepoint_sql :: "string \<Rightarrow> int \<Rightarrow> string" where
  "savepoint_sql verb index = verb @ '' zx_sp_'' @ digits_of (nat index)"

section \<open>The node behind the extension module\<close>

definition to_native :: "'d core \<Rightarrow> ('d node \<Rightarrow> 'a zres \<times> 'd node) \<Rightarrow> 'd node \<Rightarrow> 'a nres \<times> 'd node" where
  "to_native C f nd =
    (case f nd of (Inl e, nd') \<Rightarrow> (Inl (ZxErr (co_error C e)), nd') | (Inr a, nd') \<Rightarrow> (Inr a, nd'))"

definition lift_core :: "('d \<Rightarrow> 'a nres \<times> 'd) \<Rightarrow> 'd node \<Rightarrow> 'a nres \<times> 'd node" where
  "lift_core f nd = (case f (nd_core nd) of (r, d) \<Rightarrow> (r, nd\<lparr>nd_core := d\<rparr>))"

definition lift_write :: "'d core \<Rightarrow> ('d \<Rightarrow> 'a nres \<times> 'd) \<Rightarrow> 'd node \<Rightarrow> 'a nres \<times> 'd node" where
  "lift_write C f nd =
    (if nd_live_transaction nd then (Inl (ZxErr (co_error C TransactionOpen)), nd) else lift_core f nd)"

text \<open>The index of a savepoint is an \<open>unsigned int\<close> argument of the extension module.\<close>

definition savepoint_native :: "'d core \<Rightarrow> string \<Rightarrow> int \<Rightarrow> 'd node \<Rightarrow> unit nres \<times> 'd node" where
  "savepoint_native C verb index =
     to_native C (liveSavepointControl C (savepoint_sql verb (index mod 2 ^ 32)))"

text \<open>Session and sequence are \<open>unsigned long long\<close> arguments, taken modulo \<open>2 ^ 64\<close> without a check.\<close>

definition zx_exec_idempotent :: "'d core \<Rightarrow> int \<Rightarrow> int \<Rightarrow> string \<Rightarrow> 'd node \<Rightarrow> (int \<times> bool) nres \<times> 'd node" where
  "zx_exec_idempotent C session sequence sql nd =
    (if \<not> nul_free sql then (Inl (PyErr (exc PyValueError ''embedded null character'')), nd)
     else to_native C (execIdempotent C (nat (session mod 2 ^ 64)) (nat (sequence mod 2 ^ 64)) sql) nd)"

text \<open>
  \<open>zaxonlite_live_exec\<close> of the C interface, and \<open>zx_live_exec\<close> on the driver's own values. No buffer is
  exported when the call starts, and by \<open>statement_exact\<close> none when it ends.
\<close>

definition zaxonlite_live_exec ::
  "'d core \<Rightarrow> string \<Rightarrow> c_value list \<Rightarrow> nat \<Rightarrow> 'd node \<Rightarrow> (exec_result \<times> typed_result option) nres \<times> 'd node" where
  "zaxonlite_live_exec C sql raw_values value_count nd =
    (case valuesFromC raw_values value_count of
       Inl name \<Rightarrow> (Inl (raise_native_error 2 4 (Some name)), nd)
     | Inr values \<Rightarrow>
         (case to_native C (liveExec C sql values) nd of
            (Inl e, nd') \<Rightarrow> (Inl e, nd')
          | (Inr (changes, rowid, returning), nd') \<Rightarrow>
              (Inr (\<lparr>er_changes = changes, er_last_insert_rowid = case_option 0 id rowid,
                     er_has_last_insert_rowid = (rowid \<noteq> None), er_replayed = False\<rparr>, returning), nd')))"

text \<open>The values the node receives for the parameters of a statement.\<close>

definition node_values :: "pyobj list \<Rightarrow> nvalue list" where
  "node_values ps =
    (case rmap bound_value (map pyval_of ps) of
       Inl _ \<Rightarrow> []
     | Inr cs \<Rightarrow> (case valuesFromC cs (length ps) of Inl _ \<Rightarrow> [] | Inr vs \<Rightarrow> vs))"

definition live_exec_native :: "'d core \<Rightarrow> string \<Rightarrow> pyobj list \<Rightarrow> 'd node \<Rightarrow> write_result nres \<times> 'd node" where
  "live_exec_native C sql ps nd =
    (case zx_live_exec True sql (Some (map pyval_of ps)) (\<lambda>values count _. zaxonlite_live_exec C sql values count) (\<lambda>_. 0, nd) of
       (r, _, nd') \<Rightarrow> (rbind r write_of, nd'))"

definition node_native :: "'d core \<Rightarrow> 'd native \<Rightarrow> 'd node native" where
  "node_native C B =
    \<lparr>nv_open = (\<lambda>path nd. case lift_core (nv_open B path) nd of
        (r, nd') \<Rightarrow> (r, nd'\<lparr>nd_live_transaction := False, nd_changes_base := 0\<rparr>)),
     nv_close = (\<lambda>nd. case lift_core (nv_close B) nd of (r, nd') \<Rightarrow> (r, nd'\<lparr>nd_live_transaction := False\<rparr>)),
     nv_describe = (\<lambda>sql. lift_core (nv_describe B sql)),
     nv_parameter_name = (\<lambda>sql i. lift_core (nv_parameter_name B sql i)),
     nv_query = (\<lambda>sql ps. lift_core (nv_query B sql ps)),
     nv_exec = (\<lambda>sql ps. lift_write C (nv_exec B sql ps)),
     nv_exec_script = (\<lambda>sql. lift_write C (nv_exec_script B sql)),
     nv_begin = lift_core (nv_begin B),
     nv_tx_exec = (\<lambda>tx sql ps. lift_core (nv_tx_exec B tx sql ps)),
     nv_tx_commit = (\<lambda>tx. lift_write C (nv_tx_commit B tx)),
     nv_tx_close = (\<lambda>tx. lift_core (nv_tx_close B tx)),
     nv_live_begin = to_native C (beginLive C),
     nv_live_exec = live_exec_native C,
     nv_live_commit = to_native C (commitLive C),
     nv_live_rollback = to_native C (rollbackLive C),
     nv_live_savepoint = savepoint_native C ''savepoint'',
     nv_live_release_savepoint = savepoint_native C ''release'',
     nv_live_rollback_to_savepoint = savepoint_native C ''rollback to'',
     nv_snapshot = lift_write C (nv_snapshot B),
     nv_backup = (\<lambda>path. lift_core (nv_backup B path)),
     nv_integrity_check = lift_core (nv_integrity_check B),
     nv_session_open = lift_write C (nv_session_open B),
     nv_exec_idempotent = zx_exec_idempotent C,
     nv_expire_sessions = (\<lambda>retain. lift_write C (nv_expire_sessions B retain)),
     nv_search = (\<lambda>q. lift_core (nv_search B q))\<rparr>"

lemma on_core_live [simp]: "nd_live_transaction (snd (on_core f nd)) = nd_live_transaction nd"
  by (simp add: on_core_def split: prod.splits)

lemma on_core_liveD: "on_core f nd = (r, nd') \<Longrightarrow> nd_live_transaction nd' = nd_live_transaction nd"
  using on_core_live [of f nd] by simp

lemma lift_live [simp]:
  "nd_live_transaction (snd (lift_core f nd)) = nd_live_transaction nd"
  "nd_live_transaction (snd (lift_write C f nd)) = nd_live_transaction nd"
  by (auto simp: lift_core_def lift_write_def split: prod.splits)

lemma to_native_live [simp]: "nd_live_transaction (snd (to_native C f nd)) = nd_live_transaction (snd (f nd))"
  by (simp add: to_native_def split: prod.splits sum.splits)

lemma to_native_Inr: "to_native C f nd = (Inr a, nd') \<longleftrightarrow> f nd = (Inr a, nd')"
  by (auto simp: to_native_def split: prod.splits sum.splits)

lemma to_native_Inl: "to_native C f nd = (Inl e, nd') \<Longrightarrow> \<exists>z. f nd = (Inl z, nd')"
  by (auto simp: to_native_def split: prod.splits sum.splits)

lemma and_then_Inr: "and_then p k = (Inr b, s') \<longleftrightarrow> (\<exists>a s. p = (Inr a, s) \<and> k a s = (Inr b, s'))"
  by (auto simp: and_then_def split: prod.splits sum.splits)

lemma and_then_Inl:
  "and_then p k = (Inl e, s') \<longleftrightarrow> p = (Inl e, s') \<or> (\<exists>a s. p = (Inr a, s) \<and> k a s = (Inl e, s'))"
  by (auto simp: and_then_def split: prod.splits sum.splits)

lemma and_then_live:
  assumes "nd_live_transaction (snd p) = b" and "\<And>a nd. nd_live_transaction nd = b \<Longrightarrow> nd_live_transaction (snd (k a nd)) = b"
  shows "nd_live_transaction (snd (and_then p k)) = b"
  using assms by (auto simp: and_then_def split: prod.splits sum.splits)

lemma and_then_pure [simp]: "snd (and_then p (\<lambda>a. Pair (Inr (f a)))) = snd p"
  by (simp add: and_then_def split: prod.splits sum.splits)

lemma exec_idempotent_live [simp]:
  "nd_live_transaction (snd (zx_exec_idempotent C session sequence sql nd)) = nd_live_transaction nd"
  by (auto simp: zx_exec_idempotent_def execIdempotent_def split: session_check.splits intro!: and_then_live)

lemma beginLive_ok: "beginLive C nd = (Inr u, nd') \<Longrightarrow> nd_live_transaction nd' \<and> \<not> nd_live_transaction nd"
  by (auto simp: beginLive_def and_then_Inr split: if_splits)

lemma beginLive_fail: "beginLive C nd = (Inl e, nd') \<Longrightarrow> nd_live_transaction nd' = nd_live_transaction nd"
  by (auto simp: beginLive_def and_then_Inl split: if_splits dest!: on_core_liveD)

lemma liveExec_ok: "liveExec C sql vs nd = (Inr r, nd') \<Longrightarrow> nd_live_transaction nd \<and> nd_live_transaction nd'"
  by (auto simp: liveExec_def Let_def split: if_splits prod.splits sum.splits dest!: on_core_liveD)

lemma liveExec_fail: "liveExec C sql vs nd = (Inl e, nd') \<Longrightarrow> nd_live_transaction nd' \<Longrightarrow> nd_live_transaction nd"
  by (auto simp: liveExec_def Let_def split: if_splits prod.splits sum.splits dest!: on_core_liveD)

lemma write_of_build:
  "isl (rbind (build_exec (er, returning)) write_of) \<longleftrightarrow>
     (\<exists>t. returning = Some t \<and> isl (rbind (convert_result t) table_of))"
proof (cases returning)
  case (Some t)
  then show ?thesis
    by (cases "convert_result t"; cases "table_of (projr (convert_result t))") (auto simp: build_exec_def write_of_def)
qed (simp add: build_exec_def write_of_def)

text \<open>
  A statement inside the live transaction either never reaches the node or is its \<open>liveExec\<close>; when the
  node has carried it out, only rows that cannot be converted make it raise.
\<close>

lemma live_exec_native_cases:
  assumes "live_exec_native C sql ps nd = (r, nd')"
  obtains "nd' = nd" "isl r"
  | e where "liveExec C sql (node_values ps) nd = (Inl e, nd')" "isl r"
  | changes rowid returning where "liveExec C sql (node_values ps) nd = (Inr (changes, rowid, returning), nd')"
    "isl r \<longleftrightarrow> (\<exists>t. returning = Some t \<and> isl (rbind (convert_result t) table_of))"
proof (cases "rmap bound_value (map pyval_of ps)")
  case (Inl e)
  with assms that(1) show ?thesis
    by (auto simp: live_exec_native_def zx_live_exec_def statement_exact split: if_splits)
next
  case (Inr cs)
  let ?n = "length ps"
  show ?thesis
  proof (cases "nul_free sql \<and> (\<exists>vs. valuesFromC cs ?n = Inr vs)")
    case True
    then have sql: "nul_free sql" "valuesFromC cs ?n = Inr (node_values ps)" by (auto simp: node_values_def Inr)
    show ?thesis
    proof (cases "liveExec C sql (node_values ps) nd")
      case (Pair q nd1)
      show ?thesis
      proof (cases q)
        case (Inl e)
        with assms \<open>rmap bound_value (map pyval_of ps) = Inr cs\<close> sql Pair that(2) [of e] show ?thesis
          by (auto simp: live_exec_native_def zx_live_exec_def statement_exact zaxonlite_live_exec_def to_native_def Let_def)
      next
        case (Inr v)
        obtain changes rowid returning where v: "v = (changes, rowid, returning)" by (cases v)
        with Inr assms \<open>rmap bound_value (map pyval_of ps) = Inr cs\<close> sql Pair
        have "nd1 = nd'" "isl r \<longleftrightarrow> (\<exists>t. returning = Some t \<and> isl (rbind (convert_result t) table_of))"
          by (auto simp: live_exec_native_def zx_live_exec_def statement_exact zaxonlite_live_exec_def to_native_def
              Let_def write_of_build)
        with that(3) Pair Inr v show ?thesis by blast
      qed
    qed
  next
    case False
    with assms Inr that(1) show ?thesis
      by (cases "valuesFromC cs ?n")
        (auto simp: live_exec_native_def zx_live_exec_def statement_exact zaxonlite_live_exec_def Let_def split: if_splits)
  qed
qed

lemma live_exec_native_ok:
  assumes "live_exec_native C sql ps nd = (Inr r, nd')"
  shows "nd_live_transaction nd \<and> nd_live_transaction nd'"
  using assms by (rule live_exec_native_cases) (auto dest: liveExec_ok)

lemma live_exec_native_fail:
  assumes "live_exec_native C sql ps nd = (Inl e, nd')" and "nd_live_transaction nd'"
  shows "nd_live_transaction nd"
  using assms(1) by (rule live_exec_native_cases) (use assms(2) in \<open>auto dest: liveExec_ok liveExec_fail\<close>)

lemma commitLive_ok: "commitLive C nd = (Inr c, nd') \<Longrightarrow> nd_live_transaction nd \<and> \<not> nd_live_transaction nd'"
  by (auto simp: commitLive_def Let_def and_then_Inr split: if_splits prod.splits sum.splits dest!: on_core_liveD)

lemma commitLive_fail: "commitLive C nd = (Inl e, nd') \<Longrightarrow> nd_live_transaction nd' \<Longrightarrow> nd_live_transaction nd"
  by (auto simp: commitLive_def Let_def split: if_splits prod.splits sum.splits dest!: on_core_liveD)

lemma rollbackLive_ends: "\<not> nd_live_transaction (snd (rollbackLive C nd))"
  by (auto simp: rollbackLive_def split: prod.splits sum.splits dest!: on_core_liveD)

lemma rollbackLive_ok: "rollbackLive C nd = (Inr u, nd') \<Longrightarrow> nd_live_transaction nd"
  by (simp add: rollbackLive_def split: if_splits)

lemma savepoint_live [simp]:
  "nd_live_transaction (snd (savepoint_native C verb index nd)) = nd_live_transaction nd"
  by (simp add: savepoint_native_def liveSavepointControl_def)

interpretation node: live_native "node_native C B" nd_live_transaction for C B
proof (unfold_locales, goal_cases)
  case (5 sql ps n e n')
  then show ?case by (simp add: node_native_def live_exec_native_fail)
qed (auto simp: node_native_def to_native_Inr rollbackLive_ends split: prod.splits
    dest: to_native_Inl beginLive_ok beginLive_fail live_exec_native_ok commitLive_ok commitLive_fail rollbackLive_ok)

end
