(* ===== verification/Zx_Lane.thy ===== *)
theory Zx_Lane
  imports Zx_Errors
begin

text \<open>
  The ordered admission lane of one connection, \<open>_WriteLane\<close> of \<open>dbapi.py\<close>.

  The lane proper is the record \<open>lane\<close> (\<open>_tickets\<close> and \<open>_active\<close>). Each critical section under the
  condition variable is one function: \<open>lane_poll\<close> is one evaluation of the waiting loop's test and
  body, \<open>lane_release\<close> the \<open>finally\<close> block. The concurrent system \<open>lane_sys\<close> adds what the threads
  carry: for every ticket its local variables and whether it sleeps in \<open>Condition.wait\<close>; the
  step relation \<open>lane_step\<close> interleaves the critical sections of any number of threads with the
  passing of time. Three ghost fields record the order of arrivals, of admissions and the tickets
  whose wait expired.
\<close>

section \<open>The lane\<close>

record lane =
  tickets :: "nat list"
  active :: bool

definition lane_init :: lane where
  "lane_init = \<lparr>tickets = [], active = False\<rparr>"

definition read_wait_cap :: rat where
  "read_wait_cap = 3600"

definition lane_bound :: "bool \<Rightarrow> rat \<Rightarrow> rat" where
  "lane_bound write timeout = (if write then timeout else read_wait_cap)"

text \<open>The two errors of an expired wait.\<close>

definition lane_error :: "bool \<Rightarrow> pyexc" where
  "lane_error write =
    (if write then
       \<lparr>exc_type = OperationalError,
        exc_msg = ''-- WRITE QUEUE TIMEOUT --'' @ nl @ nl
          @ ''The write did not enter the connection lane within '',
        exc_category = Some ''write_queue_timeout''\<rparr>
     else
       \<lparr>exc_type = OperationalError,
        exc_msg = diagnostic ''connection lane stalled''
          ''A read waited beyond the internal connection cap.''
          ''Close the connection and inspect blocked native calls.'',
        exc_category = Some ''busy''\<rparr>)"

datatype poll = Admitted | Sleep rat | Expired

definition lane_poll :: "lane \<Rightarrow> nat \<Rightarrow> rat \<Rightarrow> rat \<Rightarrow> poll \<times> lane" where
  "lane_poll l ticket deadline now =
    (if active l \<or> hd (tickets l) \<noteq> ticket then
       let remaining = deadline - now in
       if remaining \<le> 0 then (Expired, l\<lparr>tickets := remove1 ticket (tickets l)\<rparr>)
       else (Sleep remaining, l)
     else (Admitted, l\<lparr>tickets := tl (tickets l), active := True\<rparr>))"

definition lane_append :: "lane \<Rightarrow> nat \<Rightarrow> lane" where
  "lane_append l ticket = l\<lparr>tickets := tickets l @ [ticket]\<rparr>"

definition lane_release :: "lane \<Rightarrow> lane" where
  "lane_release l = l\<lparr>active := False\<rparr>"

section \<open>Threads using the lane\<close>

text \<open>
  \<open>Called w dl\<close>: \<open>enter\<close> has computed its deadline but not yet taken the condition.
  \<open>Waiting w dl awake\<close>: queued; asleep in \<open>Condition.wait\<close> unless \<open>awake\<close>.
  \<open>Holding\<close>: inside the \<open>with\<close> body. \<open>TimedOut w dl\<close>: \<open>enter\<close> raised.
\<close>

datatype lphase =
    Unborn
  | Called bool rat
  | Waiting bool rat bool
  | Holding
  | Finished
  | TimedOut bool rat

record lane_sys =
  lane_of :: lane
  phase :: "nat \<Rightarrow> lphase"
  clock :: rat
  arrivals :: "nat list"
  admitted :: "nat list"
  expired :: "nat list"

definition sys_init :: lane_sys where
  "sys_init = \<lparr>lane_of = lane_init, phase = (\<lambda>_. Unborn), clock = 0,
     arrivals = [], admitted = [], expired = []\<rparr>"

text \<open>\<open>Condition.notify_all\<close> wakes every sleeping waiter.\<close>

definition wake :: "lphase \<Rightarrow> lphase" where
  "wake p = (case p of Waiting w dl _ \<Rightarrow> Waiting w dl True | _ \<Rightarrow> p)"

definition notify_all :: "(nat \<Rightarrow> lphase) \<Rightarrow> nat \<Rightarrow> lphase" where
  "notify_all ph = (\<lambda>t. wake (ph t))"

text \<open>One pass of ticket \<open>t\<close> through the waiting loop.\<close>

definition sys_poll :: "lane_sys \<Rightarrow> nat \<Rightarrow> bool \<Rightarrow> rat \<Rightarrow> lane_sys" where
  "sys_poll s t w dl =
    (case lane_poll (lane_of s) t dl (clock s) of
       (Admitted, l) \<Rightarrow>
         s\<lparr>lane_of := l, phase := (phase s)(t := Holding), admitted := admitted s @ [t]\<rparr>
     | (Sleep _, l) \<Rightarrow> s\<lparr>lane_of := l, phase := (phase s)(t := Waiting w dl False)\<rparr>
     | (Expired, l) \<Rightarrow>
         s\<lparr>lane_of := l, phase := (notify_all (phase s))(t := TimedOut w dl),
           expired := expired s @ [t]\<rparr>)"

definition sys_arrive :: "lane_sys \<Rightarrow> nat \<Rightarrow> bool \<Rightarrow> rat \<Rightarrow> lane_sys" where
  "sys_arrive s t w dl =
    sys_poll (s\<lparr>lane_of := lane_append (lane_of s) t, phase := (phase s)(t := Waiting w dl True),
                arrivals := arrivals s @ [t]\<rparr>) t w dl"

definition sys_release :: "lane_sys \<Rightarrow> nat \<Rightarrow> lane_sys" where
  "sys_release s t =
    s\<lparr>lane_of := lane_release (lane_of s), phase := (notify_all (phase s))(t := Finished)\<rparr>"

inductive lane_step :: "lane_sys \<Rightarrow> lane_sys \<Rightarrow> bool" where
  tick: "clock s \<le> now \<Longrightarrow> lane_step s (s\<lparr>clock := now\<rparr>)"
| call: "phase s t = Unborn \<Longrightarrow> dl = clock s + lane_bound w timeout \<Longrightarrow>
    lane_step s (s\<lparr>phase := (phase s)(t := Called w dl)\<rparr>)"
| arrive: "phase s t = Called w dl \<Longrightarrow> lane_step s (sys_arrive s t w dl)"
| timeout: "phase s t = Waiting w dl False \<Longrightarrow> dl \<le> clock s \<Longrightarrow>
    lane_step s (s\<lparr>phase := (phase s)(t := Waiting w dl True)\<rparr>)"
| poll: "phase s t = Waiting w dl True \<Longrightarrow> lane_step s (sys_poll s t w dl)"
| release: "phase s t = Holding \<Longrightarrow> lane_step s (sys_release s t)"

inductive_cases lane_stepE: "lane_step s s'"

section \<open>The invariant\<close>

abbreviation is_waiting :: "lphase \<Rightarrow> bool" where
  "is_waiting p \<equiv> \<exists>w dl a. p = Waiting w dl a"

definition queue_inv :: "lane_sys \<Rightarrow> bool" where
  "queue_inv s \<longleftrightarrow>
     distinct (arrivals s) \<and>
     subseq (admitted s @ tickets (lane_of s)) (arrivals s) \<and>
     (\<forall>t. t \<in> set (arrivals s) \<longleftrightarrow> phase s t \<noteq> Unborn \<and> (\<nexists>w dl. phase s t = Called w dl)) \<and>
     (\<forall>t. t \<in> set (tickets (lane_of s)) \<longleftrightarrow> is_waiting (phase s t)) \<and>
     (\<forall>t. t \<in> set (admitted s) \<longleftrightarrow> phase s t \<in> {Holding, Finished})"

definition hold_inv :: "lane_sys \<Rightarrow> bool" where
  "hold_inv s \<longleftrightarrow>
     (active (lane_of s) \<longleftrightarrow> (\<exists>t. phase s t = Holding)) \<and>
     (\<forall>t u. phase s t = Holding \<longrightarrow> phase s u = Holding \<longrightarrow> t = u)"

text \<open>No lost wake-up: when the lane is free, the head of the queue is awake.\<close>

definition wake_inv :: "lane_sys \<Rightarrow> bool" where
  "wake_inv s \<longleftrightarrow>
     (\<not> active (lane_of s) \<longrightarrow> tickets (lane_of s) \<noteq> [] \<longrightarrow>
        (\<exists>w dl. phase s (hd (tickets (lane_of s))) = Waiting w dl True))"

definition expiry_inv :: "lane_sys \<Rightarrow> bool" where
  "expiry_inv s \<longleftrightarrow>
     (\<forall>t. t \<in> set (expired s) \<longleftrightarrow> (\<exists>w dl. phase s t = TimedOut w dl)) \<and>
     (\<forall>t w dl. phase s t = TimedOut w dl \<longrightarrow> dl \<le> clock s)"

definition lane_inv :: "lane_sys \<Rightarrow> bool" where
  "lane_inv s \<longleftrightarrow> queue_inv s \<and> hold_inv s \<and> wake_inv s \<and> expiry_inv s"

lemmas lane_inv_defs = lane_inv_def queue_inv_def hold_inv_def wake_inv_def expiry_inv_def

lemma wake_simps [simp]:
  "wake p = Unborn \<longleftrightarrow> p = Unborn"
  "wake p = Called w dl \<longleftrightarrow> p = Called w dl"
  "wake p = Holding \<longleftrightarrow> p = Holding"
  "wake p = Finished \<longleftrightarrow> p = Finished"
  "wake p = TimedOut w dl \<longleftrightarrow> p = TimedOut w dl"
  "wake p = Waiting w dl a \<longleftrightarrow> a \<and> (\<exists>b. p = Waiting w dl b)"
  by (cases p; auto simp: wake_def)+

lemma subseq_distinct: "subseq xs ys \<Longrightarrow> distinct ys \<Longrightarrow> distinct xs"
  by (induction rule: list_emb.induct) (auto dest: list_emb_set)

lemma subseq_remove1: "subseq (xs @ ys) zs \<Longrightarrow> subseq (xs @ remove1 t ys) zs"
proof -
  have "subseq (remove1 t ys) ys"
    by (induction ys) auto
  then show "subseq (xs @ ys) zs \<Longrightarrow> ?thesis"
    by (meson subseq_append' subseq_order.trans)
qed

lemma queue_distinct: "queue_inv s \<Longrightarrow> distinct (admitted s @ tickets (lane_of s))"
  unfolding queue_inv_def by (blast intro: subseq_distinct)

lemma lane_poll_cases:
  assumes "lane_inv s" and "phase s t = Waiting w dl True"
  obtains (admit) ts where "\<not> active (lane_of s)" and "tickets (lane_of s) = t # ts" and "t \<notin> set ts"
      and "lane_poll (lane_of s) t dl (clock s) = (Admitted, (lane_of s)\<lparr>tickets := ts, active := True\<rparr>)"
  | (sleep) r where "active (lane_of s) \<or> hd (tickets (lane_of s)) \<noteq> t" and "0 < r"
      and "lane_poll (lane_of s) t dl (clock s) = (Sleep r, lane_of s)"
  | (expire) "dl \<le> clock s"
      and "lane_poll (lane_of s) t dl (clock s) = (Expired, (lane_of s)\<lparr>tickets := remove1 t (tickets (lane_of s))\<rparr>)"
proof -
  have q: "queue_inv s" using assms(1) by (simp add: lane_inv_def)
  with assms(2) have "t \<in> set (tickets (lane_of s))" by (auto simp: queue_inv_def)
  then obtain u us where u: "tickets (lane_of s) = u # us" by (cases "tickets (lane_of s)") auto
  with queue_distinct [OF q] have "u \<notin> set us" by simp
  with u show thesis
    using that by (cases "active (lane_of s) \<or> u \<noteq> t"; cases "dl \<le> clock s") (auto simp: lane_poll_def Let_def)
qed

lemma lane_invD:
  assumes "lane_inv s"
  shows "queue_inv s" "hold_inv s" "wake_inv s" "expiry_inv s"
  using assms by (simp_all add: lane_inv_def)

lemma hold_inv_cong:
  "hold_inv s \<Longrightarrow> active (lane_of s') = active (lane_of s) \<Longrightarrow>
     (\<And>u. phase s' u = Holding \<longleftrightarrow> phase s u = Holding) \<Longrightarrow> hold_inv s'"
  by (simp add: hold_inv_def)

lemma head_waiting:
  "queue_inv s \<Longrightarrow> set ts \<subseteq> set (tickets (lane_of s)) \<Longrightarrow> ts \<noteq> [] \<Longrightarrow> is_waiting (phase s (hd ts))"
  unfolding queue_inv_def by (meson hd_in_set subsetD)

lemma poll_admit_inv:
  assumes inv: "lane_inv s" and t: "phase s t = Waiting w dl True"
    and free: "\<not> active (lane_of s)" and q: "tickets (lane_of s) = t # ts"
  shows "lane_inv (s\<lparr>lane_of := (lane_of s)\<lparr>tickets := ts, active := True\<rparr>,
    phase := (phase s)(t := Holding), admitted := admitted s @ [t]\<rparr>)" (is "lane_inv ?s")
proof -
  have dist: "t \<notin> set ts" "t \<notin> set (admitted s)"
    using queue_distinct [OF lane_invD(1) [OF inv]] q by auto
  have "queue_inv ?s"
    using lane_invD(1) [OF inv] t dist unfolding queue_inv_def q by auto
  moreover have "hold_inv ?s" using lane_invD(2) [OF inv] free unfolding hold_inv_def by auto
  moreover have "wake_inv ?s" by (simp add: wake_inv_def)
  moreover have "expiry_inv ?s" using lane_invD(4) [OF inv] t unfolding expiry_inv_def by auto
  ultimately show ?thesis by (simp add: lane_inv_def)
qed

lemma poll_sleep_inv:
  assumes inv: "lane_inv s" and t: "phase s t = Waiting w dl True"
    and busy: "active (lane_of s) \<or> hd (tickets (lane_of s)) \<noteq> t"
  shows "lane_inv (s\<lparr>phase := (phase s)(t := Waiting w dl False)\<rparr>)" (is "lane_inv ?s")
proof -
  have "queue_inv ?s" using lane_invD(1) [OF inv] t unfolding queue_inv_def by auto
  moreover have "hold_inv ?s" by (rule hold_inv_cong [OF lane_invD(2) [OF inv]]) (use t in auto)
  moreover have "wake_inv ?s" using lane_invD(3) [OF inv] busy unfolding wake_inv_def by auto
  moreover have "expiry_inv ?s" using lane_invD(4) [OF inv] t unfolding expiry_inv_def by auto
  ultimately show ?thesis by (simp add: lane_inv_def)
qed

lemma poll_expire_inv:
  assumes inv: "lane_inv s" and t: "phase s t = Waiting w dl True" and dl: "dl \<le> clock s"
  shows "lane_inv (s\<lparr>lane_of := (lane_of s)\<lparr>tickets := remove1 t (tickets (lane_of s))\<rparr>,
    phase := (notify_all (phase s))(t := TimedOut w dl), expired := expired s @ [t]\<rparr>)" (is "lane_inv ?s")
proof -
  let ?q = "tickets (lane_of s)"
  have dist: "distinct ?q" using queue_distinct [OF lane_invD(1) [OF inv]] by simp
  have head: "is_waiting (phase s (hd (remove1 t ?q)))" if "remove1 t ?q \<noteq> []"
    by (rule head_waiting [OF lane_invD(1) [OF inv] set_remove1_subset that])
  have "queue_inv ?s"
    using lane_invD(1) [OF inv] t dist unfolding queue_inv_def
    by (auto simp: notify_all_def subseq_remove1)
  moreover have "hold_inv ?s"
    by (rule hold_inv_cong [OF lane_invD(2) [OF inv]]) (use t in \<open>auto simp: notify_all_def\<close>)
  moreover have "wake_inv ?s"
    using head dist unfolding wake_inv_def by (auto simp: notify_all_def) (metis hd_in_set set_remove1_eq Diff_iff insertI1)
  moreover have "expiry_inv ?s"
    using lane_invD(4) [OF inv] t dl unfolding expiry_inv_def by (auto simp: notify_all_def)
  ultimately show ?thesis by (simp add: lane_inv_def)
qed

lemma sys_poll_inv:
  assumes inv: "lane_inv s" and t: "phase s t = Waiting w dl True"
  shows "lane_inv (sys_poll s t w dl)"
  using inv t
proof (cases rule: lane_poll_cases)
  case (admit ts)
  with poll_admit_inv [OF inv t admit(1,2)] show ?thesis by (simp add: sys_poll_def)
next
  case (sleep r)
  with poll_sleep_inv [OF inv t sleep(1)] show ?thesis by (simp add: sys_poll_def)
next
  case expire
  with poll_expire_inv [OF inv t expire(1)] show ?thesis by (simp add: sys_poll_def)
qed

lemma append_inv:
  assumes inv: "lane_inv s" and t: "phase s t = Called w dl"
  shows "lane_inv (s\<lparr>lane_of := lane_append (lane_of s) t, phase := (phase s)(t := Waiting w dl True),
    arrivals := arrivals s @ [t]\<rparr>)" (is "lane_inv ?s")
proof -
  have new: "t \<notin> set (arrivals s)" "t \<notin> set (tickets (lane_of s))"
    using lane_invD(1) [OF inv] t unfolding queue_inv_def by auto
  have "subseq (admitted s @ tickets (lane_of s)) (arrivals s)"
    using lane_invD(1) [OF inv] by (simp add: queue_inv_def)
  then have "subseq ((admitted s @ tickets (lane_of s)) @ [t]) (arrivals s @ [t])"
    by (rule list_emb_append_mono) simp
  then have "queue_inv ?s"
    using lane_invD(1) [OF inv] t new unfolding queue_inv_def lane_append_def by auto
  moreover have "hold_inv ?s"
    by (rule hold_inv_cong [OF lane_invD(2) [OF inv]]) (use t in \<open>auto simp: lane_append_def\<close>)
  moreover have "wake_inv ?s"
    using lane_invD(3) [OF inv] new unfolding wake_inv_def lane_append_def
    by (cases "tickets (lane_of s)") auto
  moreover have "expiry_inv ?s"
    using lane_invD(4) [OF inv] t unfolding expiry_inv_def by auto
  ultimately show ?thesis by (simp add: lane_inv_def)
qed

lemma release_inv:
  assumes inv: "lane_inv s" and t: "phase s t = Holding"
  shows "lane_inv (sys_release s t)" (is "lane_inv ?s")
proof -
  have head: "is_waiting (phase s (hd (tickets (lane_of s))))" if "tickets (lane_of s) \<noteq> []"
    by (rule head_waiting [OF lane_invD(1) [OF inv] subset_refl that])
  have "queue_inv ?s"
    using lane_invD(1) [OF inv] t unfolding queue_inv_def sys_release_def lane_release_def
    by (auto simp: notify_all_def)
  moreover have "hold_inv ?s"
    using lane_invD(2) [OF inv] t unfolding hold_inv_def sys_release_def lane_release_def
    by (auto simp: notify_all_def)
  moreover have "wake_inv ?s"
    using head t unfolding wake_inv_def sys_release_def lane_release_def
    by (cases "tickets (lane_of s) = []") (auto simp: notify_all_def)
  moreover have "expiry_inv ?s"
    using lane_invD(4) [OF inv] t unfolding expiry_inv_def sys_release_def
    by (auto simp: notify_all_def)
  ultimately show ?thesis by (simp add: lane_inv_def)
qed

lemma call_inv:
  assumes inv: "lane_inv s" and t: "phase s t = Unborn"
  shows "lane_inv (s\<lparr>phase := (phase s)(t := Called w dl)\<rparr>)" (is "lane_inv ?s")
proof -
  have "queue_inv ?s" using lane_invD(1) [OF inv] t unfolding queue_inv_def by auto
  moreover have "hold_inv ?s" by (rule hold_inv_cong [OF lane_invD(2) [OF inv]]) (use t in auto)
  moreover have "wake_inv ?s" using lane_invD(3) [OF inv] t unfolding wake_inv_def by auto
  moreover have "expiry_inv ?s" using lane_invD(4) [OF inv] t unfolding expiry_inv_def by auto
  ultimately show ?thesis by (simp add: lane_inv_def)
qed

lemma timeout_inv:
  assumes inv: "lane_inv s" and t: "phase s t = Waiting w dl False"
  shows "lane_inv (s\<lparr>phase := (phase s)(t := Waiting w dl True)\<rparr>)" (is "lane_inv ?s")
proof -
  have "queue_inv ?s" using lane_invD(1) [OF inv] t unfolding queue_inv_def by auto
  moreover have "hold_inv ?s" by (rule hold_inv_cong [OF lane_invD(2) [OF inv]]) (use t in auto)
  moreover have "wake_inv ?s" using lane_invD(3) [OF inv] unfolding wake_inv_def by auto
  moreover have "expiry_inv ?s" using lane_invD(4) [OF inv] t unfolding expiry_inv_def by auto
  ultimately show ?thesis by (simp add: lane_inv_def)
qed

lemma tick_inv: "lane_inv s \<Longrightarrow> clock s \<le> now \<Longrightarrow> lane_inv (s\<lparr>clock := now\<rparr>)"
  by (simp add: lane_inv_def queue_inv_def hold_inv_def wake_inv_def expiry_inv_def)
    (meson order_trans)

lemma lane_step_inv:
  assumes "lane_inv s" and "lane_step s s'"
  shows "lane_inv s'"
  using assms(2,1)
  by (cases rule: lane_step.cases)
    (auto simp: sys_arrive_def intro: tick_inv call_inv timeout_inv sys_poll_inv release_inv
      sys_poll_inv [OF append_inv])

lemma lane_init_inv: "lane_inv sys_init"
  by (simp add: lane_inv_def queue_inv_def hold_inv_def wake_inv_def expiry_inv_def sys_init_def lane_init_def)

interpretation lane: state_machine "\<lambda>s. s = sys_init" lane_step lane_inv
  by unfold_locales (auto intro: lane_init_inv lane_step_inv)

section \<open>Executable schedules\<close>

datatype lane_event = Tick rat | Call nat bool rat | Arrive nat | Timeout nat | Poll nat | Release nat

fun lane_exec :: "lane_sys \<Rightarrow> lane_event \<Rightarrow> lane_sys option" where
  "lane_exec s (Tick now) = (if clock s \<le> now then Some (s\<lparr>clock := now\<rparr>) else None)"
| "lane_exec s (Call t w timeout) =
     (if phase s t = Unborn
      then Some (s\<lparr>phase := (phase s)(t := Called w (clock s + lane_bound w timeout))\<rparr>) else None)"
| "lane_exec s (Arrive t) =
     (case phase s t of Called w dl \<Rightarrow> Some (sys_arrive s t w dl) | _ \<Rightarrow> None)"
| "lane_exec s (Timeout t) =
     (case phase s t of Waiting w dl a \<Rightarrow>
        if \<not> a \<and> dl \<le> clock s then Some (s\<lparr>phase := (phase s)(t := Waiting w dl True)\<rparr>) else None
      | _ \<Rightarrow> None)"
| "lane_exec s (Poll t) =
     (case phase s t of Waiting w dl a \<Rightarrow> if a then Some (sys_poll s t w dl) else None | _ \<Rightarrow> None)"
| "lane_exec s (Release t) = (if phase s t = Holding then Some (sys_release s t) else None)"

fun lane_run :: "lane_sys \<Rightarrow> lane_event list \<Rightarrow> lane_sys option" where
  "lane_run s [] = Some s"
| "lane_run s (e # es) = (case lane_exec s e of None \<Rightarrow> None | Some s' \<Rightarrow> lane_run s' es)"

lemma lane_exec_step: "lane_step s s' \<longleftrightarrow> (\<exists>e. lane_exec s e = Some s')"
proof
  assume "lane_step s s'"
  then show "\<exists>e. lane_exec s e = Some s'"
  proof cases
    case (tick now)
    then show ?thesis by (intro exI [of _ "Tick now"]) simp
  next
    case (call t dl w timeout)
    then show ?thesis by (intro exI [of _ "Call t w timeout"]) simp
  next
    case (arrive t w dl)
    then show ?thesis by (intro exI [of _ "Arrive t"]) simp
  next
    case (timeout t w dl)
    then show ?thesis by (intro exI [of _ "Timeout t"]) simp
  next
    case (poll t w dl)
    then show ?thesis by (intro exI [of _ "Poll t"]) simp
  next
    case (release t)
    then show ?thesis by (intro exI [of _ "Release t"]) simp
  qed
next
  assume "\<exists>e. lane_exec s e = Some s'"
  then obtain e where "lane_exec s e = Some s'" ..
  then show "lane_step s s'"
    by (cases e) (auto split: if_splits lphase.splits intro: lane_step.intros)
qed

lemma lane_run_steps: "lane_run s es = Some s' \<Longrightarrow> lane_step\<^sup>*\<^sup>* s s'"
proof (induction es arbitrary: s)
  case Nil
  then show ?case by simp
next
  case (Cons e es)
  then obtain u where u: "lane_exec s e = Some u" "lane_run u es = Some s'"
    by (auto split: option.splits)
  then have "lane_step s u" by (auto simp: lane_exec_step)
  with Cons.IH [OF u(2)] show ?case by (rule converse_rtranclp_into_rtranclp [rotated])
qed

section \<open>Admission order and mutual exclusion\<close>

lemma subseq_subset: "subseq xs ys \<Longrightarrow> set xs \<subseteq> set ys"
  by (auto dest: list_emb_set)

lemma subseq_keeps_order:
  assumes "subseq zs (xs @ a # ys)" and "distinct (xs @ a # ys)"
    and "a \<in> set zs" and "b \<in> set zs" and "b \<in> set ys"
  shows "\<exists>ps qs. zs = ps @ a # qs \<and> b \<in> set qs"
proof -
  obtain z1 z2 where z: "zs = z1 @ z2" "subseq z1 xs" "subseq z2 (a # ys)"
    using assms(1) by (blast elim: subseq_appendE)
  have "a \<notin> set z1" "b \<notin> set z1"
    using z(2) assms(2,5) by (auto dest: subseq_subset [THEN subsetD])
  with z(1) assms(3,4) have "a \<in> set z2" "b \<in> set z2" by auto
  with z(3) assms(2) obtain z3 where "z2 = a # z3"
    by (cases z2) (auto simp: subseq_Cons2_iff split: if_splits dest: subseq_subset [THEN subsetD])
  with \<open>b \<in> set z2\<close> assms(2,5) z(1) show ?thesis by auto
qed

lemma fifo_order:
  assumes inv: "queue_inv s" "expiry_inv s" and arr: "arrivals s = xs @ a # ys"
    and b: "b \<in> set ys" "b \<in> set (admitted s)"
  shows "a \<in> set (expired s) \<or> (\<exists>ps qs. admitted s = ps @ a # qs \<and> b \<in> set qs)"
proof (cases "a \<in> set (expired s)")
  case False
  have sub: "subseq (admitted s @ tickets (lane_of s)) (xs @ a # ys)" and dist: "distinct (xs @ a # ys)"
    using inv(1) arr by (simp_all add: queue_inv_def)
  have "a \<in> set (arrivals s)" using arr by simp
  then have a: "a \<in> set (admitted s @ tickets (lane_of s))"
    using inv False unfolding queue_inv_def expiry_inv_def by (cases "phase s a") auto
  obtain ps qs where pq: "admitted s @ tickets (lane_of s) = ps @ a # qs" "b \<in> set qs"
    using subseq_keeps_order [OF sub dist a _ b(1)] b(2) by auto
  have "distinct (ps @ a # qs)" using subseq_distinct [OF sub dist] pq(1) by simp
  then have "b \<notin> set ps \<union> {a}" using pq(2) by auto
  have "a \<in> set (admitted s)"
  proof (rule ccontr)
    assume "a \<notin> set (admitted s)"
    with pq(1) obtain us where "ps = admitted s @ us"
      by (auto simp: append_eq_append_conv2 append_eq_Cons_conv)
    with b(2) \<open>b \<notin> set ps \<union> {a}\<close> show False by simp
  qed
  moreover have "subseq (admitted s) (xs @ a # ys)"
    by (rule subseq_order.trans [OF prefix_imp_subseq sub]) simp
  ultimately have "\<exists>ps qs. admitted s = ps @ a # qs \<and> b \<in> set qs"
    using subseq_keeps_order [OF _ dist _ b(2,1)] by blast
  then show ?thesis ..
qed simp

text \<open>
  C1. In every reachable state of the concurrent lane at most one thread is inside the
  protected body, \<open>_active\<close> says exactly whether one is, and admission is first come first served: if
  \<open>a\<close> queued before \<open>b\<close> and \<open>b\<close> has been admitted, then \<open>a\<close> was admitted before \<open>b\<close> or its wait expired.
\<close>

theorem lane_fifo:
  assumes "lane_step\<^sup>*\<^sup>* sys_init s"
  shows "(\<forall>t u. phase s t = Holding \<longrightarrow> phase s u = Holding \<longrightarrow> t = u) \<and>
    (active (lane_of s) \<longleftrightarrow> (\<exists>t. phase s t = Holding)) \<and>
    (\<forall>xs a ys b. arrivals s = xs @ a # ys \<longrightarrow> b \<in> set ys \<longrightarrow> b \<in> set (admitted s) \<longrightarrow>
       a \<in> set (expired s) \<or> (\<exists>ps qs. admitted s = ps @ a # qs \<and> b \<in> set qs))"
proof -
  have inv: "lane_inv s" using assms by (rule lane.reachable_inv [OF refl])
  then have "hold_inv s" by (rule lane_invD)
  then show ?thesis
    using fifo_order [OF lane_invD(1) [OF inv] lane_invD(4) [OF inv]] unfolding hold_inv_def by blast
qed

section \<open>Progress and expiry\<close>

lemma free_lane_admits_head:
  assumes "lane_inv s" and "\<not> active (lane_of s)" and "tickets (lane_of s) = t # ts"
  shows "\<exists>s'. lane_step s s' \<and> phase s' t = Holding \<and> admitted s' = admitted s @ [t]"
proof -
  obtain w dl where t: "phase s t = Waiting w dl True"
    using lane_invD(3) [OF assms(1)] assms(2,3) by (auto simp: wake_inv_def)
  then have "lane_step s (sys_poll s t w dl)" by (rule lane_step.poll)
  with assms(2,3) show ?thesis
    by (intro exI [of _ "sys_poll s t w dl"] conjI) (auto simp: sys_poll_def lane_poll_def)
qed

lemma sys_poll_expired:
  "dl \<le> clock s \<Longrightarrow> phase (sys_poll s t w dl) t \<in> {Holding, TimedOut w dl} \<and> clock (sys_poll s t w dl) = clock s"
  by (auto simp: sys_poll_def lane_poll_def Let_def)

lemma expired_waiter_leaves:
  assumes "phase s t = Waiting w dl a" and "dl \<le> clock s"
  shows "\<exists>s'. lane_step\<^sup>*\<^sup>* s s' \<and> clock s' = clock s \<and> phase s' t \<in> {Holding, TimedOut w dl}"
proof (cases a)
  case True
  with assms have "lane_step s (sys_poll s t w dl)" by (auto intro: lane_step.poll)
  with sys_poll_expired [OF assms(2)] show ?thesis by blast
next
  case False
  let ?u = "s\<lparr>phase := (phase s)(t := Waiting w dl True)\<rparr>"
  from False assms have "lane_step s ?u" by (auto intro: lane_step.timeout)
  moreover have "lane_step ?u (sys_poll ?u t w dl)" by (rule lane_step.poll) simp
  moreover have "phase (sys_poll ?u t w dl) t \<in> {Holding, TimedOut w dl} \<and> clock (sys_poll ?u t w dl) = clock s"
    using sys_poll_expired [of dl ?u t w] assms(2) by simp
  ultimately show ?thesis by (meson converse_rtranclp_into_rtranclp r_into_rtranclp)
qed


lemma timed_out_final:
  assumes "lane_step s s'" and "phase s t = TimedOut w dl"
  shows "phase s' t = TimedOut w dl"
  using assms
proof cases
  case (arrive u w' dl')
  with assms(2) show ?thesis
    by (auto simp: sys_arrive_def sys_poll_def notify_all_def split: prod.splits poll.splits)
next
  case (poll u w' dl')
  with assms(2) show ?thesis
    by (auto simp: sys_poll_def notify_all_def split: prod.splits poll.splits)
next
  case (release u)
  with assms(2) show ?thesis
    by (auto simp: sys_release_def notify_all_def)
qed (use assms(2) in auto)

lemma timed_out_stays: "lane_step\<^sup>*\<^sup>* s s' \<Longrightarrow> phase s t = TimedOut w dl \<Longrightarrow> phase s' t = TimedOut w dl"
  by (induction rule: rtranclp_induct) (auto intro: timed_out_final)

text \<open>
  C23. A plain retry after a queue timeout is safe: an expired wait expired only after its
  deadline, the protected call of that ticket was not started and is not started in any later
  state, and the error carries the category \<open>write_queue_timeout\<close> for a write (\<open>busy\<close> for a read).
\<close>

theorem expired_never_admitted:
  assumes "lane_step\<^sup>*\<^sup>* sys_init s" and "phase s t = TimedOut w dl" and "lane_step\<^sup>*\<^sup>* s s'"
  shows "dl \<le> clock s \<and> t \<notin> set (admitted s') \<and> phase s' t \<noteq> Holding \<and>
    exc_type (lane_error w) = OperationalError \<and>
    exc_category (lane_error w) = Some (if w then ''write_queue_timeout'' else ''busy'')"
proof -
  have "lane_inv s" and inv': "lane_inv s'"
    using assms(1,3) by (blast intro: lane.reachable_inv rtranclp_trans)+
  then have "dl \<le> clock s" using assms(2) by (auto simp: lane_inv_def expiry_inv_def)
  moreover have p: "phase s' t = TimedOut w dl" using timed_out_stays assms(2,3) by blast
  moreover have "t \<notin> set (admitted s')" using lane_invD(1) [OF inv'] p by (simp add: queue_inv_def)
  ultimately show ?thesis by (simp add: lane_error_def)
qed

definition demo_run :: "lane_event list" where
  "demo_run = [Call 1 True 5, Arrive 1, Call 2 True 1, Arrive 2, Call 3 True 5, Arrive 3,
     Tick 2, Timeout 2, Poll 2, Release 1, Poll 3]"

lemma demo_run_state:
  "\<exists>s. lane_run sys_init demo_run = Some s \<and> arrivals s = [1, 2, 3] \<and> admitted s = [1, 3] \<and>
     expired s = [2] \<and> phase s 2 = TimedOut True 1 \<and> phase s 3 = Holding"
  by (simp add: demo_run_def sys_init_def lane_init_def lane_bound_def sys_arrive_def sys_poll_def
      lane_poll_def lane_append_def sys_release_def lane_release_def notify_all_def wake_def Let_def)

theorem lane_fifo_witness:
  "\<exists>s. lane_step\<^sup>*\<^sup>* sys_init s \<and> arrivals s = [1, 2, 3] \<and> 3 \<in> set (admitted s) \<and>
     (\<exists>ps qs. admitted s = ps @ 1 # qs \<and> 3 \<in> set qs)"
proof -
  obtain s where s: "lane_run sys_init demo_run = Some s" "arrivals s = [1, 2, 3]"
    "admitted s = [1, 3]" "expired s = [2]"
    using demo_run_state by blast
  then have r: "lane_step\<^sup>*\<^sup>* sys_init s" by (blast intro: lane_run_steps)
  from lane_fifo [OF r] s
  have "1 \<in> set (expired s) \<or> (\<exists>ps qs. admitted s = ps @ 1 # qs \<and> 3 \<in> set qs)"
    by (metis append_Nil list.set_intros(1,2))
  with s(4) have "\<exists>ps qs. admitted s = ps @ 1 # qs \<and> 3 \<in> set qs" by simp
  moreover from s(3) have "3 \<in> set (admitted s)" by simp
  ultimately show ?thesis using s(2) r by blast
qed


theorem expired_never_admitted_witness:
  "\<exists>s. lane_step\<^sup>*\<^sup>* sys_init s \<and> phase s 2 = TimedOut True 1 \<and> 2 \<notin> set (admitted s)"
proof -
  obtain s where s: "lane_run sys_init demo_run = Some s" "phase s 2 = TimedOut True 1"
    using demo_run_state by blast
  then have r: "lane_step\<^sup>*\<^sup>* sys_init s" by (blast intro: lane_run_steps)
  from expired_never_admitted [OF r s(2) rtranclp.rtrancl_refl] r s(2) show ?thesis by blast
qed

end
