(* ===== verification/Zx_Sql.thy ===== *)
theory Zx_Sql
  imports Zx_Errors
begin

text \<open>
  The SQL text inspection of \<open>dbapi.py\<close>: \<open>_leading_keyword\<close>, \<open>_guess_is_write\<close>, \<open>_scan_sql\<close>,
  \<open>_sql_has_tail\<close> and \<open>_sql_mentions_returning\<close>, with their index-based loops as they are written.

  The specification side is a one-pass lexer \<open>lex\<close> that marks every character as top level or not;
  the main result is that the index-based scanner computes exactly what the lexer says.
\<close>

section \<open>The leading keyword\<close>

definition after_find :: "string \<Rightarrow> nat option \<Rightarrow> nat \<Rightarrow> nat" where
  "after_find text found width = (case found of None \<Rightarrow> length text | Some k \<Rightarrow> k + width)"

lemma after_find_gt:
  "i < length text \<Longrightarrow> i \<le> j \<Longrightarrow> 0 < w \<Longrightarrow> i < after_find text (py_find text p j) w"
  by (auto simp: after_find_def split: option.splits dest: py_find_bounds)

lemma after_find_measure:
  assumes "i < length text" and "i \<le> j" and "0 < w"
  shows "length text - after_find text (py_find text p j) w < length text - i"
  by (rule diff_less_mono2 [OF after_find_gt [OF assms] assms(1)])

text \<open>The first \<open>while\<close> loop of \<open>_leading_keyword\<close>: skip white space and comments.\<close>

function skip_blank :: "string \<Rightarrow> nat \<Rightarrow> nat" where
  "skip_blank text i =
    (if i < length text then
       if py_isspace (text ! i) then skip_blank text (i + 1)
       else if startswith (drop i text) ''--'' then
         skip_blank text (after_find text (py_find text nl i) 1)
       else if startswith (drop i text) ''/*'' then
         skip_blank text (after_find text (py_find text ''*/'' (i + 2)) 2)
       else i
     else i)"
  by pat_completeness auto
termination
  by (relation "measure (\<lambda>(text, i). length text - i)") (auto intro: after_find_measure)

declare skip_blank.simps [simp del]

text \<open>The second loop: advance over letters and underscores.\<close>

definition word_start_char :: "char \<Rightarrow> bool" where
  "word_start_char c = (py_isalpha c \<or> c = CHR ''_'')"

function keyword_end :: "string \<Rightarrow> nat \<Rightarrow> nat" where
  "keyword_end text i =
    (if i < length text \<and> word_start_char (text ! i) then keyword_end text (i + 1) else i)"
  by pat_completeness auto
termination
  by (relation "measure (\<lambda>(text, i). length text - i)") auto

declare keyword_end.simps [simp del]

definition leading_keyword :: "string \<Rightarrow> string" where
  "leading_keyword sql =
    (let start = skip_blank sql 0; stop = keyword_end sql start
     in py_lower (drop start (take stop sql)))"

definition read_prefixes :: "string set" where
  "read_prefixes = {''select'', ''values'', ''explain'', ''pragma''}"

definition guess_is_write :: "string \<Rightarrow> bool" where
  "guess_is_write sql = (leading_keyword sql \<notin> read_prefixes)"

section \<open>The scanner\<close>

definition blank :: "nat \<Rightarrow> nat \<Rightarrow> string \<Rightarrow> string" where
  "blank start stop out = foldl (\<lambda>o' p. o'[p := CHR '' '']) out [start ..< min stop (length out)]"

definition is_quote :: "char \<Rightarrow> bool" where
  "is_quote c = (c \<in> {CHR 0x27, CHR 0x22, CHR 0x60})"

text \<open>The inner loop over a quoted region; a doubled quote stays inside it.\<close>

function quote_end :: "string \<Rightarrow> char \<Rightarrow> nat \<Rightarrow> nat" where
  "quote_end sql q i =
    (if i < length sql then
       if sql ! i = q then
         if i + 1 < length sql \<and> sql ! (i + 1) = q then quote_end sql q (i + 2) else i
       else quote_end sql q (i + 1)
     else i)"
  by pat_completeness auto
termination
  by (relation "measure (\<lambda>(sql, q, i). length sql - i)") auto

declare quote_end.simps [simp del]

lemma quote_end_ge: "i \<le> quote_end sql q i"
proof (induction sql q i rule: quote_end.induct)
  case (1 sql q i)
  then show ?case by (auto simp: quote_end.simps [of sql q i])
qed

text \<open>The main loop: \<open>out\<close> is the mutable copy of the text, then the two flags.\<close>

function scan_loop :: "string \<Rightarrow> nat \<Rightarrow> string \<Rightarrow> bool \<Rightarrow> bool \<Rightarrow> bool \<times> string" where
  "scan_loop sql i out seen_semicolon has_tail =
    (if i < length sql then
       let character = sql ! i in
       if is_quote character then
         let stop = quote_end sql character (i + 1) + 1
         in scan_loop sql stop (blank i stop out) seen_semicolon has_tail
       else if character = CHR ''['' then
         let stop = after_find sql (py_find sql '']'' (i + 1)) 1
         in scan_loop sql stop (blank i stop out) seen_semicolon has_tail
       else if startswith (drop i sql) ''--'' then
         let stop = after_find sql (py_find sql nl i) 1
         in scan_loop sql stop (blank i stop out) seen_semicolon has_tail
       else if startswith (drop i sql) ''/*'' then
         let stop = after_find sql (py_find sql ''*/'' (i + 2)) 2
         in scan_loop sql stop (blank i stop out) seen_semicolon has_tail
       else if character = CHR '';'' then scan_loop sql (i + 1) out True has_tail
       else if py_isspace character then scan_loop sql (i + 1) out seen_semicolon has_tail
       else scan_loop sql (i + 1) out seen_semicolon (if seen_semicolon then True else has_tail)
     else (has_tail, out))"
  by pat_completeness auto
termination
proof (relation "measure (\<lambda>(sql, i, _). length sql - i)", goal_cases)
  case (2 sql i out seen tail c stop)
  then show ?case using quote_end_ge [of "i + 1" sql c] by auto
qed (auto intro: after_find_measure)

declare scan_loop.simps [simp del]

definition scan_sql :: "string \<Rightarrow> bool \<times> string" where
  "scan_sql sql = scan_loop sql 0 sql False False"

definition sql_has_tail :: "string \<Rightarrow> bool" where
  "sql_has_tail sql = fst (scan_sql sql)"

definition word_char :: "char \<Rightarrow> bool" where
  "word_char c = (py_isalnum c \<or> c = CHR ''_'')"

text \<open>
  \<open>re.compile("\breturning\b", re.IGNORECASE).search\<close>: the flag says whether the character before
  the current position is a word character.
\<close>

fun search_returning :: "bool \<Rightarrow> string \<Rightarrow> bool" where
  "search_returning prev [] = False"
| "search_returning prev (c # s) =
     ((\<not> prev \<and> startswith (py_lower (c # s)) ''returning'' \<and>
       (case drop 9 (c # s) of [] \<Rightarrow> True | d # _ \<Rightarrow> \<not> word_char d))
      \<or> search_returning (word_char c) s)"

definition sql_mentions_returning :: "string \<Rightarrow> bool" where
  "sql_mentions_returning sql = search_returning False (snd (scan_sql sql))"

section \<open>The reference lexer\<close>

datatype lexmode = Top | Quote char | Bracket | Line | Block

text \<open>\<open>lex_sql m s\<close> marks each character of \<open>s\<close>: \<open>True\<close> for a character outside literals, quoted
  identifiers and comments.\<close>

fun lex_sql :: "lexmode \<Rightarrow> string \<Rightarrow> bool list" where
  "lex_sql m [] = []"
| "lex_sql Top (c # s) =
     (if is_quote c then False # lex_sql (Quote c) s
      else if c = CHR ''['' then False # lex_sql Bracket s
      else if c = CHR ''-'' \<and> startswith s ''-'' then False # False # lex_sql Line (tl s)
      else if c = CHR ''/'' \<and> startswith s ''*'' then False # False # lex_sql Block (tl s)
      else True # lex_sql Top s)"
| "lex_sql (Quote q) (c # s) =
     (if c = q then
        if startswith s [q] then False # False # lex_sql (Quote q) (tl s) else False # lex_sql Top s
      else False # lex_sql (Quote q) s)"
| "lex_sql Bracket (c # s) = False # lex_sql (if c = CHR '']'' then Top else Bracket) s"
| "lex_sql Line (c # s) = False # lex_sql (if c = CHR 0x0A then Top else Line) s"
| "lex_sql Block (c # s) =
     (if c = CHR ''*'' \<and> startswith s ''/'' then False # False # lex_sql Top (tl s)
      else False # lex_sql Block s)"

definition apply_mask :: "bool list \<Rightarrow> string \<Rightarrow> string" where
  "apply_mask ms s = map2 (\<lambda>m c. if m then c else CHR '' '') ms s"

text \<open>Top-level content after a top-level semicolon.\<close>

fun tail_from :: "bool \<Rightarrow> bool list \<Rightarrow> string \<Rightarrow> bool" where
  "tail_from seen (m # ms) (c # s) =
     (if m \<and> c = CHR '';'' then tail_from True ms s
      else (m \<and> seen \<and> \<not> py_isspace c) \<or> tail_from seen ms s)"
| "tail_from seen ms s = False"

section \<open>The scanner computes the lexer\<close>

lemma startswith_length: "startswith s p \<Longrightarrow> length p \<le> length s"
  by (simp add: startswith_iff_prefix prefix_length_le)

lemma length_lex [simp]: "length (lex_sql m s) = length s"
proof (induction m s rule: lex_sql.induct)
  case (2 c s)
  then show ?case by (cases s) auto
next
  case (3 q c s)
  then show ?case by (cases s) auto
next
  case (6 c s)
  then show ?case by (cases s) auto
qed auto

lemma foldl_update:
  "a \<le> b \<Longrightarrow> b \<le> length xs \<Longrightarrow>
     foldl (\<lambda>o' p. o'[p := x]) xs [a ..< b] = take a xs @ replicate (b - a) x @ drop b xs"
proof (induction b)
  case 0
  then show ?case by simp
next
  case (Suc b)
  show ?case
  proof (cases "a = Suc b")
    case True
    then show ?thesis by simp
  next
    case False
    with Suc have "foldl (\<lambda>o' p. o'[p := x]) xs [a ..< b] = take a xs @ replicate (b - a) x @ drop b xs"
      and "a \<le> b" by auto
    moreover have "(take a xs @ replicate (b - a) x @ drop b xs)[b := x]
        = take a xs @ replicate (Suc b - a) x @ drop (Suc b) xs"
      using \<open>a \<le> b\<close> Suc.prems
      by (simp add: list_update_append Suc_diff_le Cons_nth_drop_Suc [symmetric] replicate_append_same [symmetric])
    ultimately show ?thesis using \<open>a \<le> b\<close> by simp
  qed
qed

lemma blank_at:
  assumes "length d = i" and "i \<le> length sql" and "i \<le> stop"
  shows "blank i stop (d @ drop i sql) =
    (d @ replicate (min stop (length sql) - i) (CHR '' '')) @ drop stop sql"
proof -
  have "drop (min stop (length sql)) sql = drop stop sql"
    by (simp add: min_def)
  then show ?thesis
    using assms unfolding blank_def
    by (subst foldl_update) auto
qed

lemma apply_mask_False:
  "n \<le> length s \<Longrightarrow>
     apply_mask (replicate n False @ ms) s = replicate n (CHR '' '') @ apply_mask ms (drop n s)"
proof (induction n arbitrary: s)
  case 0
  then show ?case by simp
next
  case (Suc n)
  then show ?case by (cases s) (auto simp: apply_mask_def)
qed

lemma tail_from_False:
  "n \<le> length s \<Longrightarrow> tail_from seen (replicate n False @ ms) s = tail_from seen ms (drop n s)"
proof (induction n arbitrary: s)
  case 0
  then show ?case by simp
next
  case (Suc n)
  then show ?case by (cases s) auto
qed

lemma lex_bracket:
  "lex_sql Bracket s = (case find_sub '']'' s of None \<Rightarrow> replicate (length s) False
     | Some k \<Rightarrow> replicate (Suc k) False @ lex_sql Top (drop (Suc k) s))"
  by (induction s) (auto split: option.splits)

lemma lex_line:
  "lex_sql Line s = (case find_sub nl s of None \<Rightarrow> replicate (length s) False
     | Some k \<Rightarrow> replicate (Suc k) False @ lex_sql Top (drop (Suc k) s))"
  by (induction s) (auto split: option.splits)

lemma lex_block:
  "lex_sql Block s = (case find_sub ''*/'' s of None \<Rightarrow> replicate (length s) False
     | Some k \<Rightarrow> replicate (k + 2) False @ lex_sql Top (drop (k + 2) s))"
proof (induction s)
  case Nil
  then show ?case by simp
next
  case (Cons c s)
  then show ?case by (cases s) (auto split: option.splits)
qed

lemma lex_quote:
  "i \<le> length sql \<Longrightarrow>
   lex_sql (Quote q) (drop i sql) =
     replicate (min (quote_end sql q i + 1) (length sql) - i) False @ lex_sql Top (drop (quote_end sql q i + 1) sql)"
proof (induction sql q i rule: quote_end.induct)
  case (1 sql q i)
  show ?case
  proof (cases "i < length sql")
    case False
    with "1.prems" have "i = length sql" by simp
    moreover have "quote_end sql q (length sql) = length sql"
      by (simp add: quote_end.simps [of sql q "length sql"])
    ultimately show ?thesis by simp
  next
    case True
    note d = Cons_nth_drop_Suc [OF True, symmetric]
    show ?thesis
    proof (cases "sql ! i = q")
      case neq: False
      have "min (quote_end sql q (i + 1) + 1) (length sql) - i = Suc (min (quote_end sql q (i + 1) + 1) (length sql) - (i + 1))"
        using quote_end_ge [of "i + 1" sql q] True by auto
      with neq True "1.IH"(2) show ?thesis
        by (simp add: quote_end.simps [of sql q i] d)
    next
      case eq: True
      show ?thesis
      proof (cases "i + 1 < length sql \<and> sql ! (i + 1) = q")
        case dbl: True
        then have d2: "drop (Suc i) sql = q # drop (i + 2) sql"
          using Cons_nth_drop_Suc [of "i + 1" sql] by simp
        have "min (quote_end sql q (i + 2) + 1) (length sql) - i = Suc (Suc (min (quote_end sql q (i + 2) + 1) (length sql) - (i + 2)))"
          using quote_end_ge [of "i + 2" sql q] dbl by auto
        with eq True dbl "1.IH"(1) d2 show ?thesis
          by (simp add: quote_end.simps [of sql q i] d)
      next
        case False
        then have "\<not> startswith (drop (Suc i) sql) [q]"
          by (cases "Suc i < length sql") (auto simp: Cons_nth_drop_Suc [symmetric])
        with eq True False show ?thesis
          by (auto simp: quote_end.simps [of sql q i] d)
      qed
    qed
  qed
qed

text \<open>A literal, quoted identifier or comment of length \<open>n\<close> at the front of \<open>s\<close>.\<close>

definition region :: "string \<Rightarrow> nat \<Rightarrow> bool" where
  "region s n = (lex_sql Top s = replicate (min n (length s)) False @ lex_sql Top (drop n s))"

definition region_len :: "string \<Rightarrow> string \<Rightarrow> nat \<Rightarrow> nat \<Rightarrow> nat" where
  "region_len s p j w = (case find_sub p (drop j s) of None \<Rightarrow> length s | Some k \<Rightarrow> j + k + w)"

lemma after_find_region:
  "i + j \<le> length sql \<Longrightarrow>
     after_find sql (py_find sql p (i + j)) w = i + region_len (drop i sql) p j w"
  by (auto simp: after_find_def py_find_def region_len_def add.commute split: option.splits)

lemma region_bracket:
  assumes "startswith s ''[''"
  shows "region s (region_len s '']'' 1 1)"
proof (cases s)
  case (Cons c t)
  with assms show ?thesis
    by (auto simp: region_def region_len_def is_quote_def lex_bracket
        dest!: find_sub_Some_le split: option.splits)
qed (use assms in simp)

lemma region_line:
  assumes "startswith s ''--''"
  shows "region s (region_len s nl 0 1)"
proof -
  obtain t where "s = CHR ''-'' # CHR ''-'' # t"
    using assms by (auto simp: startswith_iff_prefix prefix_def)
  then show ?thesis
    by (auto simp: region_def region_len_def is_quote_def lex_line
        dest!: find_sub_Some_le split: option.splits)
qed

lemma region_block:
  assumes "startswith s ''/*''"
  shows "region s (region_len s ''*/'' 2 2)"
proof -
  obtain t where "s = CHR ''/'' # CHR ''*'' # t"
    using assms by (auto simp: startswith_iff_prefix prefix_def)
  then show ?thesis
    by (auto simp: region_def region_len_def is_quote_def lex_block
        dest!: find_sub_Some_le split: option.splits)
qed

lemma region_quote:
  assumes "i < length sql" and "is_quote (sql ! i)"
  shows "region (drop i sql) (quote_end sql (sql ! i) (i + 1) + 1 - i)"
proof -
  let ?e = "quote_end sql (sql ! i) (i + 1)"
  have e: "i + 1 \<le> ?e" by (rule quote_end_ge)
  have "min (?e + 1 - i) (length sql - i) = Suc (min (?e + 1) (length sql) - (i + 1))"
    using e assms(1) by auto
  moreover have "lex_sql Top (drop i sql) = False # lex_sql (Quote (sql ! i)) (drop (i + 1) sql)"
    using assms by (simp add: Cons_nth_drop_Suc [symmetric])
  ultimately show ?thesis
    using e assms(1) by (simp add: region_def lex_quote)
qed

definition scan_spec :: "string \<Rightarrow> nat \<Rightarrow> string \<Rightarrow> bool \<Rightarrow> bool \<Rightarrow> bool \<times> string" where
  "scan_spec sql i d seen has_tail =
    (let s = drop i sql; ms = lex_sql Top s in (has_tail \<or> tail_from seen ms s, d @ apply_mask ms s))"

lemma scan_spec_region:
  assumes "region (drop i sql) n" and "i < length sql" and "length d = i"
  shows "scan_spec sql i d seen has_tail =
    scan_spec sql (i + n) (d @ replicate (min (i + n) (length sql) - i) (CHR '' '')) seen has_tail"
proof -
  let ?m = "min n (length sql - i)"
  have m: "min (i + n) (length sql) - i = ?m" and "?m \<le> length (drop i sql)"
    and "drop ?m (drop i sql) = drop (i + n) sql"
    using assms(2) by (auto simp: min_def add.commute)
  then show ?thesis
    using assms(1) by (simp add: scan_spec_def region_def apply_mask_False tail_from_False m Let_def add.commute)
qed

lemma scan_spec_char:
  assumes "i < length sql" and "lex_sql Top (drop i sql) = True # lex_sql Top (drop (i + 1) sql)"
  shows "scan_spec sql i d seen has_tail = scan_spec sql (i + 1) (d @ [sql ! i])
    (seen \<or> sql ! i = CHR '';'')
    (has_tail \<or> (seen \<and> sql ! i \<noteq> CHR '';'' \<and> \<not> py_isspace (sql ! i)))"
  using assms(2) Cons_nth_drop_Suc [OF assms(1), symmetric]
  by (auto simp: scan_spec_def Let_def apply_mask_def)

lemma lex_top_char:
  assumes "i < length sql" and "\<not> is_quote (sql ! i)" and "sql ! i \<noteq> CHR ''[''"
    and "\<not> startswith (drop i sql) ''--''" and "\<not> startswith (drop i sql) ''/*''"
  shows "lex_sql Top (drop i sql) = True # lex_sql Top (drop (i + 1) sql)"
  using assms by (auto simp: Cons_nth_drop_Suc [OF assms(1), symmetric])

text \<open>One iteration of the main loop: either it jumps over a region and blanks it, or it looks at one
  top-level character.\<close>

lemma scan_loop_step:
  assumes "i < length sql"
  shows "(\<exists>n > 0. region (drop i sql) n \<and>
      scan_loop sql i out seen has_tail = scan_loop sql (i + n) (blank i (i + n) out) seen has_tail) \<or>
    (lex_sql Top (drop i sql) = True # lex_sql Top (drop (i + 1) sql) \<and>
      scan_loop sql i out seen has_tail = scan_loop sql (i + 1) out (seen \<or> sql ! i = CHR '';'')
        (has_tail \<or> (seen \<and> sql ! i \<noteq> CHR '';'' \<and> \<not> py_isspace (sql ! i))))"
proof -
  have pos: "0 < region_len (drop i sql) p j w" if "0 < w" for p j w
    using assms that by (auto simp: region_len_def split: option.splits)
  let ?q = "quote_end sql (sql ! i) (i + 1) + 1"
  have q: "i + (?q - i) = ?q" "0 < ?q - i"
    using quote_end_ge [of "i + 1" sql "sql ! i"] by auto
  note unfold = scan_loop.simps [of sql i]
  consider (quote) "is_quote (sql ! i)"
    | (bracket) "\<not> is_quote (sql ! i)" "sql ! i = CHR ''[''"
    | (line) "\<not> is_quote (sql ! i)" "sql ! i \<noteq> CHR ''[''" "startswith (drop i sql) ''--''"
    | (block) "\<not> is_quote (sql ! i)" "sql ! i \<noteq> CHR ''[''" "\<not> startswith (drop i sql) ''--''"
        "startswith (drop i sql) ''/*''"
    | (other) "\<not> is_quote (sql ! i)" "sql ! i \<noteq> CHR ''[''" "\<not> startswith (drop i sql) ''--''"
        "\<not> startswith (drop i sql) ''/*''"
    by blast
  then show ?thesis
  proof cases
    case quote
    with assms region_quote [OF assms quote] q show ?thesis
      by (intro disjI1 exI [of _ "?q - i"]) (simp add: unfold Let_def)
  next
    case bracket
    with assms region_bracket [of "drop i sql"] pos after_find_region [of i 1 sql "'']''" 1]
    show ?thesis
      by (intro disjI1 exI [of _ "region_len (drop i sql) '']'' 1 1"])
        (simp add: unfold Let_def Cons_nth_drop_Suc [symmetric])
  next
    case line
    with assms region_line [of "drop i sql"] pos after_find_region [of i 0 sql nl 1] show ?thesis
      by (intro disjI1 exI [of _ "region_len (drop i sql) nl 0 1"]) (simp add: unfold Let_def)
  next
    case block
    then have "i + 2 \<le> length sql"
      using startswith_length [of "drop i sql" "''/*''"] by simp
    with block assms region_block [of "drop i sql"] pos after_find_region [of i 2 sql "''*/''" 2]
    show ?thesis
      by (intro disjI1 exI [of _ "region_len (drop i sql) ''*/'' 2 2"]) (simp add: unfold Let_def)
  next
    case other
    with assms lex_top_char [OF assms other] show ?thesis
      by (auto simp: unfold Let_def)
  qed
qed

lemma scan_loop_lex:
  "length d = min i (length sql) \<Longrightarrow>
     scan_loop sql i (d @ drop i sql) seen has_tail = scan_spec sql i d seen has_tail"
proof (induction "length sql - i" arbitrary: i d seen has_tail rule: less_induct)
  case less
  show ?case
  proof (cases "i < length sql")
    case False
    then show ?thesis
      by (simp add: scan_loop.simps [of sql i] scan_spec_def apply_mask_def Let_def)
  next
    case True
    with less.prems have d: "length d = i" by simp
    have region: "scan_loop sql (i + n) (blank i (i + n) (d @ drop i sql)) seen has_tail
        = scan_spec sql i d seen has_tail" if "region (drop i sql) n" and "0 < n" for n
      using less.hyps [of "i + n" "d @ replicate (min (i + n) (length sql) - i) (CHR '' '')"] True d that
      by (simp add: blank_at scan_spec_region [OF that(1) True d])
    have char: "scan_loop sql (i + 1) (d @ drop i sql) seen' tail'
        = scan_spec sql (i + 1) (d @ [sql ! i]) seen' tail'" for seen' tail'
      using less.hyps [of "i + 1" "d @ [sql ! i]" seen' tail'] True d
      by (simp add: Cons_nth_drop_Suc)
    from scan_loop_step [OF True, of "d @ drop i sql" seen has_tail] show ?thesis
      using region char scan_spec_char [OF True] by auto
  qed
qed

lemma scan_sql_lex:
  "scan_sql sql = (tail_from False (lex_sql Top sql) sql, apply_mask (lex_sql Top sql) sql)"
  using scan_loop_lex [of "[]" 0 sql False False] by (simp add: scan_sql_def scan_spec_def Let_def)

lemma tail_from_iff:
  "length ms = length s \<Longrightarrow>
   tail_from seen ms s \<longleftrightarrow>
     (\<exists>j < length s. ms ! j \<and> s ! j \<noteq> CHR '';'' \<and> \<not> py_isspace (s ! j) \<and>
        (seen \<or> (\<exists>i < j. ms ! i \<and> s ! i = CHR '';'')))"
proof (induction seen ms s rule: tail_from.induct)
  case (1 seen m ms c s)
  then show ?case
    by (simp add: Ex_less_Suc2) blast
qed auto

lemma nth_apply_mask:
  "length ms = length s \<Longrightarrow> i < length s \<Longrightarrow>
     apply_mask ms s ! i = (if ms ! i then s ! i else CHR '' '')"
  by (simp add: apply_mask_def)

lemma length_apply_mask: "length ms = length s \<Longrightarrow> length (apply_mask ms s) = length s"
  by (simp add: apply_mask_def)

text \<open>
  C6. The index-based scanner is exact: the text it returns has the length of the input and
  equals it on precisely the characters that the reference lexer places outside literals, quoted
  identifiers and comments (every other character is blanked), and it reports a tail precisely
  when a top-level semicolon is followed by a top-level character that is neither white space nor
  another semicolon. A quoted literal after the semicolon is therefore not reported.
\<close>

theorem scan_sql_exact:
  "let ms = lex_sql Top sql; (has_tail, stripped) = scan_sql sql in
   length stripped = length sql \<and>
   (\<forall>i < length sql. stripped ! i = (if ms ! i then sql ! i else CHR '' '')) \<and>
   (has_tail \<longleftrightarrow>
     (\<exists>i j. i < j \<and> j < length sql \<and> ms ! i \<and> sql ! i = CHR '';'' \<and>
        ms ! j \<and> sql ! j \<noteq> CHR '';'' \<and> \<not> py_isspace (sql ! j)))"
  by (auto simp: scan_sql_lex tail_from_iff nth_apply_mask length_apply_mask Let_def)

text \<open>\<open>returning\<close> spelled in any letter case at position \<open>i\<close>.\<close>

definition keyword_at :: "string \<Rightarrow> nat \<Rightarrow> bool" where
  "keyword_at s i = (i + 9 \<le> length s \<and> (\<forall>k < 9. py_lower_char (s ! (i + k)) = ''returning'' ! k))"

lemma startswith_nth:
  "startswith s p \<longleftrightarrow> length p \<le> length s \<and> (\<forall>k < length p. s ! k = p ! k)"
  by (auto simp: startswith_def list_eq_iff_nth_eq)

lemma startswith_lower_iff: "startswith (py_lower s) ''returning'' \<longleftrightarrow> keyword_at s 0"
proof -
  have "length ''returning'' = 9" by simp
  then show ?thesis
    unfolding startswith_nth keyword_at_def py_lower_def by (auto simp del: nth_Cons_numeral)
qed

lemma keyword_at_Cons: "keyword_at (c # s) (Suc i) \<longleftrightarrow> keyword_at s i"
  by (simp add: keyword_at_def add.commute)

lemma search_returning_iff:
  "search_returning prev s \<longleftrightarrow>
     (\<exists>i < length s. keyword_at s i \<and> (if i = 0 then \<not> prev else \<not> word_char (s ! (i - 1))) \<and>
        (i + 9 < length s \<longrightarrow> \<not> word_char (s ! (i + 9))))"
proof (induction s arbitrary: prev)
  case Nil
  then show ?case by simp
next
  case (Cons c s)
  have here: "(case drop 9 (c # s) of [] \<Rightarrow> True | d # _ \<Rightarrow> \<not> word_char d) \<longleftrightarrow>
      (9 < length (c # s) \<longrightarrow> \<not> word_char ((c # s) ! 9))"
    by (cases "9 < length (c # s)") (auto simp: Cons_nth_drop_Suc [symmetric] split: list.split)
  have there: "(if i = 0 then \<not> word_char c else \<not> word_char (s ! (i - 1))) \<longleftrightarrow> \<not> word_char ((c # s) ! i)" for i
    by (cases i) auto
  show ?case
    by (simp only: search_returning.simps Cons.IH startswith_lower_iff here there length_Cons
        Ex_less_Suc2 keyword_at_Cons) (auto simp: add.commute)
qed

lemma py_lower_char_space: "py_lower_char (CHR '' '') = CHR '' ''"
  by code_simp

lemma word_char_space: "\<not> word_char (CHR '' '')"
  by code_simp

lemma returning_letters: "k < 9 \<Longrightarrow> ''returning'' ! k \<noteq> CHR '' ''"
  by (simp add: less_Suc_eq_0_disj eval_nat_numeral) auto

lemma keyword_at_mask:
  assumes "length ms = length s"
  shows "keyword_at (apply_mask ms s) i \<longleftrightarrow> keyword_at s i \<and> (\<forall>k < 9. ms ! (i + k))"
proof (cases "i + 9 \<le> length s")
  case True
  then have "apply_mask ms s ! (i + k) = (if ms ! (i + k) then s ! (i + k) else CHR '' '')" if "k < 9" for k
    using that assms by (intro nth_apply_mask) auto
  then have "py_lower_char (apply_mask ms s ! (i + k)) = ''returning'' ! k \<longleftrightarrow>
      ms ! (i + k) \<and> py_lower_char (s ! (i + k)) = ''returning'' ! k" if "k < 9" for k
    using returning_letters [OF that] that by (auto simp: py_lower_char_space)
  with True show ?thesis
    unfolding keyword_at_def length_apply_mask [OF assms] by blast
next
  case False
  then show ?thesis by (simp add: keyword_at_def length_apply_mask [OF assms])
qed

text \<open>
  C29. The RETURNING check of remote writes fires precisely when the nine letters occur, in any
  case, at top level of the statement and are not part of a longer top-level word; an occurrence
  inside a literal, a quoted identifier or a comment never triggers it, and blanking never creates
  one.
\<close>

theorem sql_mentions_returning_exact:
  "let ms = lex_sql Top sql; word = (\<lambda>p. ms ! p \<and> word_char (sql ! p)) in
   sql_mentions_returning sql \<longleftrightarrow>
     (\<exists>i. i + 9 \<le> length sql \<and>
        (\<forall>k < 9. ms ! (i + k) \<and> py_lower_char (sql ! (i + k)) = ''returning'' ! k) \<and>
        (0 < i \<longrightarrow> \<not> word (i - 1)) \<and> (i + 9 < length sql \<longrightarrow> \<not> word (i + 9)))"
proof -
  let ?ms = "lex_sql Top sql"
  have w: "word_char (apply_mask ?ms sql ! p) \<longleftrightarrow> ?ms ! p \<and> word_char (sql ! p)" if "p < length sql" for p
    using that by (simp add: nth_apply_mask word_char_space)
  have "sql_mentions_returning sql \<longleftrightarrow>
      (\<exists>i < length sql. (keyword_at sql i \<and> (\<forall>k < 9. ?ms ! (i + k))) \<and>
         (if i = 0 then \<not> False else \<not> word_char (apply_mask ?ms sql ! (i - 1))) \<and>
         (i + 9 < length sql \<longrightarrow> \<not> word_char (apply_mask ?ms sql ! (i + 9))))"
    unfolding sql_mentions_returning_def scan_sql_lex snd_conv search_returning_iff
    by (simp only: keyword_at_mask [OF length_lex] length_apply_mask [OF length_lex])
  also have "\<dots> \<longleftrightarrow> (\<exists>i. i + 9 \<le> length sql \<and>
        (\<forall>k < 9. ?ms ! (i + k) \<and> py_lower_char (sql ! (i + k)) = ''returning'' ! k) \<and>
        (0 < i \<longrightarrow> \<not> (?ms ! (i - 1) \<and> word_char (sql ! (i - 1)))) \<and>
        (i + 9 < length sql \<longrightarrow> \<not> (?ms ! (i + 9) \<and> word_char (sql ! (i + 9)))))"
    unfolding keyword_at_def using w by (intro ex_cong1) (auto; fastforce)
  finally show ?thesis by (simp add: Let_def)
qed

section \<open>Routing by the leading keyword\<close>

text \<open>White space and complete comments in front of a statement.\<close>

inductive blank_prefix :: "string \<Rightarrow> bool" where
  blank_none: "blank_prefix []"
| blank_space: "py_isspace c \<Longrightarrow> blank_prefix w \<Longrightarrow> blank_prefix (c # w)"
| blank_line: "CHR 0x0A \<notin> set c \<Longrightarrow> blank_prefix w \<Longrightarrow> blank_prefix (''--'' @ c @ nl @ w)"
| blank_block: "find_sub ''*/'' (c @ ''*/'') = Some (length c) \<Longrightarrow> blank_prefix w \<Longrightarrow>
    blank_prefix (''/*'' @ c @ ''*/'' @ w)"

lemma after_find_shift:
  "after_find (p @ s) (py_find (p @ s) pat (length p + i)) w = length p + after_find s (py_find s pat i) w"
  by (auto simp: after_find_def py_find_def split: option.splits)

lemma skip_blank_shift: "skip_blank (p @ s) (length p + i) = length p + skip_blank s i"
proof (induction s i rule: skip_blank.induct)
  case (1 s i)
  have "(p @ s) ! (length p + i) = s ! i" and "drop (length p + i) (p @ s) = drop i s" by simp_all
  with 1 show ?case
    by (simp add: skip_blank.simps [of "p @ s" "length p + i"] skip_blank.simps [of s i]
        after_find_shift [of p s _ "i + 2", simplified] after_find_shift add.assoc
        del: add_Suc_right add_2_eq_Suc add_2_eq_Suc')
qed

lemma keyword_end_shift: "keyword_end (p @ s) (length p + i) = length p + keyword_end s i"
proof (induction s i rule: keyword_end.induct)
  case (1 s i)
  then show ?case
    by (simp add: keyword_end.simps [of "p @ s" "length p + i"] keyword_end.simps [of s i])
qed

lemma leading_keyword_skip:
  assumes "skip_blank (p @ s) 0 = skip_blank (p @ s) (length p)"
  shows "leading_keyword (p @ s) = leading_keyword s"
  using assms skip_blank_shift [of p s 0] keyword_end_shift [of p s "skip_blank s 0"]
  by (simp add: leading_keyword_def Let_def)

lemma find_sub_nl: "CHR 0x0A \<notin> set c \<Longrightarrow> find_sub nl (c @ nl @ s) = Some (length c)"
  by (induction c) auto

lemma find_sub_append: "find_sub p a = Some k \<Longrightarrow> find_sub p (a @ s) = Some k"
proof (induction a arbitrary: k)
  case Nil
  then show ?case by (cases s) (auto split: if_splits)
next
  case (Cons c a)
  show ?case
  proof (cases "startswith (c # a) p")
    case True
    then have "startswith ((c # a) @ s) p"
      by (metis prefix_prefix startswith_iff_prefix)
    with True Cons.prems show ?thesis by simp
  next
    case False
    with Cons.prems obtain k' where k': "find_sub p a = Some k'" "k = Suc k'" by auto
    with find_sub_Some_le [OF k'(1)] have "length p \<le> length a" by simp
    then have "take (length p) ((c # a) @ s) = take (length p) (c # a)"
      by (subst take_append) simp
    with False have "\<not> startswith ((c # a) @ s) p" by (simp add: startswith_def)
    with False Cons.IH k' show ?thesis by simp
  qed
qed

lemma not_space: "\<not> py_isspace (CHR ''-'')" "\<not> py_isspace (CHR ''/'')"
  by code_simp+

lemma leading_keyword_blank: "blank_prefix w \<Longrightarrow> leading_keyword (w @ s) = leading_keyword s"
proof (induction rule: blank_prefix.induct)
  case blank_none
  then show ?case by simp
next
  case (blank_space c w)
  have "leading_keyword ([c] @ (w @ s)) = leading_keyword (w @ s)"
    by (rule leading_keyword_skip) (simp add: skip_blank.simps [of "c # w @ s" 0] blank_space.hyps(1))
  with blank_space.IH show ?case by simp
next
  case (blank_line c w)
  let ?t = "''--'' @ c @ nl" and ?u = "w @ s"
  have f: "py_find (?t @ ?u) nl 0 = Some (length c + 2)"
    using find_sub_nl [OF blank_line.hyps(1)] by (simp add: py_find_def)
  have "leading_keyword (?t @ ?u) = leading_keyword ?u"
    using f by (intro leading_keyword_skip)
      (simp add: skip_blank.simps [of _ 0] after_find_def not_space)
  with blank_line.IH show ?case by simp
next
  case (blank_block c w)
  let ?t = "''/*'' @ c @ ''*/''" and ?u = "w @ s"
  have f: "py_find (?t @ ?u) ''*/'' (Suc (Suc 0)) = Some (length c + 2)"
    using find_sub_append [OF blank_block.hyps(1)] by (simp add: py_find_def)
  have "leading_keyword (?t @ ?u) = leading_keyword ?u"
    using f by (intro leading_keyword_skip)
      (simp add: skip_blank.simps [of _ 0] after_find_def not_space)
  with blank_block.IH show ?case by simp
qed

lemma word_start_not_blank: "word_start_char c \<Longrightarrow> \<not> py_isspace c \<and> c \<noteq> CHR ''-'' \<and> c \<noteq> CHR ''/''"
proof -
  have "ord_of (CHR ''-'') = 45" "ord_of (CHR ''/'') = 47" "ord_of (CHR ''_'') = 95" by code_simp+
  then show "word_start_char c \<Longrightarrow> ?thesis"
    by (auto simp: word_start_char_def py_isalpha_def py_isspace_def Let_def)
qed

lemma keyword_end_word:
  "list_all word_start_char kw \<Longrightarrow> s = [] \<or> \<not> word_start_char (hd s) \<Longrightarrow>
     keyword_end (p @ kw @ s) (length p) = length p + length kw"
proof (induction kw arbitrary: p)
  case Nil
  then show ?case by (cases s) (auto simp: keyword_end.simps [of _ "length p"])
next
  case (Cons c kw)
  from Cons.IH [of "p @ [c]"] Cons.prems show ?case
    by (simp add: keyword_end.simps [of "p @ c # kw @ s" "length p"])
qed

text \<open>
  Routing looks through white space and complete comments: for a statement that starts
  with any mixture of them followed by a keyword, \<open>_leading_keyword\<close> is that keyword in lower case, and
  the statement takes the bounded write wait unless the keyword is one of the four read prefixes.
\<close>

lemma leading_keyword_routes:
  assumes "blank_prefix w" and "kw \<noteq> []" and "list_all word_start_char kw"
    and "s = [] \<or> \<not> word_start_char (hd s)"
  shows "leading_keyword (w @ kw @ s) = py_lower kw \<and>
    (guess_is_write (w @ kw @ s) \<longleftrightarrow> py_lower kw \<notin> read_prefixes)"
proof -
  obtain c cs where kw: "kw = c # cs" using assms(2) by (cases kw) auto
  with assms(3) have "word_start_char c" by simp
  then have "skip_blank (kw @ s) 0 = 0"
    using word_start_not_blank [of c] by (simp add: skip_blank.simps [of _ 0] kw)
  moreover have "keyword_end (kw @ s) 0 = length kw"
    using keyword_end_word [OF assms(3,4), of "[]"] by simp
  ultimately have "leading_keyword (kw @ s) = py_lower kw"
    by (simp add: leading_keyword_def)
  then show ?thesis
    using leading_keyword_blank [OF assms(1), of "kw @ s"] by (simp add: guess_is_write_def)
qed

lemma leading_keyword_routes_example:
  "leading_keyword (''/* x */ '' @ ''SELECT'' @ '' 1'') = py_lower ''SELECT'' \<and>
   (guess_is_write (''/* x */ '' @ ''SELECT'' @ '' 1'') \<longleftrightarrow> py_lower ''SELECT'' \<notin> read_prefixes)"
proof (rule leading_keyword_routes)
  have "blank_prefix (''/*'' @ '' x '' @ ''*/'' @ '' '')"
    by (rule blank_block, code_simp, rule blank_space, code_simp, rule blank_none)
  then show "blank_prefix ''/* x */ ''" by simp
  show "list_all word_start_char ''SELECT''" by code_simp
  show "'' 1'' = [] \<or> \<not> word_start_char (hd '' 1'')" by code_simp
qed simp

theorem scan_sql_exact_witness: "fst (scan_sql ''a;b'') \<and> snd (scan_sql ''a;b'') ! 2 = CHR ''b''"
proof -
  have m: "lex_sql Top ''a;b'' = [True, True, True]" by code_simp
  have sp: "\<not> py_isspace (CHR ''b'')" by code_simp
  obtain t s where r: "scan_sql ''a;b'' = (t, s)" by fastforce
  from scan_sql_exact [of "''a;b''"] r m
  have tail: "t \<longleftrightarrow> (\<exists>i j. i < j \<and> j < 3 \<and> [True, True, True] ! i \<and> ''a;b'' ! i = CHR '';'' \<and>
      [True, True, True] ! j \<and> ''a;b'' ! j \<noteq> CHR '';'' \<and> \<not> py_isspace (''a;b'' ! j))"
    and body: "\<forall>i < 3. s ! i = (if [True, True, True] ! i then ''a;b'' ! i else CHR '' '')"
    by (simp_all add: Let_def numeral_3_eq_3 del: lex_sql.simps)
  have "t" unfolding tail by (rule exI [of _ 1], rule exI [of _ 2]) (simp add: sp)
  moreover have "s ! 2 = CHR ''b''" using body [rule_format, of 2] by simp
  ultimately show ?thesis using r by simp
qed

theorem sql_mentions_returning_exact_witness: "sql_mentions_returning ''Returning''"
proof -
  have m: "lex_sql Top ''Returning'' = replicate 9 True" by code_simp
  have l: "py_lower ''Returning'' = ''returning''" by code_simp
  have "py_lower_char (''Returning'' ! k) = ''returning'' ! k" if "k < 9" for k
    using nth_map [of k "''Returning''" py_lower_char] that l [unfolded py_lower_def] by simp
  with sql_mentions_returning_exact [of "''Returning''"] m show ?thesis
    by (auto simp: Let_def intro!: exI [of _ 0])
qed

end
