(* ===== verification/Zx_Local.thy ===== *)
theory Zx_Local
  imports Zx_Node Zx_Lane Zx_Sql
begin

text \<open>
  The connection classes of \<open>dbapi.py\<close>: \<open>_BaseConnection\<close> (checks, cursors, the hooks of
  \<open>Cursor.execute\<close>, \<open>executemany\<close> and \<open>executescript\<close>) and \<open>Connection\<close>, the local embedded node with
  its Gate A (autocommit) and Gate C (live transaction) behaviour.

  A \<open>world\<close> is a connection and the cursor an operation works on. The native module is the parameter
  \<open>N\<close>, the calling thread's identity the parameter \<open>me\<close>. Every method that takes the lane is split at
  the point where it may wait: \<open>with_lane lane_env\<close> first lets other threads act, which is the
  function \<open>lane_env\<close>, and then either enters (the critical section runs alone, as \<open>Zx_Lane\<close> shows) or
  raises the error of an expired wait. The critical sections are the definitions named
  \<open>\<dots>_section\<close>. A call to a worker that was stopped never returns: outcome \<open>Blocked\<close>.
\<close>

section \<open>Connections and cursors\<close>

record base_conn =
  k_row_factory :: "row_factory option"
  k_check_same_thread :: bool
  k_owner_thread :: nat
  k_total_changes :: int
  k_closed :: bool

record 'n local_conn = base_conn +
  k_timeout :: rat
  k_transactional :: bool
  k_in_tx :: bool
  k_stops :: nat
  k_native :: 'n

record 'c world =
  conn :: 'c
  cur :: cursor

type_synonym 'n lworld = "'n local_conn world"

definition base_check :: "nat \<Rightarrow> 'a base_conn_scheme \<Rightarrow> unit pyres" where
  "base_check me c =
    raise_if (k_closed c) (exc ProgrammingError ''Cannot operate on a closed database.'')
    (raise_if (k_check_same_thread c \<and> me \<noteq> k_owner_thread c)
      (exc ProgrammingError ''zxlite objects created in a thread can only be used in that same thread. The object was created in thread id '')
    (Inr ()))"

definition conn_check :: "nat \<Rightarrow> ('a base_conn_scheme world, unit) py" where
  "conn_check me w = lift_res (base_check me (conn w)) w"

definition view_of :: "nat \<Rightarrow> 'a base_conn_scheme world \<Rightarrow> conn_view" where
  "view_of me w = \<lparr>cv_check = base_check me (conn w), cv_row_factory = k_row_factory (conn w)\<rparr>"

definition set_conn :: "('c \<Rightarrow> 'c) \<Rightarrow> ('c world, unit) py" where
  "set_conn f = modify_s (\<lambda>w. w\<lparr>conn := f (conn w)\<rparr>)"

definition set_cur :: "(cursor \<Rightarrow> cursor) \<Rightarrow> ('c world, unit) py" where
  "set_cur f = modify_s (\<lambda>w. w\<lparr>cur := f (cur w)\<rparr>)"

definition add_changes :: "int \<Rightarrow> ('a base_conn_scheme world, unit) py" where
  "add_changes n = set_conn (\<lambda>c. c\<lparr>k_total_changes := k_total_changes c + n\<rparr>)"

text \<open>\<open>_BaseConnection.cursor()\<close> with the default factory: the operation continues on a new cursor.\<close>

definition base_cursor :: "nat \<Rightarrow> ('a base_conn_scheme world, unit) py" where
  "base_cursor me = pbind (conn_check me) (\<lambda>_. set_cur (\<lambda>_. cursor_init))"

text \<open>\<open>Cursor.execute\<close>, \<open>executemany\<close> and \<open>executescript\<close>; the hook is the connection's part.\<close>

definition cursor_prologue :: "nat \<Rightarrow> pyobj \<Rightarrow> string \<Rightarrow> ('a base_conn_scheme world, string) py" where
  "cursor_prologue me sql name =
    pbind (\<lambda>w. lift_res (cursor_check (view_of me w) (cur w)) w) (\<lambda>_.
    case sql of
      PStr s \<Rightarrow> pbind (set_cur cursor_reset) (\<lambda>_. ret s)
    | _ \<Rightarrow> throw (exc ProgrammingError (name @ '' must be a str'')))"

definition cursor_execute ::
  "(string \<Rightarrow> pyobj \<Rightarrow> ('a base_conn_scheme world, unit) py) \<Rightarrow> nat \<Rightarrow> pyobj \<Rightarrow> pyobj \<Rightarrow> ('a base_conn_scheme world, unit) py" where
  "cursor_execute hook me sql parameters =
    pbind (cursor_prologue me sql ''sql'') (\<lambda>s. hook s parameters)"

definition cursor_executemany ::
  "(string \<Rightarrow> pyobj list \<Rightarrow> ('a base_conn_scheme world, unit) py) \<Rightarrow> nat \<Rightarrow> pyobj \<Rightarrow> pyobj list \<Rightarrow> ('a base_conn_scheme world, unit) py" where
  "cursor_executemany hook me sql seq_of_parameters =
    pbind (cursor_prologue me sql ''sql'') (\<lambda>s. hook s seq_of_parameters)"

definition cursor_executescript ::
  "(string \<Rightarrow> ('a base_conn_scheme world, unit) py) \<Rightarrow> nat \<Rightarrow> pyobj \<Rightarrow> ('a base_conn_scheme world, unit) py" where
  "cursor_executescript hook me sql_script = pbind (cursor_prologue me sql_script ''sql_script'') hook"

text \<open>The connection's own \<open>execute\<close>, \<open>executemany\<close> and \<open>executescript\<close>: a new cursor, then its method.\<close>

definition base_execute ::
  "(string \<Rightarrow> pyobj \<Rightarrow> ('a base_conn_scheme world, unit) py) \<Rightarrow> nat \<Rightarrow> pyobj \<Rightarrow> pyobj \<Rightarrow> ('a base_conn_scheme world, unit) py" where
  "base_execute hook me sql parameters = pbind (base_cursor me) (\<lambda>_. cursor_execute hook me sql parameters)"

definition base_executemany ::
  "(string \<Rightarrow> pyobj list \<Rightarrow> ('a base_conn_scheme world, unit) py) \<Rightarrow> nat \<Rightarrow> pyobj \<Rightarrow> pyobj list \<Rightarrow> ('a base_conn_scheme world, unit) py" where
  "base_executemany hook me sql seq_of_parameters =
    pbind (base_cursor me) (\<lambda>_. cursor_executemany hook me sql seq_of_parameters)"

definition base_executescript ::
  "(string \<Rightarrow> ('a base_conn_scheme world, unit) py) \<Rightarrow> nat \<Rightarrow> pyobj \<Rightarrow> ('a base_conn_scheme world, unit) py" where
  "base_executescript hook me sql_script = pbind (base_cursor me) (\<lambda>_. cursor_executescript hook me sql_script)"

text \<open>\<open>_BaseConnection.in_transaction\<close>, which a remote connection inherits: it has no transactions.\<close>

definition base_in_transaction :: "'a base_conn_scheme world \<Rightarrow> bool" where
  "base_in_transaction w = False"

definition total_changes :: "'a base_conn_scheme world \<Rightarrow> int" where
  "total_changes w = k_total_changes (conn w)"

section \<open>Native calls and the lane\<close>

text \<open>\<open>Connection._call\<close>.\<close>

definition call_native :: "('n \<Rightarrow> 'a nres \<times> 'n) \<Rightarrow> ('n lworld, 'a) py" where
  "call_native f w =
    (case worker_call (k_stops (conn w)) f (k_native (conn w)) of (r, n) \<Rightarrow>
      (case r of None \<Rightarrow> Blocked | Some r \<Rightarrow> native_outcome map_native_error r,
       w\<lparr>conn := (conn w)\<lparr>k_native := n\<rparr>\<rparr>))"

definition with_lane :: "('s \<Rightarrow> bool \<times> 's) \<Rightarrow> bool \<Rightarrow> ('s, 'a) py \<Rightarrow> ('s, 'a) py" where
  "with_lane lane_env write body w =
    (case lane_env w of (entered, w') \<Rightarrow> if entered then body w' else (Raise (lane_error write), w'))"

text \<open>\<open>Connection.__init__\<close>: the worker of a connection that fails to open is stopped.\<close>

definition conn_open :: "'n native \<Rightarrow> local_plan \<Rightarrow> nat \<Rightarrow> 'n \<Rightarrow> unit outcome \<times> 'n lworld" where
  "conn_open N plan me n =
    (let w = \<lparr>conn = \<lparr>k_row_factory = None, k_check_same_thread = l_check_same_thread plan,
           k_owner_thread = me, k_total_changes = 0, k_closed = False, k_timeout = l_timeout plan,
           k_transactional = l_transactional plan, k_in_tx = False, k_stops = 0, k_native = n\<rparr>,
         cur = cursor_init\<rparr>
     in catch (call_native (nv_open N (l_path plan)))
          (\<lambda>e. pbind (set_conn (\<lambda>c. c\<lparr>k_stops := worker_stop (k_stops c)\<rparr>)) (\<lambda>_. throw e)) w)"

section \<open>Parameters\<close>

definition named_parameter :: "'n native \<Rightarrow> string \<Rightarrow> (pyobj \<times> pyobj) list \<Rightarrow> int \<Rightarrow> ('n lworld, pyobj) py" where
  "named_parameter N sql items index =
    pbind (call_native (nv_parameter_name N sql index)) (\<lambda>name.
      if name = [] \<or> hd name \<notin> set '':@$'' then throw (exc ProgrammingError ''Binding '')
      else (case map_of items (PStr (tl name)) of
          None \<Rightarrow> throw (exc ProgrammingError ''You did not supply a value for binding parameter '')
        | Some v \<Rightarrow> ret v))"

definition resolve_parameters :: "'n native \<Rightarrow> string \<Rightarrow> int \<Rightarrow> pyobj \<Rightarrow> ('n lworld, pyobj list) py" where
  "resolve_parameters N sql expected parameters =
    (case parameters of
       PDict items \<Rightarrow> for_each (named_parameter N sql items) [1 .. expected]
     | _ \<Rightarrow> pbind (lift_res (normalize_parameters parameters)) (\<lambda>params.
         if expected \<noteq> int (length params)
         then throw (exc ProgrammingError ''Incorrect number of bindings supplied. The current statement uses '')
         else ret params))"

section \<open>Transactions\<close>

definition set_in_tx :: "bool \<Rightarrow> ('n lworld, unit) py" where
  "set_in_tx b = set_conn (\<lambda>c. c\<lparr>k_in_tx := b\<rparr>)"

definition begin_if_needed :: "'n native \<Rightarrow> ('n lworld, unit) py" where
  "begin_if_needed N w =
    (if k_in_tx (conn w) then ret () w
     else pbind (call_native (nv_live_begin N)) (\<lambda>_. set_in_tx True) w)"

definition commit_section :: "'n native \<Rightarrow> ('n lworld, unit) py" where
  "commit_section N = pbind (call_native (nv_live_commit N)) (\<lambda>_. set_in_tx False)"

definition rollback_section :: "'n native \<Rightarrow> ('n lworld, unit) py" where
  "rollback_section N = pbind (call_native (nv_live_rollback N)) (\<lambda>_. set_in_tx False)"

definition if_in_tx :: "('n lworld, unit) py \<Rightarrow> ('n lworld, unit) py" where
  "if_in_tx m w = (if k_transactional (conn w) \<and> k_in_tx (conn w) then m w else ret () w)"

definition conn_commit :: "'n native \<Rightarrow> nat \<Rightarrow> ('n lworld \<Rightarrow> bool \<times> 'n lworld) \<Rightarrow> ('n lworld, unit) py" where
  "conn_commit N me lane_env =
    pbind (conn_check me) (\<lambda>_. if_in_tx (with_lane lane_env True (commit_section N)))"

definition conn_rollback :: "'n native \<Rightarrow> nat \<Rightarrow> ('n lworld \<Rightarrow> bool \<times> 'n lworld) \<Rightarrow> ('n lworld, unit) py" where
  "conn_rollback N me lane_env =
    pbind (conn_check me) (\<lambda>_. if_in_tx (with_lane lane_env True (rollback_section N)))"

definition close_section :: "'n native \<Rightarrow> ('n lworld, unit) py" where
  "close_section N =
    pbind (set_conn (\<lambda>c. c\<lparr>k_closed := True\<rparr>)) (\<lambda>_.
    finally_do
      (pbind (if_in_tx (finally_do (call_native (nv_live_rollback N)) (set_in_tx False))) (\<lambda>_.
        call_native (nv_close N)))
      (set_conn (\<lambda>c. c\<lparr>k_stops := worker_stop (k_stops c)\<rparr>)))"

definition conn_close :: "'n native \<Rightarrow> nat \<Rightarrow> ('n lworld \<Rightarrow> bool \<times> 'n lworld) \<Rightarrow> ('n lworld, unit) py" where
  "conn_close N me lane_env w =
    (if k_closed (conn w) then ret () w
     else pbind (conn_check me) (\<lambda>_. with_lane lane_env False (close_section N)) w)"

definition conn_enter :: "nat \<Rightarrow> ('n lworld, unit) py" where
  "conn_enter me = conn_check me"

text \<open>\<open>__exit__\<close>: commit on success, roll back on an exception, which then propagates.\<close>

definition conn_exit :: "'n native \<Rightarrow> nat \<Rightarrow> ('n lworld \<Rightarrow> bool \<times> 'n lworld) \<Rightarrow> bool \<Rightarrow> ('n lworld, bool) py" where
  "conn_exit N me lane_env failed w =
    (if k_closed (conn w) then ret False w
     else pbind (if failed then conn_rollback N me lane_env else conn_commit N me lane_env) (\<lambda>_. ret False) w)"

definition in_transaction :: "'n lworld \<Rightarrow> bool" where
  "in_transaction w = k_in_tx (conn w)"

section \<open>Statements\<close>

text \<open>The common tail of a write: row count, total, row id and \<open>RETURNING\<close> rows.\<close>

definition install_write :: "write_result \<Rightarrow> ('n lworld, unit) py" where
  "install_write r =
    (case r of (changes, lastrowid, replayed, returning) \<Rightarrow>
      pbind (set_cur (\<lambda>c. c\<lparr>c_rowcount := changes\<rparr>)) (\<lambda>_.
      pbind (add_changes changes) (\<lambda>_.
      pbind (case lastrowid of None \<Rightarrow> ret () | Some i \<Rightarrow> set_cur (\<lambda>c. c\<lparr>c_lastrowid := Some i\<rparr>)) (\<lambda>_.
      case returning of None \<Rightarrow> ret () | Some (names, rows) \<Rightarrow> set_cur (load_returning_result names rows)))))"

definition live_statement :: "'n native \<Rightarrow> string \<Rightarrow> pyobj list \<Rightarrow> bool \<Rightarrow> ('n lworld, unit) py" where
  "live_statement N sql params read_only =
    pbind (begin_if_needed N) (\<lambda>_.
    pbind (call_native (nv_live_exec N sql params)) (\<lambda>r.
    if read_only then
      (case snd (snd (snd r)) of
         None \<Rightarrow> set_cur (load_read_result [] [])
       | Some (names, rows) \<Rightarrow> set_cur (load_read_result names rows))
    else install_write r))"

definition execute_section :: "'n native \<Rightarrow> string \<Rightarrow> pyobj \<Rightarrow> ('n lworld, unit) py" where
  "execute_section N sql parameters =
    pbind (call_native (nv_describe N sql)) (\<lambda>(parameter_count, _, read_only, has_tail).
    pbind (guard_not has_tail
      (exc ProgrammingError ''execute() accepts one statement; use executescript()'')) (\<lambda>_.
    pbind (resolve_parameters N sql parameter_count parameters) (\<lambda>params w.
      if k_transactional (conn w) \<and> (k_in_tx (conn w) \<or> \<not> read_only) then
        live_statement N sql params read_only w
      else if read_only then
        pbind (call_native (nv_query N sql params)) (\<lambda>(names, rows). set_cur (load_read_result names rows)) w
      else pbind (call_native (nv_exec N sql params)) install_write w)))"

definition local_execute ::
  "'n native \<Rightarrow> ('n lworld \<Rightarrow> bool \<times> 'n lworld) \<Rightarrow> string \<Rightarrow> pyobj \<Rightarrow> ('n lworld, unit) py" where
  "local_execute N lane_env sql parameters =
    with_lane lane_env (guess_is_write sql) (execute_section N sql parameters)"

definition if_transactional :: "('n lworld, 'a) py \<Rightarrow> ('n lworld, 'a) py \<Rightarrow> ('n lworld, 'a) py" where
  "if_transactional m m' w = (if k_transactional (conn w) then m w else m' w)"

text \<open>The Gate C and Gate A loops of \<open>_cursor_executemany\<close>.\<close>

fun live_batch :: "'n native \<Rightarrow> string \<Rightarrow> pyobj list list \<Rightarrow> int \<Rightarrow> ('n lworld, int) py" where
  "live_batch N sql [] acc = ret acc"
| "live_batch N sql (params # rest) acc =
     pbind (call_native (nv_live_exec N sql params)) (\<lambda>r. live_batch N sql rest (acc + fst r))"

definition tx_batch :: "'n native \<Rightarrow> string \<Rightarrow> pyobj list list \<Rightarrow> ('n lworld, int) py" where
  "tx_batch N sql resolved =
    pbind (call_native (nv_begin N)) (\<lambda>tx.
    finally_do
      (pbind (for_each (\<lambda>params. call_native (nv_tx_exec N tx sql params)) resolved) (\<lambda>_.
        call_native (nv_tx_commit N tx)))
      (call_native (nv_tx_close N tx)))"

definition executemany_section :: "'n native \<Rightarrow> string \<Rightarrow> pyobj list \<Rightarrow> ('n lworld, unit) py" where
  "executemany_section N sql batches =
    pbind (call_native (nv_describe N sql)) (\<lambda>(parameter_count, _, read_only, has_tail).
    pbind (guard_not has_tail
      (exc ProgrammingError ''executemany() accepts one statement; use executescript()'')) (\<lambda>_.
    pbind (guard_not read_only
      (exc ProgrammingError ''executemany() can only execute DML statements.'')) (\<lambda>_.
    pbind (for_each (resolve_parameters N sql parameter_count) batches) (\<lambda>resolved.
      if resolved = [] then set_cur (\<lambda>c. c\<lparr>c_rowcount := 0\<rparr>)
      else pbind
        (if_transactional
          (pbind (begin_if_needed N) (\<lambda>_. live_batch N sql resolved 0))
          (tx_batch N sql resolved))
        (\<lambda>changes. pbind (set_cur (\<lambda>c. c\<lparr>c_rowcount := changes\<rparr>)) (\<lambda>_. add_changes changes))))))"

definition local_executemany ::
  "'n native \<Rightarrow> ('n lworld \<Rightarrow> bool \<times> 'n lworld) \<Rightarrow> string \<Rightarrow> pyobj list \<Rightarrow> ('n lworld, unit) py" where
  "local_executemany N lane_env sql batches =
    with_lane lane_env True (executemany_section N sql batches)"

definition executescript_section :: "'n native \<Rightarrow> string \<Rightarrow> ('n lworld, unit) py" where
  "executescript_section N sql_script =
    pbind (if_in_tx (commit_section N)) (\<lambda>_.
    pbind (call_native (nv_exec_script N sql_script)) add_changes)"

definition local_executescript ::
  "'n native \<Rightarrow> ('n lworld \<Rightarrow> bool \<times> 'n lworld) \<Rightarrow> string \<Rightarrow> ('n lworld, unit) py" where
  "local_executescript N lane_env sql_script =
    with_lane lane_env True (executescript_section N sql_script)"

section \<open>Savepoints and the zaxonlite-specific surface\<close>

definition savepoint_section :: "'n native \<Rightarrow> int \<Rightarrow> ('n lworld, unit) py" where
  "savepoint_section N index =
    pbind (begin_if_needed N) (\<lambda>_. call_native (nv_live_savepoint N index))"

definition savepoint :: "'n native \<Rightarrow> nat \<Rightarrow> ('n lworld \<Rightarrow> bool \<times> 'n lworld) \<Rightarrow> int \<Rightarrow> ('n lworld, unit) py" where
  "savepoint N me lane_env index =
    pbind (conn_check me) (\<lambda>_ w.
      if \<not> k_transactional (conn w)
      then throw (exc ProgrammingError ''savepoints require a Gate C transactional connection'') w
      else with_lane lane_env True (savepoint_section N index) w)"

text \<open>A checked method that is one native call inside the lane.\<close>

definition lane_call ::
  "nat \<Rightarrow> ('n lworld \<Rightarrow> bool \<times> 'n lworld) \<Rightarrow> bool \<Rightarrow> ('n \<Rightarrow> 'a nres \<times> 'n) \<Rightarrow> ('n lworld, 'a) py" where
  "lane_call me lane_env write f = pbind (conn_check me) (\<lambda>_. with_lane lane_env write (call_native f))"

definition release_savepoint :: "'n native \<Rightarrow> nat \<Rightarrow> ('n lworld \<Rightarrow> bool \<times> 'n lworld) \<Rightarrow> int \<Rightarrow> ('n lworld, unit) py" where
  "release_savepoint N me lane_env index = lane_call me lane_env True (nv_live_release_savepoint N index)"

definition rollback_to_savepoint :: "'n native \<Rightarrow> nat \<Rightarrow> ('n lworld \<Rightarrow> bool \<times> 'n lworld) \<Rightarrow> int \<Rightarrow> ('n lworld, unit) py" where
  "rollback_to_savepoint N me lane_env index =
     lane_call me lane_env True (nv_live_rollback_to_savepoint N index)"

definition local_query ::
  "'n native \<Rightarrow> nat \<Rightarrow> ('n lworld \<Rightarrow> bool \<times> 'n lworld) \<Rightarrow> pyobj \<Rightarrow> pyobj \<Rightarrow> string option \<Rightarrow> int option \<Rightarrow> ('n lworld, unit) py" where
  "local_query N me lane_env sql parameters read_level freshness_ms =
    pbind (conn_check me) (\<lambda>_.
    pbind (guard_not (read_level \<noteq> None \<or> freshness_ms \<noteq> None)
      (exc ProgrammingError ''read_level and freshness_ms apply to remote connections; a local connection rejects them'')) (\<lambda>_.
    pbind (base_cursor me) (\<lambda>_. cursor_execute (local_execute N lane_env) me sql parameters)))"

definition snapshot :: "'n native \<Rightarrow> nat \<Rightarrow> ('n lworld \<Rightarrow> bool \<times> 'n lworld) \<Rightarrow> ('n lworld, unit) py" where
  "snapshot N me lane_env = lane_call me lane_env True (nv_snapshot N)"

definition backup :: "'n native \<Rightarrow> nat \<Rightarrow> ('n lworld \<Rightarrow> bool \<times> 'n lworld) \<Rightarrow> string \<Rightarrow> ('n lworld, unit) py" where
  "backup N me lane_env path = lane_call me lane_env True (nv_backup N path)"

definition integrity_check :: "'n native \<Rightarrow> nat \<Rightarrow> ('n lworld \<Rightarrow> bool \<times> 'n lworld) \<Rightarrow> ('n lworld, unit) py" where
  "integrity_check N me lane_env = lane_call me lane_env False (nv_integrity_check N)"

definition open_session :: "'n native \<Rightarrow> nat \<Rightarrow> ('n lworld \<Rightarrow> bool \<times> 'n lworld) \<Rightarrow> ('n lworld, int) py" where
  "open_session N me lane_env = lane_call me lane_env True (nv_session_open N)"

definition idempotent_section :: "'n native \<Rightarrow> int \<Rightarrow> int \<Rightarrow> string \<Rightarrow> ('n lworld, int \<times> bool) py" where
  "idempotent_section N session sequence sql =
    pbind (call_native (nv_exec_idempotent N session sequence sql)) (\<lambda>(changes, replayed).
    pbind (if replayed then ret () else add_changes changes) (\<lambda>_. ret (changes, replayed)))"

definition execute_idempotent ::
  "'n native \<Rightarrow> nat \<Rightarrow> ('n lworld \<Rightarrow> bool \<times> 'n lworld) \<Rightarrow> int \<Rightarrow> int \<Rightarrow> string \<Rightarrow> ('n lworld, int \<times> bool) py" where
  "execute_idempotent N me lane_env session sequence sql =
    pbind (conn_check me) (\<lambda>_. with_lane lane_env True (idempotent_section N session sequence sql))"

definition expire_sessions :: "'n native \<Rightarrow> nat \<Rightarrow> ('n lworld \<Rightarrow> bool \<times> 'n lworld) \<Rightarrow> int \<Rightarrow> ('n lworld, int) py" where
  "expire_sessions N me lane_env retain = lane_call me lane_env True (nv_expire_sessions N retain)"

definition local_search ::
  "'n native \<Rightarrow> nat \<Rightarrow> ('n lworld \<Rightarrow> bool \<times> 'n lworld) \<Rightarrow> (pyobj \<Rightarrow> rat pyres) \<Rightarrow> search_request \<Rightarrow>
     string option \<Rightarrow> int option \<Rightarrow> ('n lworld, unit) py" where
  "local_search N me lane_env py_float q read_level freshness_ms =
    pbind (conn_check me) (\<lambda>_.
    pbind (guard_not (read_level \<noteq> None \<or> freshness_ms \<noteq> None)
      (exc ProgrammingError ''read_level and freshness_ms apply to remote connections; a local connection rejects them'')) (\<lambda>_.
    pbind (lift_res (search_arguments py_float q)) (\<lambda>arguments.
    pbind (with_lane lane_env False (call_native (nv_search N arguments))) (\<lambda>(names, rows).
    pbind (base_cursor me) (\<lambda>_. set_cur (load_read_result names rows))))))"

section \<open>All interleavings of one connection\<close>

text \<open>
  The critical sections that threads sharing a connection run one after another. A savepoint section
  is entered only on a transactional connection: the flag is tested before the lane and never changes.
\<close>

datatype section_op =
    SCommit | SRollback | SClose
  | SExecute string pyobj | SExecutemany string "pyobj list" | SScript string
  | SSavepoint int | SRelease int | SRollbackTo int
  | SSnapshot | SBackup string | SIntegrity | SOpenSession
  | SIdempotent int int string | SExpire int | SSearch search_native

definition drop_result :: "('s, 'a) py \<Rightarrow> ('s, unit) py" where
  "drop_result m = pbind m (\<lambda>_. ret ())"

fun run_section :: "'n native \<Rightarrow> section_op \<Rightarrow> ('n lworld, unit) py" where
  "run_section N SCommit = commit_section N"
| "run_section N SRollback = rollback_section N"
| "run_section N SClose = close_section N"
| "run_section N (SExecute sql ps) = execute_section N sql ps"
| "run_section N (SExecutemany sql bs) = executemany_section N sql bs"
| "run_section N (SScript sql) = executescript_section N sql"
| "run_section N (SSavepoint i) = savepoint_section N i"
| "run_section N (SRelease i) = call_native (nv_live_release_savepoint N i)"
| "run_section N (SRollbackTo i) = call_native (nv_live_rollback_to_savepoint N i)"
| "run_section N SSnapshot = call_native (nv_snapshot N)"
| "run_section N (SBackup path) = call_native (nv_backup N path)"
| "run_section N SIntegrity = call_native (nv_integrity_check N)"
| "run_section N SOpenSession = drop_result (call_native (nv_session_open N))"
| "run_section N (SIdempotent a b sql) = drop_result (idempotent_section N a b sql)"
| "run_section N (SExpire n) = drop_result (call_native (nv_expire_sessions N n))"
| "run_section N (SSearch q) = drop_result (call_native (nv_search N q))"

definition section_enabled :: "section_op \<Rightarrow> 'n lworld \<Rightarrow> bool" where
  "section_enabled op w = (case op of SSavepoint _ \<Rightarrow> k_transactional (conn w) | _ \<Rightarrow> True)"

inductive local_step :: "'n native \<Rightarrow> 'n lworld \<Rightarrow> 'n lworld \<Rightarrow> bool" for N where
  step_section: "section_enabled op w \<Longrightarrow> local_step N w (snd (run_section N op w))"
| step_cursor: "local_step N w (w\<lparr>cur := c\<rparr>)"
| step_factory: "local_step N w (w\<lparr>conn := (conn w)\<lparr>k_row_factory := f\<rparr>\<rparr>)"

inductive_cases local_stepE: "local_step N w w'"

definition local_start :: "'n native \<Rightarrow> 'n lworld \<Rightarrow> bool" where
  "local_start N w \<longleftrightarrow> (\<exists>plan me n. conn_open N plan me n = (Return (), w))"

text \<open>
  The invariant that ties the Python flags to the native state: a native transaction is open only
  if \<open>in_transaction\<close> says so, only Gate C connections have one, a connection is closed exactly when
  its worker has been told to stop, and a closed connection has no transaction.
\<close>

definition conn_inv :: "('n \<Rightarrow> bool) \<Rightarrow> 'n lworld \<Rightarrow> bool" where
  "conn_inv live w \<longleftrightarrow>
     (live (k_native (conn w)) \<longrightarrow> k_in_tx (conn w)) \<and>
     (k_in_tx (conn w) \<longrightarrow> k_transactional (conn w)) \<and>
     (k_closed (conn w) \<longleftrightarrow> 0 < k_stops (conn w)) \<and>
     (k_closed (conn w) \<longrightarrow> \<not> k_in_tx (conn w))"

lemma call_native_running:
  "k_stops (conn w) = 0 \<Longrightarrow> call_native f w =
     (native_outcome map_native_error (fst (f (k_native (conn w)))),
      w\<lparr>conn := (conn w)\<lparr>k_native := snd (f (k_native (conn w)))\<rparr>\<rparr>)"
  by (simp add: call_native_def)

lemma call_native_stopped: "0 < k_stops (conn w) \<Longrightarrow> call_native f w = (Blocked, w)"
  by (simp add: call_native_def)

lemma drop_result_snd [simp]: "snd (drop_result m w) = snd (m w)"
  by (auto simp: drop_result_def py_defs split: prod.splits outcome.splits)

lemma keeps_drop [keeps_intros]: "keeps P m \<Longrightarrow> keeps P (drop_result m)"
  by (simp add: keeps_def)

text \<open>The invariant together with the value of the immutable flag.\<close>

definition gate_inv :: "('n \<Rightarrow> bool) \<Rightarrow> bool \<Rightarrow> 'n lworld \<Rightarrow> bool" where
  "gate_inv live b w \<longleftrightarrow> conn_inv live w \<and> k_transactional (conn w) = b"

lemmas inv_defs = gate_inv_def conn_inv_def

lemma keeps_cur [keeps_intros]:
  "keeps (gate_inv live b) (set_cur f)"
  "keeps (gate_inv live b) (add_changes n)"
  by (auto simp: keeps_def set_cur_def add_changes_def set_conn_def modify_s_def inv_defs)

lemma keeps_if_in_tx [keeps_intros]: "keeps P m \<Longrightarrow> keeps P (if_in_tx m)"
  by (simp add: keeps_def if_in_tx_def ret_def)

lemma keeps_if_transactional:
  "(b \<Longrightarrow> keeps (gate_inv live b) m) \<Longrightarrow> (\<not> b \<Longrightarrow> keeps (gate_inv live b) m') \<Longrightarrow>
     keeps (gate_inv live b) (if_transactional m m')"
  unfolding keeps_def if_transactional_def gate_inv_def by (cases b) simp_all

lemma keeps_if_transactional_and:
  "(b \<Longrightarrow> keeps (gate_inv live b) m) \<Longrightarrow> keeps (gate_inv live b) m' \<Longrightarrow>
     keeps (gate_inv live b) (\<lambda>w. if k_transactional (conn w) \<and> c w then m w else m' w)"
  unfolding keeps_def gate_inv_def by (cases b) simp_all

lemma keeps_if_fun [keeps_intros]:
  "(c \<Longrightarrow> keeps P m) \<Longrightarrow> (\<not> c \<Longrightarrow> keeps P m') \<Longrightarrow> keeps P (\<lambda>w. if c then m w else m' w)"
  by (simp add: keeps_def)

lemma conn_open_Return:
  assumes "conn_open N plan me n = (Return (), w)"
  shows "conn w = \<lparr>k_row_factory = None, k_check_same_thread = l_check_same_thread plan,
      k_owner_thread = me, k_total_changes = 0, k_closed = False, k_timeout = l_timeout plan,
      k_transactional = l_transactional plan, k_in_tx = False, k_stops = 0,
      k_native = snd (nv_open N (l_path plan) n)\<rparr>"
proof (cases "fst (nv_open N (l_path plan) n)")
  case (Inl e)
  with assms show ?thesis
    by (cases e) (auto simp: conn_open_def Let_def catch_def call_native_def native_outcome_def pbind_def
        set_conn_def modify_s_def throw_def)
next
  case (Inr u)
  with assms show ?thesis
    by (auto simp: conn_open_def Let_def catch_def call_native_def native_outcome_def)
qed

lemma keeps_install [keeps_intros]: "keeps (gate_inv live b) (install_write r)"
  unfolding install_write_def by (intro keeps_intros)

context live_native
begin

lemma keeps_call:
  assumes "\<And>n. live (snd (f n)) \<Longrightarrow> live n"
  shows "keeps (gate_inv live b) (call_native f)"
  unfolding keeps_def
proof (intro allI impI)
  fix w :: "'n lworld"
  assume "gate_inv live b w"
  with assms [of "k_native (conn w)"] show "gate_inv live b (snd (call_native f w))"
    by (cases "k_stops (conn w) = 0") (auto simp: call_native_running call_native_stopped inv_defs)
qed

lemma keeps_calls [keeps_intros]:
  "keeps (gate_inv live b) (call_native (nv_describe N sql))"
  "keeps (gate_inv live b) (call_native (nv_parameter_name N sql i))"
  "keeps (gate_inv live b) (call_native (nv_query N sql ps))"
  "keeps (gate_inv live b) (call_native (nv_exec N sql ps))"
  "keeps (gate_inv live b) (call_native (nv_exec_script N sql))"
  "keeps (gate_inv live b) (call_native (nv_begin N))"
  "keeps (gate_inv live b) (call_native (nv_tx_exec N tx sql ps))"
  "keeps (gate_inv live b) (call_native (nv_tx_commit N tx))"
  "keeps (gate_inv live b) (call_native (nv_tx_close N tx))"
  "keeps (gate_inv live b) (call_native (nv_live_savepoint N i))"
  "keeps (gate_inv live b) (call_native (nv_live_release_savepoint N i))"
  "keeps (gate_inv live b) (call_native (nv_live_rollback_to_savepoint N i))"
  "keeps (gate_inv live b) (call_native (nv_snapshot N))"
  "keeps (gate_inv live b) (call_native (nv_backup N path))"
  "keeps (gate_inv live b) (call_native (nv_integrity_check N))"
  "keeps (gate_inv live b) (call_native (nv_session_open N))"
  "keeps (gate_inv live b) (call_native (nv_exec_idempotent N s q sql))"
  "keeps (gate_inv live b) (call_native (nv_expire_sessions N i))"
  "keeps (gate_inv live b) (call_native (nv_search N request))"
  by (rule keeps_call, simp add: keep_live)+

lemma keeps_live_calls [keeps_intros]:
  "keeps (gate_inv live b) (call_native (nv_live_exec N sql ps))"
  "keeps (gate_inv live b) (call_native (nv_live_commit N))"
  "keeps (gate_inv live b) (call_native (nv_live_rollback N))"
  by (rule keeps_call; use stays_ended rollback_ends in blast)+

lemma begin_if_needed_inv [keeps_intros]: "keeps (gate_inv live True) (begin_if_needed N)"
  unfolding keeps_def
proof (intro allI impI)
  fix w :: "'n lworld"
  assume w: "gate_inv live True w"
  obtain r n where c: "nv_live_begin N (k_native (conn w)) = (r, n)" by fastforce
  show "gate_inv live True (snd (begin_if_needed N w))"
  proof (cases "k_stops (conn w) = 0 \<and> \<not> k_in_tx (conn w)")
    case True
    with w c show ?thesis
      by (cases r) (auto simp: begin_if_needed_def pbind_def call_native_running native_outcome_def
          set_in_tx_def set_conn_def modify_s_def inv_defs dest: begin_ok begin_fail split: native_exc.splits)
  next
    case False
    with w show ?thesis
      by (auto simp: begin_if_needed_def pbind_def ret_def call_native_stopped)
  qed
qed

text \<open>A native call that leaves no transaction open, followed by clearing the flag.\<close>

lemma keeps_call_clear:
  assumes "\<And>n. live (snd (f n)) \<Longrightarrow> live n" and "\<And>n a n'. f n = (Inr a, n') \<Longrightarrow> \<not> live n'"
  shows "keeps (gate_inv live b) (pbind (call_native f) (\<lambda>_. set_in_tx False))"
  unfolding keeps_def
proof (intro allI impI)
  fix w :: "'n lworld"
  assume w: "gate_inv live b w"
  obtain r n where c: "f (k_native (conn w)) = (r, n)" by fastforce
  show "gate_inv live b (snd (pbind (call_native f) (\<lambda>_. set_in_tx False) w))"
  proof (cases "k_stops (conn w) = 0")
    case True
    with w c assms(1) [of "k_native (conn w)"] show ?thesis
      by (cases r) (auto simp: pbind_def call_native_running native_outcome_def set_in_tx_def set_conn_def
          modify_s_def inv_defs dest: assms(2) split: native_exc.splits)
  next
    case False
    with w show ?thesis by (simp add: pbind_def call_native_stopped)
  qed
qed

lemma commit_section_inv [keeps_intros]: "keeps (gate_inv live b) (commit_section N)"
  unfolding commit_section_def
  by (rule keeps_call_clear) (use stays_ended commit_ok in blast)+

lemma rollback_section_inv [keeps_intros]: "keeps (gate_inv live b) (rollback_section N)"
  unfolding rollback_section_def
  by (rule keeps_call_clear) (use rollback_ends in \<open>auto simp: prod_eq_iff\<close>)

text \<open>The two halves of the close section.\<close>

lemma close_section_inv [keeps_intros]: "keeps (gate_inv live b) (close_section N)"
  unfolding keeps_def
proof (intro allI impI)
  fix w :: "'n lworld"
  assume w: "gate_inv live b w"
  let ?n = "k_native (conn w)"
  obtain r n1 where c: "nv_live_rollback N ?n = (r, n1)" by fastforce
  have n1: "\<not> live n1" using rollback_ends [of ?n] c by simp
  have cl: "\<not> live n \<Longrightarrow> \<not> live (snd (nv_close N n))" for n using close_keeps by blast
  show "gate_inv live b (snd (close_section N w))"
  proof (cases "k_stops (conn w) = 0")
    case running: True
    show ?thesis
    proof (cases "k_transactional (conn w) \<and> k_in_tx (conn w)")
      case True
      with running w c n1 cl [OF n1] show ?thesis
        by (cases r)
          (auto simp: close_section_def py_defs if_in_tx_def call_native_def native_outcome_def set_in_tx_def
            set_conn_def inv_defs worker_stop_def split: native_exc.splits sum.splits)
    next
      case False
      with running w cl [of ?n] show ?thesis
        by (auto simp: close_section_def py_defs if_in_tx_def call_native_def native_outcome_def set_conn_def
            inv_defs worker_stop_def split: native_exc.splits sum.splits)
    qed
  next
    case False
    with w show ?thesis
      by (auto simp: close_section_def py_defs if_in_tx_def call_native_stopped set_conn_def inv_defs)
  qed
qed

lemma live_statement_inv: "keeps (gate_inv live True) (live_statement N sql ps ro)"
  unfolding live_statement_def by (intro keeps_intros)

lemma resolve_parameters_inv [keeps_intros]: "keeps (gate_inv live b) (resolve_parameters N sql n ps)"
  unfolding resolve_parameters_def named_parameter_def
  by (cases ps) (simp, intro keeps_intros)+

lemma execute_section_inv [keeps_intros]: "keeps (gate_inv live b) (execute_section N sql ps)"
  unfolding execute_section_def
  by (intro keeps_intros keeps_if_transactional_and keeps_if) (auto intro: live_statement_inv)

lemma live_batch_inv [keeps_intros]: "keeps (gate_inv live b) (live_batch N sql bs acc)"
  by (induction bs arbitrary: acc) (auto intro!: keeps_intros)

lemma tx_batch_inv [keeps_intros]: "keeps (gate_inv live b) (tx_batch N sql bs)"
  unfolding tx_batch_def by (intro keeps_intros)

lemma executemany_section_inv [keeps_intros]: "keeps (gate_inv live b) (executemany_section N sql bs)"
  unfolding executemany_section_def
  by (intro keeps_intros keeps_if_transactional) (auto intro: begin_if_needed_inv)

lemma executescript_section_inv [keeps_intros]: "keeps (gate_inv live b) (executescript_section N sql)"
  unfolding executescript_section_def by (intro keeps_intros)

lemma idempotent_section_inv [keeps_intros]: "keeps (gate_inv live b) (idempotent_section N s q sql)"
  unfolding idempotent_section_def by (intro keeps_intros)

lemma savepoint_section_inv: "keeps (gate_inv live True) (savepoint_section N i)"
  unfolding savepoint_section_def by (intro keeps_intros)

lemma keeps_run_section:
  assumes "\<And>i. op = SSavepoint i \<Longrightarrow> b"
  shows "keeps (gate_inv live b) (run_section N op)"
proof (cases op)
  case (SSavepoint i)
  with assms savepoint_section_inv show ?thesis by simp
qed (simp_all only: run_section.simps keeps_drop commit_section_inv rollback_section_inv close_section_inv
    execute_section_inv executemany_section_inv executescript_section_inv idempotent_section_inv keeps_calls)

lemma run_section_inv:
  assumes "conn_inv live w" and "section_enabled op w"
  shows "conn_inv live (snd (run_section N op w))"
proof -
  have "keeps (gate_inv live (k_transactional (conn w))) (run_section N op)"
    by (rule keeps_run_section) (use assms(2) in \<open>simp add: section_enabled_def\<close>)
  from keepsD [OF this, of w] assms(1) show ?thesis by (simp add: gate_inv_def)
qed

lemma local_step_inv:
  assumes "conn_inv live w" and "local_step N w w'"
  shows "conn_inv live w'"
  using assms(2)
proof (cases rule: local_step.cases)
  case (step_section op)
  with assms(1) show ?thesis by (simp only: run_section_inv)
next
  case (step_cursor c)
  with assms(1) show ?thesis by (simp add: conn_inv_def)
next
  case (step_factory f)
  with assms(1) show ?thesis by (simp add: conn_inv_def)
qed

lemma local_start_inv: "local_start N w \<Longrightarrow> conn_inv live w"
  using open_fresh by (auto simp: local_start_def conn_inv_def dest!: conn_open_Return)

end

interpretation local: state_machine "local_start (node_native C B)" "local_step (node_native C B)"
    "conn_inv nd_live_transaction" for C B
  by unfold_locales (auto intro: node.local_start_inv node.local_step_inv)

end
