(* ===== verification/Zx_Sections.thy ===== *)
theory Zx_Sections
  imports Zx_Local
begin

text \<open>
  What the critical sections of a local connection guarantee: they come back while the worker runs,
  they keep the Python transaction flag in step with the node, they account for every change, a
  batch outside a transaction is atomic, and a Gate C connection leaves the committed database alone
  until it commits. Two theorems record where the code falls short: an operation overtaken by
  \<open>close()\<close> in the lane never returns, and a failed commit leaves a connection that can neither
  commit, roll back nor close its native handle. The last section is a small concrete node on which
  the hypotheses of these theorems hold.
\<close>

section \<open>Every section of an open connection comes back\<close>

text \<open>The connection fields only \<open>close\<close> touches.\<close>

definition running :: "'n lworld \<Rightarrow> bool" where
  "running w \<longleftrightarrow> k_stops (conn w) = 0"

text \<open>
  A set of states in which the worker runs and that is closed under everything a critical section
  assigns. From such states every section other than \<open>close\<close> comes back to them.
\<close>

locale open_states =
  fixes P :: "'n lworld \<Rightarrow> bool"
  assumes worker_runs: "P w \<Longrightarrow> k_stops (conn w) = 0"
    and native_closed: "P w \<Longrightarrow> P (w\<lparr>conn := (conn w)\<lparr>k_native := n\<rparr>\<rparr>)"
    and changes_closed: "P w \<Longrightarrow> P (w\<lparr>conn := (conn w)\<lparr>k_total_changes := m\<rparr>\<rparr>)"
    and in_tx_closed: "P w \<Longrightarrow> P (w\<lparr>conn := (conn w)\<lparr>k_in_tx := b\<rparr>\<rparr>)"
    and cursor_closed: "P w \<Longrightarrow> P (w\<lparr>cur := c\<rparr>)"
begin

lemma calm_call [calm_intros]: "calm P (call_native f)"
  by (auto simp: calm_def call_native_running worker_runs native_closed)

lemma calm_state [calm_intros]: "calm P (set_cur g)" "calm P (add_changes i)" "calm P (set_in_tx t)"
  by (simp_all add: calm_def set_cur_def add_changes_def set_in_tx_def set_conn_def modify_s_def
      changes_closed in_tx_closed cursor_closed)

lemma calm_in_tx [calm_intros]: "calm P m \<Longrightarrow> calm P (if_in_tx m)"
  by (simp add: calm_def if_in_tx_def ret_def)

lemma calm_transactional [calm_intros]: "calm P m \<Longrightarrow> calm P m' \<Longrightarrow> calm P (if_transactional m m')"
  by (simp add: calm_def if_transactional_def)

lemma calm_begin [calm_intros]: "calm P (begin_if_needed N)"
proof -
  have "calm P (\<lambda>w. if k_in_tx (conn w) then ret () w
      else pbind (call_native (nv_live_begin N)) (\<lambda>_. set_in_tx True) w)"
    by (intro calm_intros)
  then show ?thesis by (simp add: calm_def begin_if_needed_def)
qed

lemma calm_resolve [calm_intros]: "calm P (resolve_parameters N sql n ps)"
  unfolding resolve_parameters_def named_parameter_def by (cases ps) (simp, intro calm_intros)+

lemma calm_live_batch [calm_intros]: "calm P (live_batch N sql bs acc)"
  by (induction bs arbitrary: acc) (auto intro!: calm_intros)

lemma calm_install [calm_intros]: "calm P (install_write r)"
  unfolding install_write_def by (intro calm_intros)

lemma calm_drop [calm_intros]: "calm P m \<Longrightarrow> calm P (drop_result m)"
  unfolding drop_result_def by (intro calm_intros)

lemma calm_sections [calm_intros]:
  "calm P (commit_section N)" "calm P (rollback_section N)" "calm P (execute_section N sql ps)"
  "calm P (executemany_section N sql bs)" "calm P (executescript_section N sql)"
  "calm P (savepoint_section N i)" "calm P (idempotent_section N s q sql)"
  unfolding commit_section_def rollback_section_def execute_section_def live_statement_def
    executemany_section_def tx_batch_def executescript_section_def savepoint_section_def idempotent_section_def
  by (intro calm_intros)+

lemma run_section_calm: "op \<noteq> SClose \<Longrightarrow> calm P (run_section N op)"
  by (cases op) (simp_all only: run_section.simps calm_sections calm_call calm_drop simp_thms)

end

interpretation run: open_states running
  by unfold_locales (simp_all add: running_def)

text \<open>What \<open>close\<close> does to an open connection: exactly the native calls it makes.\<close>

lemma close_section_running:
  fixes w :: "'n lworld"
  assumes "running w"
  shows "close_section N w =
    (let c = conn w; c' = c\<lparr>k_closed := True, k_stops := 1\<rparr> in
     if k_transactional c \<and> k_in_tx c then
       (case nv_live_rollback N (k_native c) of
          (Inl e, n) \<Rightarrow> (native_outcome map_native_error (Inl e), w\<lparr>conn := c'\<lparr>k_in_tx := False, k_native := n\<rparr>\<rparr>)
        | (Inr u, n) \<Rightarrow> (native_outcome map_native_error (fst (nv_close N n)),
             w\<lparr>conn := c'\<lparr>k_in_tx := False, k_native := snd (nv_close N n)\<rparr>\<rparr>))
     else (native_outcome map_native_error (fst (nv_close N (k_native c))),
           w\<lparr>conn := c'\<lparr>k_native := snd (nv_close N (k_native c))\<rparr>\<rparr>))"
proof -
  have out: "native_outcome map_native_error (Inl e) = (case e of ZxErr z \<Rightarrow> Raise (map_native_error z) | PyErr p \<Rightarrow> Raise p)" for e
    by (simp add: native_outcome_def)
  show ?thesis
    using assms
    by (auto simp: close_section_def py_defs if_in_tx_def call_native_def native_outcome_def set_in_tx_def
        set_conn_def running_def worker_stop_def Let_def split: native_exc.splits sum.splits prod.splits)
qed

lemma close_section_back: "running w \<Longrightarrow> fst (close_section N w) \<noteq> Blocked \<and> k_stops (conn (snd (close_section N w))) = 1"
  by (auto simp: close_section_running Let_def split: prod.splits sum.splits)

lemma run_section_back: "running w \<Longrightarrow> fst (run_section N op w) \<noteq> Blocked"
  using run.run_section_calm [of op N] close_section_back [of w N]
  by (cases "op = SClose") (auto simp: calm_def)

lemma open_check: "base_check me (conn w) = Inr () \<Longrightarrow> conn_check me w = (Return (), w)"
  by (simp add: conn_check_def lift_res_def)

lemma open_not_closed: "base_check me c = Inr () \<Longrightarrow> \<not> k_closed c"
  by (simp add: base_check_def raise_if_def split: if_splits)

text \<open>A section that starts with a native call, entered after the worker was stopped.\<close>

lemma stopped_lane_call:
  assumes "lane_env w = (True, w')" and "0 < k_stops (conn w')"
  shows "with_lane lane_env write (pbind (call_native f) g) w = (Blocked, w')"
  using assms by (simp add: with_lane_def pbind_def call_native_stopped)

text \<open>
  C24. Every critical section of an open connection comes back: while the worker has not been told to
  stop, each operation returns a value or raises, whatever the native functions answer; none blocks.
\<close>

theorem open_section_returns:
  "running w \<Longrightarrow> fst (run_section N op w) \<noteq> Blocked"
  by (rule run_section_back)

text \<open>
  C37. An operation that passed its checks and was overtaken by another thread's \<open>close()\<close> while waiting
  in the lane never returns: it hands its request to a worker that has already left its loop and
  waits for ever, holding the lane. This holds for statements, for commit and rollback of an open
  transaction, and for a second \<open>close()\<close>.
\<close>

theorem close_race_blocks:
  assumes "base_check me (conn w) = Inr ()" and "running w"
    and "lane_env = (\<lambda>w. (True, snd (close_section N w)))"
  shows "fst (local_execute N lane_env sql ps w) = Blocked \<and>
    fst (conn_close N me lane_env w) = Blocked \<and>
    (k_transactional (conn w) \<and> k_in_tx (conn w) \<longrightarrow>
       fst (conn_commit N me lane_env w) = Blocked \<and> fst (conn_rollback N me lane_env w) = Blocked)"
proof -
  have stopped: "0 < k_stops (conn (snd (close_section N w)))"
    using close_section_back [OF assms(2), of N] by simp
  have enter: "lane_env w = (True, snd (close_section N w))" by (simp add: assms(3))
  have close: "fst (with_lane lane_env False (close_section N) w) = Blocked"
    using stopped
    by (auto simp: with_lane_def assms(3) close_section_def py_defs if_in_tx_def call_native_stopped set_conn_def)
  note check = open_check [OF assms(1)] open_not_closed [OF assms(1)]
  show ?thesis
    using close check
    by (simp add: stopped_lane_call [of lane_env w, OF enter stopped] local_execute_def execute_section_def conn_close_def conn_commit_def conn_rollback_def
        if_in_tx_def commit_section_def rollback_section_def pbind_def [of "conn_check me"])
qed

section \<open>A transaction the node has already ended\<close>

text \<open>
  The Python flag outlives the native transaction: every further statement, commit and rollback raises
  and changes nothing, and \<open>close()\<close> raises without ever closing the native handle.
\<close>

lemma stale_flag_wedges:
  fixes w :: "'d node lworld" and C :: "'d core" and B :: "'d native"
  assumes open_conn: "base_check me (conn w) = Inr ()" "running w"
    and tx: "k_transactional (conn w)" "k_in_tx (conn w)"
    and ended: "\<not> nd_live_transaction (k_native (conn w))"
  defines "N \<equiv> node_native C B"
  defines "alone \<equiv> \<lambda>w. (True, w)"
  shows "(\<exists>e. conn_commit N me alone w = (Raise e, w)) \<and>
    (\<exists>e. conn_rollback N me alone w = (Raise e, w)) \<and>
    (\<exists>e w2. conn_close N me alone w = (Raise e, w2) \<and> k_closed (conn w2) \<and> k_native (conn w2) = k_native (conn w)) \<and>
    (\<exists>e. live_statement N sql ps read_only w = (Raise e, w))"
proof -
  let ?nd = "k_native (conn w)"
  have check: "conn_check me w = (Return (), w)" "\<not> k_closed (conn w)" "k_stops (conn w) = 0"
    using open_conn open_not_closed [OF open_conn(1)] by (auto simp: open_check running_def)
  have refused: "nv_live_commit N ?nd = (Inl (ZxErr (co_error C NoTransaction)), ?nd)"
    "nv_live_rollback N ?nd = (Inl (ZxErr (co_error C NoTransaction)), ?nd)"
    using ended by (simp_all add: N_def node_native_def to_native_def commitLive_def rollbackLive_def)
  have calls: "call_native (nv_live_commit N) w = (Raise (map_native_error (co_error C NoTransaction)), w)"
    "call_native (nv_live_rollback N) w = (Raise (map_native_error (co_error C NoTransaction)), w)"
    using check(3) refused by (simp_all add: call_native_running native_outcome_def)
  obtain q nd where q: "live_exec_native C sql ps ?nd = (q, nd)" by fastforce
  then have "nd = ?nd" "isl q"
    by (rule live_exec_native_cases; use ended in \<open>auto simp: liveExec_def\<close>)+
  then have "\<exists>e. call_native (nv_live_exec N sql ps) w = (Raise e, w)"
    using q check(3) by (cases q) (auto simp: call_native_running native_outcome_def N_def node_native_def split: native_exc.splits)
  then have stmt: "\<exists>e. live_statement N sql ps read_only w = (Raise e, w)"
    using tx by (auto simp: live_statement_def pbind_def begin_if_needed_def ret_def)
  have "conn_close N me alone w = close_section N w"
    using check by (simp add: conn_close_def pbind_def with_lane_def alone_def)
  then show ?thesis
    using check calls refused tx stmt open_conn(2)
    by (simp add: conn_commit_def conn_rollback_def pbind_def if_in_tx_def with_lane_def alone_def
        commit_section_def rollback_section_def close_section_running native_outcome_def Let_def)
qed

text \<open>
  C36. A commit that fails after the node has ended its transaction wedges the connection: the Python side
  still reports an open transaction, every further commit and rollback raises and changes nothing, and
  \<open>close()\<close> raises without ever closing the native handle.
\<close>

theorem failed_commit_wedges:
  fixes w :: "'d node lworld"
  assumes open_conn: "base_check me (conn w) = Inr ()" "running w"
    and tx: "k_transactional (conn w)" "k_in_tx (conn w)"
    and failed: "nv_live_commit (node_native C B) (k_native (conn w)) = (Inl e, nd)"
    and ended: "\<not> nd_live_transaction nd"
  defines "N \<equiv> node_native C B"
  defines "alone \<equiv> \<lambda>w. (True, w)"
  defines "w1 \<equiv> snd (conn_commit N me alone w)"
  shows "in_transaction w1 \<and>
    (\<exists>e. conn_commit N me alone w1 = (Raise e, w1)) \<and>
    (\<exists>e. conn_rollback N me alone w1 = (Raise e, w1)) \<and>
    (\<exists>e w2. conn_close N me alone w1 = (Raise e, w2) \<and> k_closed (conn w2) \<and> k_native (conn w2) = nd)"
proof -
  have w1: "w1 = w\<lparr>conn := (conn w)\<lparr>k_native := nd\<rparr>\<rparr>"
    using open_conn tx failed
    by (auto simp: w1_def N_def alone_def conn_commit_def pbind_def open_check if_in_tx_def with_lane_def
        commit_section_def running_def call_native_running native_outcome_def split: native_exc.splits)
  have "base_check me (conn w1) = Inr ()" "running w1" "k_transactional (conn w1)" "k_in_tx (conn w1)"
    "\<not> nd_live_transaction (k_native (conn w1))"
    using open_conn tx ended by (simp_all add: w1 base_check_def running_def)
  from stale_flag_wedges [OF this, of C B] \<open>k_in_tx (conn w1)\<close> show ?thesis
    by (simp add: in_transaction_def N_def alone_def w1)
qed

section \<open>The transaction flag\<close>

text \<open>
  C2. Whatever the threads sharing a connection do, at every moment between two critical sections: a live
  transaction is open in the node only if \<open>in_transaction\<close> reports one, one is reported only by an open
  Gate C connection, and the connection is closed exactly when its worker has been told to stop.
\<close>

theorem transaction_flag_sound:
  assumes "local_start (node_native C B) w0" and "(local_step (node_native C B))\<^sup>*\<^sup>* w0 w"
  shows "(nd_live_transaction (k_native (conn w)) \<longrightarrow> in_transaction w) \<and>
    (in_transaction w \<longrightarrow> k_transactional (conn w) \<and> \<not> k_closed (conn w)) \<and>
    (k_closed (conn w) \<longleftrightarrow> 0 < k_stops (conn w))"
  using local.reachable_inv [OF assms] by (auto simp: conn_inv_def in_transaction_def)

section \<open>Row counts and totals\<close>

definition books :: "'n lworld \<Rightarrow> int \<times> cursor" where
  "books w = (k_total_changes (conn w), cur w)"

lemma books_call [keeps_intros]: "keeps (\<lambda>w. books w = x) (call_native f)"
  by (auto simp: keeps_def books_def call_native_def split: prod.splits)

lemma books_set_in_tx [keeps_intros]: "keeps (\<lambda>w. books w = x) (set_in_tx b)"
  by (auto simp: keeps_def books_def set_in_tx_def set_conn_def modify_s_def)

lemma books_begin [keeps_intros]: "keeps (\<lambda>w. books w = x) (begin_if_needed N)"
  using keeps_bind [OF books_call books_set_in_tx, of x "nv_live_begin N" "\<lambda>_. True"]
  by (auto simp: keeps_def begin_if_needed_def ret_def)

lemma books_resolve [keeps_intros]: "keeps (\<lambda>w. books w = x) (resolve_parameters N sql n ps)"
  unfolding resolve_parameters_def named_parameter_def
  by (cases ps) (simp, intro keeps_intros)+

lemma books_live_batch [keeps_intros]: "keeps (\<lambda>w. books w = x) (live_batch N sql bs acc)"
  by (induction bs arbitrary: acc) (auto intro!: keeps_intros)

lemma books_tx_batch [keeps_intros]: "keeps (\<lambda>w. books w = x) (tx_batch N sql bs)"
  unfolding tx_batch_def by (intro keeps_intros)

text \<open>Running a computation that leaves the books alone before another one.\<close>

lemma books_bind:
  assumes "\<And>x. keeps (\<lambda>w. books w = x) m"
  obtains e w' where "pbind m f w = (Raise e, w')" "books w' = books w" |
    w' where "pbind m f w = (Blocked, w')" "books w' = books w" |
    a w' where "m w = (Return a, w')" "pbind m f w = f a w'" "books w' = books w"
proof -
  obtain r w' where m: "m w = (r, w')" by fastforce
  with keepsD [OF assms, of w "books w"] have "books w' = books w" by simp
  with m that show ?thesis by (cases r) (auto simp: pbind_def)
qed

text \<open>\<open>settled\<close> is the accounting contract of a statement.\<close>

definition settled :: "bool \<Rightarrow> 'n lworld \<Rightarrow> unit outcome \<times> 'n lworld \<Rightarrow> bool" where
  "settled read_only w p \<longleftrightarrow>
    (case p of
       (Return _, w') \<Rightarrow>
         if read_only then k_total_changes (conn w') = k_total_changes (conn w) \<and>
           c_rowcount (cur w') = -1 \<and> c_lastrowid (cur w') = c_lastrowid (cur w) \<and> c_description (cur w') \<noteq> None
         else k_total_changes (conn w') = k_total_changes (conn w) + c_rowcount (cur w')
     | (_, w') \<Rightarrow> books w' = books w)"

lemma settled_books: "books w1 = books w \<Longrightarrow> settled ro w1 p \<Longrightarrow> settled ro w p"
  by (auto simp: settled_def books_def split: outcome.splits prod.splits if_splits)

lemma settled_bind:
  assumes "\<And>x. keeps (\<lambda>w. books w = x) m" and "\<And>a w'. m w = (Return a, w') \<Longrightarrow> settled ro w' (f a w')"
  shows "settled ro w (pbind m f w)"
proof (rule books_bind [where m = m and f = f and w = w, OF assms(1)])
  fix a w'
  assume "m w = (Return a, w')" "pbind m f w = f a w'" "books w' = books w"
  with assms(2) show ?thesis by (metis settled_books)
qed (auto simp: settled_def)

lemma settled_read: "settled True w (set_cur (load_read_result names rows) w)"
  by (simp add: settled_def set_cur_def modify_s_def load_read_result_def)

lemma settled_write: "settled False w (install_write r w)"
  by (auto simp: settled_def install_write_def py_defs set_cur_def add_changes_def set_conn_def
      load_returning_result_def split: prod.splits option.splits)

lemma settled_live: "settled ro w (live_statement N sql ps ro w)"
  unfolding live_statement_def
  by (intro settled_bind keeps_intros)
    (auto simp: settled_read settled_write split: option.splits)

lemma execute_settled:
  assumes "nv_describe N sql (k_native (conn w)) = (Inr (pc, cols, read_only, has_tail), n)"
  shows "settled read_only w (execute_section N sql ps w)"
proof -
  have d: "call_native (nv_describe N sql) w = (Return v, w') \<Longrightarrow> v = (pc, cols, read_only, has_tail)" for v w'
    using assms
    by (cases "k_stops (conn w) = 0") (auto simp: call_native_running call_native_stopped native_outcome_def)
  show ?thesis
    unfolding execute_section_def
  proof (rule settled_bind [OF books_call])
    fix v w'
    assume "call_native (nv_describe N sql) w = (Return v, w')"
    from d [OF this] show "settled read_only w'
        ((case v of (parameter_count, _, read_only, has_tail) \<Rightarrow>
          pbind (guard_not has_tail (exc ProgrammingError ''execute() accepts one statement; use executescript()'')) (\<lambda>_.
          pbind (resolve_parameters N sql parameter_count ps) (\<lambda>params w.
            if k_transactional (conn w) \<and> (k_in_tx (conn w) \<or> \<not> read_only) then
              live_statement N sql params read_only w
            else if read_only then
              pbind (call_native (nv_query N sql params)) (\<lambda>(names, rows). set_cur (load_read_result names rows)) w
            else pbind (call_native (nv_exec N sql params)) install_write w))) w')"
      by (auto intro!: settled_bind keeps_intros settled_live settled_read settled_write split: prod.splits)
  qed
qed


section \<open>Parameters\<close>

lemma for_each_Return:
  "for_each f xs w = (Return ys, w') \<Longrightarrow>
     length ys = length xs \<and> (\<forall>y \<in> set ys. \<exists>x \<in> set xs. \<exists>v v'. f x v = (Return y, v'))"
proof (induction xs arbitrary: w ys)
  case Nil
  then show ?case by (simp add: ret_def)
next
  case (Cons x xs)
  from Cons.prems obtain y w1 ys' where "f x w = (Return y, w1)" "for_each f xs w1 = (Return ys', w')" "ys = y # ys'"
    by (auto simp: pbind_def ret_def split: prod.splits outcome.splits)
  with Cons.IH [of w1 ys'] show ?case by fastforce
qed

lemma named_parameter_Return:
  "named_parameter N sql items i w = (Return v, w') \<Longrightarrow> \<exists>key. map_of items (PStr key) = Some v"
  by (auto simp: named_parameter_def pbind_def throw_def ret_def split: prod.splits outcome.splits if_splits option.splits)


section \<open>Atomic batches\<close>

text \<open>A predicate that holds again whenever the computation raises.\<close>

definition raise_safe :: "('s \<Rightarrow> bool) \<Rightarrow> ('s, 'a) py \<Rightarrow> bool" where
  "raise_safe P m \<longleftrightarrow> (\<forall>s e s'. P s \<longrightarrow> m s = (Raise e, s') \<longrightarrow> P s')"

lemma raise_safe_keeps: "keeps P m \<Longrightarrow> raise_safe P m"
  by (fastforce simp: keeps_def raise_safe_def)

lemma raise_safe_bind: "keeps P m \<Longrightarrow> (\<And>a. raise_safe P (f a)) \<Longrightarrow> raise_safe P (pbind m f)"
  by (fastforce simp: keeps_def raise_safe_def pbind_def split: prod.splits outcome.splits)

lemma raise_safe_then:
  "raise_safe P m \<Longrightarrow> (\<And>a s e s'. f a s \<noteq> (Raise e, s')) \<Longrightarrow> raise_safe P (pbind m f)"
  by (fastforce simp: raise_safe_def pbind_def split: prod.splits outcome.splits)

lemma raise_safe_finally:
  assumes "raise_safe P m" and "keeps P f" and "\<And>s e s'. f s \<noteq> (Raise e, s')"
  shows "raise_safe P (finally_do m f)"
  unfolding raise_safe_def
proof (intro allI impI)
  fix s e s'
  assume "P s" and fin: "finally_do m f s = (Raise e, s')"
  obtain r s1 where m: "m s = (r, s1)" by fastforce
  obtain r2 s2 where f: "f s1 = (r2, s2)" by fastforce
  from fin m f assms(3) [of s1] have "r = Raise e" "s2 = s'"
    by (auto simp: finally_do_def split: outcome.splits)
  with m \<open>P s\<close> assms(1) have "P s1" by (auto simp: raise_safe_def)
  with f assms(2) \<open>s2 = s'\<close> show "P s'" by (metis keepsD snd_conv)
qed

text \<open>
  The documented behaviour of the batch functions of the extension module: \<open>tx_exec\<close> queues one
  statement, \<open>tx_commit\<close> commits the batch atomically and \<open>tx_close\<close> releases it.
\<close>

definition buffered_batches :: "'n native \<Rightarrow> ('n \<Rightarrow> 'c) \<Rightarrow> bool" where
  "buffered_batches N committed \<longleftrightarrow>
     (\<forall>sql n. committed (snd (nv_describe N sql n)) = committed n) \<and>
     (\<forall>sql i n. committed (snd (nv_parameter_name N sql i n)) = committed n) \<and>
     (\<forall>n. committed (snd (nv_begin N n)) = committed n) \<and>
     (\<forall>tx sql ps n. committed (snd (nv_tx_exec N tx sql ps n)) = committed n) \<and>
     (\<forall>tx n. fst (nv_tx_commit N tx n) \<in> range Inl \<longrightarrow> committed (snd (nv_tx_commit N tx n)) = committed n) \<and>
     (\<forall>tx n. committed (snd (nv_tx_close N tx n)) = committed n \<and> fst (nv_tx_close N tx n) = Inr ())"

text \<open>The committed state, the books and the gate of a connection.\<close>

definition at_rest :: "('n \<Rightarrow> 'c) \<Rightarrow> 'c \<Rightarrow> int \<times> cursor \<Rightarrow> bool \<Rightarrow> 'n lworld \<Rightarrow> bool" where
  "at_rest committed c x b w \<longleftrightarrow>
     committed (k_native (conn w)) = c \<and> books w = x \<and> k_transactional (conn w) = b \<and> running w"

lemma rest_call:
  "(\<And>n. committed (snd (f n)) = committed n) \<Longrightarrow> keeps (at_rest committed c x b) (call_native f)"
  by (auto simp: keeps_def at_rest_def books_def running_def call_native_running)

lemma rest_call_raise:
  assumes "\<And>n. fst (f n) \<in> range Inl \<Longrightarrow> committed (snd (f n)) = committed n"
  shows "raise_safe (at_rest committed c x b) (call_native f)"
  unfolding raise_safe_def
proof (intro allI impI)
  fix w e w'
  assume w: "at_rest committed c x b w" and r: "call_native f w = (Raise e, w')"
  then have "fst (f (k_native (conn w))) \<in> range Inl"
    by (cases "fst (f (k_native (conn w)))")
      (auto simp: at_rest_def running_def call_native_running native_outcome_def)
  with assms w r show "at_rest committed c x b w'"
    by (auto simp: at_rest_def books_def running_def call_native_running)
qed

lemma rest_resolve:
  assumes "buffered_batches N committed"
  shows "keeps (at_rest committed c x b) (resolve_parameters N sql n ps)"
proof -
  have "keeps (at_rest committed c x b) (call_native (nv_parameter_name N sql i))" for i
    by (rule rest_call) (use assms in \<open>simp add: buffered_batches_def\<close>)
  then show ?thesis
    unfolding resolve_parameters_def named_parameter_def
    by (cases ps) (simp, intro keeps_intros, assumption?)+
qed

lemma tx_close_returns:
  "buffered_batches N committed \<Longrightarrow> call_native (nv_tx_close N tx) w \<noteq> (Raise e, w')"
  by (cases "k_stops (conn w) = 0")
    (auto simp: buffered_batches_def call_native_running call_native_stopped native_outcome_def)

lemma tx_batch_raise:
  assumes "buffered_batches N committed"
  shows "raise_safe (at_rest committed c x b) (tx_batch N sql bs)"
proof -
  note laws = assms [unfolded buffered_batches_def]
  have cm: "raise_safe (at_rest committed c x b) (call_native (nv_tx_commit N tx))" for tx
    by (rule rest_call_raise) (use laws in blast)
  have ex: "keeps (at_rest committed c x b) (for_each (\<lambda>ps. call_native (nv_tx_exec N tx sql ps)) bs)" for tx
    by (intro keeps_for_each rest_call) (use laws in simp)
  have bg: "keeps (at_rest committed c x b) (call_native (nv_begin N))"
    by (rule rest_call) (use laws in simp)
  have cl: "keeps (at_rest committed c x b) (call_native (nv_tx_close N tx))" for tx
    by (rule rest_call) (use laws in simp)
  show ?thesis
    unfolding tx_batch_def
    by (rule raise_safe_bind [OF bg raise_safe_finally [OF raise_safe_bind [OF ex cm] cl tx_close_returns [OF assms]]])
qed

lemma batch_tail: "pbind (set_cur f) (\<lambda>_. add_changes n) w = (Return (),
    w\<lparr>conn := (conn w)\<lparr>k_total_changes := k_total_changes (conn w) + n\<rparr>, cur := f (cur w)\<rparr>)"
  by (simp add: pbind_def set_cur_def add_changes_def set_conn_def modify_s_def)

lemma raise_safe_autocommit:
  assumes "raise_safe (at_rest committed c x False) m'"
  shows "raise_safe (at_rest committed c x False) (if_transactional m m')"
  unfolding raise_safe_def
proof (intro allI impI)
  fix w e w'
  assume w: "at_rest committed c x False w" and r: "if_transactional m m' w = (Raise e, w')"
  from w have "\<not> k_transactional (conn w)" by (simp add: at_rest_def)
  with r have "m' w = (Raise e, w')" by (simp add: if_transactional_def)
  with w assms show "at_rest committed c x False w'" unfolding raise_safe_def by blast
qed

lemma executemany_raise:
  assumes "buffered_batches N committed"
  shows "raise_safe (at_rest committed c x False) (executemany_section N sql bs)"
proof -
  have d: "keeps (at_rest committed c x False) (call_native (nv_describe N sql))"
    by (rule rest_call) (use assms in \<open>simp add: buffered_batches_def\<close>)
  have tx: "raise_safe (at_rest committed c x False) (if_transactional m (tx_batch N sql rs))" for m rs
    by (rule raise_safe_autocommit [OF tx_batch_raise [OF assms]])
  show ?thesis
    unfolding executemany_section_def
    using d
  proof (rule raise_safe_bind)
    fix v :: "int \<times> int \<times> bool \<times> bool"
    obtain pc cols ro tail where v: "v = (pc, cols, ro, tail)" by (cases v) auto
    have rest: "raise_safe (at_rest committed c x False)
        (if rs = [] then set_cur (\<lambda>cu. cu\<lparr>c_rowcount := 0\<rparr>)
         else pbind (if_transactional (pbind (begin_if_needed N) (\<lambda>_. live_batch N sql rs 0)) (tx_batch N sql rs))
           (\<lambda>changes. pbind (set_cur (\<lambda>cu. cu\<lparr>c_rowcount := changes\<rparr>)) (\<lambda>_. add_changes changes)))" for rs
    proof (cases "rs = []")
      case True
      then show ?thesis by (simp add: raise_safe_def set_cur_def modify_s_def)
    next
      case False
      then show ?thesis by (simp only: if_False) (rule raise_safe_then [OF tx], simp add: batch_tail)
    qed
    show "raise_safe (at_rest committed c x False)
      (case v of (parameter_count, _, read_only, has_tail) \<Rightarrow>
        pbind (guard_not has_tail (exc ProgrammingError ''executemany() accepts one statement; use executescript()'')) (\<lambda>_.
        pbind (guard_not read_only (exc ProgrammingError ''executemany() can only execute DML statements.'')) (\<lambda>_.
        pbind (for_each (resolve_parameters N sql parameter_count) bs) (\<lambda>resolved.
          if resolved = [] then set_cur (\<lambda>cu. cu\<lparr>c_rowcount := 0\<rparr>)
          else pbind (if_transactional (pbind (begin_if_needed N) (\<lambda>_. live_batch N sql resolved 0)) (tx_batch N sql resolved))
            (\<lambda>changes. pbind (set_cur (\<lambda>cu. cu\<lparr>c_rowcount := changes\<rparr>)) (\<lambda>_. add_changes changes))))))"
      using rest by (auto simp: v intro!: raise_safe_bind keeps_intros rest_resolve [OF assms])
  qed
qed


section \<open>Isolation of Gate C\<close>

text \<open>
  The transactional behaviour of SQLite on the writer connection, which the node relies on: opening
  a transaction, the guarded statements run inside it, its savepoints and its rollback leave the
  committed database as it is, and so do the read-only calls.
\<close>

definition sqlite_isolated :: "'d core \<Rightarrow> 'd native \<Rightarrow> ('d \<Rightarrow> 'c) \<Rightarrow> bool" where
  "sqlite_isolated C B committed \<longleftrightarrow>
     (\<forall>d. committed (snd (co_resync C d)) = committed d \<and> committed (snd (co_ensure_writer C d)) = committed d \<and>
       committed (co_mark_resync C d) = committed d) \<and>
     (\<forall>d. committed (snd (co_exec C ''begin immediate'' d)) = committed d \<and>
       committed (snd (co_exec C ''rollback'' d)) = committed d) \<and>
     (\<forall>verb i d. committed (snd (co_exec C (savepoint_sql verb i) d)) = committed d) \<and>
     (\<forall>sql vs d. committed (snd (co_run C sql vs d)) = committed d) \<and>
     (\<forall>sql ps d. committed (snd (nv_query B sql ps d)) = committed d) \<and>
     (\<forall>sql i d. committed (snd (nv_describe B sql d)) = committed d \<and>
       committed (snd (nv_parameter_name B sql i d)) = committed d)"

definition node_committed :: "('d \<Rightarrow> 'c) \<Rightarrow> 'd node \<Rightarrow> 'c" where
  "node_committed committed nd = committed (nd_core nd)"

lemma on_core_committed:
  "(\<And>d. committed (snd (f d)) = committed d) \<Longrightarrow> on_core f nd = (r, nd') \<Longrightarrow>
     node_committed committed nd' = node_committed committed nd"
  by (auto simp: on_core_def node_committed_def split: prod.splits) (metis snd_conv)

lemma lift_core_committed:
  "(\<And>d. committed (snd (f d)) = committed d) \<Longrightarrow>
     node_committed committed (snd (lift_core f nd)) = node_committed committed nd"
  by (auto simp: lift_core_def node_committed_def split: prod.splits) (metis snd_conv)

lemma to_native_snd: "snd (to_native C f nd) = snd (f nd)"
  by (simp add: to_native_def split: prod.splits sum.splits)

lemma node_committed_flag [simp]:
  "node_committed committed (nd\<lparr>nd_live_transaction := b\<rparr>) = node_committed committed nd"
  "node_committed committed (nd\<lparr>nd_changes_base := i\<rparr>) = node_committed committed nd"
  by (simp_all add: node_committed_def)

lemma and_then_committed:
  assumes "\<And>r nd'. p = (r, nd') \<Longrightarrow> node_committed committed nd' = c"
    and "\<And>a nd'. node_committed committed nd' = c \<Longrightarrow> node_committed committed (snd (k a nd')) = c"
  shows "node_committed committed (snd (and_then p k)) = c"
  using assms by (cases p) (auto simp: and_then_def split: sum.splits)

lemma beginLive_committed:
  assumes "sqlite_isolated C B committed"
  shows "node_committed committed (snd (beginLive C nd)) = node_committed committed nd"
proof -
  note laws = assms [unfolded sqlite_isolated_def]
  have "node_committed committed nd2 = node_committed committed nd1"
    if "on_core f nd1 = (r, nd2)" "f \<in> {co_resync C, co_ensure_writer C, co_exec C ''begin immediate''}"
    for f r nd1 nd2
    using that laws by (intro on_core_committed [OF _ that(1)]) auto
  then show ?thesis
    by (auto simp: beginLive_def intro!: and_then_committed split: if_splits)
qed

lemma liveExec_committed:
  assumes "sqlite_isolated C B committed"
  shows "node_committed committed (snd (liveExec C sql vs nd)) = node_committed committed nd"
  using on_core_committed [of committed "co_run C sql vs" nd] assms
  by (auto simp: liveExec_def sqlite_isolated_def Let_def split: prod.splits sum.splits)

lemma live_exec_native_committed:
  assumes "sqlite_isolated C B committed"
  shows "node_committed committed (snd (live_exec_native C sql ps nd)) = node_committed committed nd"
proof -
  obtain r nd' where e: "live_exec_native C sql ps nd = (r, nd')" by fastforce
  then show ?thesis
    by (rule live_exec_native_cases)
      (use e liveExec_committed [OF assms, of sql "node_values ps" nd] in auto)
qed

lemma rollbackLive_committed:
  assumes "sqlite_isolated C B committed"
  shows "node_committed committed (snd (rollbackLive C nd)) = node_committed committed nd"
proof -
  have mark: "node_committed committed (nd'\<lparr>nd_core := co_mark_resync C (nd_core nd')\<rparr>) = node_committed committed nd'" for nd'
    using assms by (simp add: node_committed_def sqlite_isolated_def)
  show ?thesis
    using on_core_committed [of committed "co_exec C ''rollback''" "nd\<lparr>nd_live_transaction := False\<rparr>"] assms
    by (auto simp: rollbackLive_def sqlite_isolated_def mark split: prod.splits sum.splits)
qed

lemma savepoint_committed:
  assumes "sqlite_isolated C B committed"
  shows "node_committed committed (snd (savepoint_native C verb i nd)) = node_committed committed nd"
proof -
  have "\<And>d. committed (snd (co_exec C (savepoint_sql verb (i mod 2 ^ 32)) d)) = committed d"
    using assms by (simp add: sqlite_isolated_def)
  from on_core_committed [of committed, OF this, of nd] show ?thesis
    by (auto simp: savepoint_native_def to_native_snd liveSavepointControl_def prod_eq_iff)
qed

text \<open>The committed database as a Gate C connection sees it, and the native calls that keep it.\<close>

definition committed_is :: "('d \<Rightarrow> 'c) \<Rightarrow> 'c \<Rightarrow> 'd node lworld \<Rightarrow> bool" where
  "committed_is committed c w \<longleftrightarrow> node_committed committed (k_native (conn w)) = c \<and> k_transactional (conn w)"

lemma committed_call:
  assumes "\<And>nd. node_committed committed (snd (f nd)) = node_committed committed nd"
  shows "keeps (committed_is committed c) (call_native f)"
  unfolding keeps_def
proof (intro allI impI)
  fix w :: "'a node lworld"
  assume "committed_is committed c w"
  with assms show "committed_is committed c (snd (call_native f w))"
    by (cases "k_stops (conn w) = 0") (auto simp: committed_is_def call_native_running call_native_stopped)
qed

lemma committed_state [keeps_intros]:
  "keeps (committed_is committed c) (set_cur f)" "keeps (committed_is committed c) (add_changes i)"
  "keeps (committed_is committed c) (set_in_tx b)"
  by (auto simp: keeps_def committed_is_def set_cur_def add_changes_def set_in_tx_def set_conn_def modify_s_def)

lemma committed_install [keeps_intros]: "keeps (committed_is committed c) (install_write r)"
  unfolding install_write_def by (intro keeps_intros)

lemma node_calls_committed:
  assumes "sqlite_isolated C B committed"
  shows "keeps (committed_is committed c) (call_native (nv_describe (node_native C B) sql))"
    "keeps (committed_is committed c) (call_native (nv_parameter_name (node_native C B) sql i))"
    "keeps (committed_is committed c) (call_native (nv_query (node_native C B) sql ps))"
    "keeps (committed_is committed c) (call_native (nv_live_begin (node_native C B)))"
    "keeps (committed_is committed c) (call_native (nv_live_exec (node_native C B) sql ps))"
    "keeps (committed_is committed c) (call_native (nv_live_rollback (node_native C B)))"
    "keeps (committed_is committed c) (call_native (nv_live_savepoint (node_native C B) i))"
    "keeps (committed_is committed c) (call_native (nv_live_release_savepoint (node_native C B) i))"
    "keeps (committed_is committed c) (call_native (nv_live_rollback_to_savepoint (node_native C B) i))"
proof -
  have reads: "committed (snd (nv_query B sql ps d)) = committed d" "committed (snd (nv_describe B sql d)) = committed d"
    "committed (snd (nv_parameter_name B sql i d)) = committed d" for sql ps i d
    using assms by (simp_all add: sqlite_isolated_def)
  show "keeps (committed_is committed c) (call_native (nv_describe (node_native C B) sql))"
    "keeps (committed_is committed c) (call_native (nv_parameter_name (node_native C B) sql i))"
    "keeps (committed_is committed c) (call_native (nv_query (node_native C B) sql ps))"
    by (auto intro!: committed_call lift_core_committed simp: node_native_def reads)
qed (auto intro!: committed_call simp: node_native_def to_native_snd split: option.splits
    simp: beginLive_committed [OF assms] live_exec_native_committed [OF assms] rollbackLive_committed [OF assms]
      savepoint_committed [OF assms])

text \<open>The operations of a Gate C connection other than commit, script, sessions and snapshots.\<close>

fun uncommitting :: "section_op \<Rightarrow> bool" where
  "uncommitting (SExecute sql ps) = True"
| "uncommitting (SExecutemany sql bs) = True"
| "uncommitting SRollback = True"
| "uncommitting (SSavepoint i) = True"
| "uncommitting (SRelease i) = True"
| "uncommitting (SRollbackTo i) = True"
| "uncommitting _ = False"

lemma committed_if_transactional:
  "keeps (committed_is committed c) m \<Longrightarrow> keeps (committed_is committed c) (if_transactional m m')"
  by (simp add: keeps_def if_transactional_def committed_is_def)

text \<open>On a transactional connection the autocommit write is never reached.\<close>

lemma committed_route:
  assumes "keeps (committed_is committed c) m" and "keeps (committed_is committed c) m'"
  shows "keeps (committed_is committed c)
    (\<lambda>w. if k_transactional (conn w) \<and> (k_in_tx (conn w) \<or> \<not> read_only) then m w
         else if read_only then m' w else m'' w)"
  using assms by (auto simp: keeps_def committed_is_def)

lemma uncommitting_keeps:
  assumes iso: "sqlite_isolated C B committed" and "uncommitting op"
  shows "keeps (committed_is committed c) (run_section (node_native C B) op)"
proof -
  let ?N = "node_native C B"
  note calls = node_calls_committed [OF iso, of c]
  have beg: "keeps (committed_is committed c) (begin_if_needed ?N)"
    using keeps_bind [OF calls(4) committed_state(3), of "\<lambda>_. True"]
    by (auto simp: keeps_def begin_if_needed_def ret_def)
  have res: "keeps (committed_is committed c) (resolve_parameters ?N sql n ps)" for sql n ps
    unfolding resolve_parameters_def named_parameter_def by (cases ps) (simp, intro keeps_intros calls)+
  have batch: "keeps (committed_is committed c) (live_batch ?N sql bs acc)" for sql bs acc
    by (induction bs arbitrary: acc) (auto intro!: keeps_intros calls)
  show ?thesis
  proof (cases op)
    case (SExecute sql ps)
    have "keeps (committed_is committed c) (execute_section ?N sql ps)"
      unfolding execute_section_def live_statement_def
      by (intro keeps_intros committed_route calls beg res)
    with SExecute show ?thesis by simp
  next
    case (SExecutemany sql bs)
    have "keeps (committed_is committed c) (executemany_section ?N sql bs)"
      unfolding executemany_section_def
      by (intro keeps_intros committed_if_transactional calls beg res batch)
    with SExecutemany show ?thesis by simp
  qed (use assms(2) in \<open>auto simp: rollback_section_def savepoint_section_def intro!: keeps_intros calls beg\<close>)
qed


section \<open>A concrete node\<close>

text \<open>
  A node whose SQLite is a list of integers, with the working copy of the live transaction and the
  queue of the open batch: every statement appends one number. It shows that the hypotheses above can
  hold; \<open>capture_ok\<close> says whether the capture contract of a commit verifies.
\<close>

record demo =
  dm_committed :: "int list"
  dm_work :: "int list option"
  dm_batch :: "int list"

definition demo_error :: "node_error \<Rightarrow> zx_error" where
  "demo_error e = \<lparr>zx_code = Some 2, zx_category = Some 4, zx_message = Some ''misuse'', zx_str = ''misuse''\<rparr>"

definition demo_core :: "bool \<Rightarrow> demo core" where
  "demo_core capture_ok =
    \<lparr>co_single = (\<lambda>_. True), co_serves_writes = (\<lambda>_. True), co_fatal = (\<lambda>_. False),
     co_needs_resync = (\<lambda>_. False), co_membership_pending = (\<lambda>_. False), co_log_stopped = (\<lambda>_. False),
     co_capture_pending = (\<lambda>_. False), co_in_transaction = (\<lambda>d. dm_work d \<noteq> None),
     co_total_changes = (\<lambda>d. int (length (case dm_work d of None \<Rightarrow> dm_committed d | Some xs \<Rightarrow> xs))),
     co_last_rowid = (\<lambda>_. 0), co_resync = (\<lambda>d. (Inr (), d)), co_ensure_writer = (\<lambda>d. (Inr (), d)),
     co_mark_resync = (\<lambda>d. d),
     co_exec = (\<lambda>sql d. (Inr (),
        if sql = ''begin immediate'' then d\<lparr>dm_work := Some (dm_committed d)\<rparr>
        else if sql = ''rollback'' then d\<lparr>dm_work := None\<rparr> else d)),
     co_run = (\<lambda>sql ps d. (Inr None, d\<lparr>dm_work := map_option (\<lambda>xs. xs @ [1]) (dm_work d)\<rparr>)),
     co_verify = (\<lambda>d. (if capture_ok then Inr () else Inl (CoreError 1), d)),
     co_seal = (\<lambda>c d. (Inr c, d\<lparr>dm_committed := (case dm_work d of None \<Rightarrow> dm_committed d | Some xs \<Rightarrow> xs), dm_work := None\<rparr>)),
     co_check_session = (\<lambda>_ _ d. (Inl UnknownSession, d)), co_session_write = (\<lambda>_ _ _ d. (Inl UnknownSession, d)),
     co_error = demo_error\<rparr>"

definition demo_base :: "demo native" where
  "demo_base =
    \<lparr>nv_open = (\<lambda>path d. (Inr (), d)), nv_close = (\<lambda>d. (Inr (), d)),
     nv_describe = (\<lambda>sql d. (Inr (int (length (filter (\<lambda>ch. ch = CHR ''?'') sql)), 0, \<not> guess_is_write sql, False), d)),
     nv_parameter_name = (\<lambda>sql i d. (Inr '':a'', d)),
     nv_query = (\<lambda>sql ps d. (Inr ([''x''], map (\<lambda>i. [PInt i]) (dm_committed d)), d)),
     nv_exec = (\<lambda>sql ps d. (Inr (1, Some 1, False, None), d\<lparr>dm_committed := dm_committed d @ [1]\<rparr>)),
     nv_exec_script = (\<lambda>sql d. (Inr 0, d)),
     nv_begin = (\<lambda>d. (Inr 0, d\<lparr>dm_batch := []\<rparr>)),
     nv_tx_exec = (\<lambda>tx sql ps d. if ps = [PNone] then (Inl (ZxErr (demo_error NoTransaction)), d)
        else (Inr (), d\<lparr>dm_batch := dm_batch d @ [1]\<rparr>)),
     nv_tx_commit = (\<lambda>tx d. (Inr (int (length (dm_batch d))), d\<lparr>dm_committed := dm_committed d @ dm_batch d\<rparr>)),
     nv_tx_close = (\<lambda>tx d. (Inr (), d\<lparr>dm_batch := []\<rparr>)),
     nv_live_begin = (\<lambda>d. (Inr (), d)), nv_live_exec = (\<lambda>sql ps d. (Inr (0, None, False, None), d)),
     nv_live_commit = (\<lambda>d. (Inr 0, d)), nv_live_rollback = (\<lambda>d. (Inr (), d)),
     nv_live_savepoint = (\<lambda>i d. (Inr (), d)), nv_live_release_savepoint = (\<lambda>i d. (Inr (), d)),
     nv_live_rollback_to_savepoint = (\<lambda>i d. (Inr (), d)), nv_snapshot = (\<lambda>d. (Inr (), d)),
     nv_backup = (\<lambda>path d. (Inr (), d)), nv_integrity_check = (\<lambda>d. (Inr (), d)),
     nv_session_open = (\<lambda>d. (Inr 1, d)), nv_exec_idempotent = (\<lambda>s q sql d. (Inr (1, False), d)),
     nv_expire_sessions = (\<lambda>i d. (Inr 0, d)), nv_search = (\<lambda>q d. (Inr ([], []), d))\<rparr>"

definition demo_native :: "bool \<Rightarrow> demo node native" where
  "demo_native capture_ok = node_native (demo_core capture_ok) demo_base"

definition demo_open :: "bool \<Rightarrow> bool \<Rightarrow> unit outcome \<times> demo node lworld" where
  "demo_open capture_ok transactional =
    conn_open (demo_native capture_ok)
      \<lparr>l_path = ''data'', l_timeout = 5, l_check_same_thread = True, l_transactional = transactional\<rparr> 1
      \<lparr>nd_live_transaction = False, nd_changes_base = 0,
        nd_core = \<lparr>dm_committed = [7], dm_work = None, dm_batch = []\<rparr>\<rparr>"

definition demo_insert :: "bool \<Rightarrow> demo node lworld" where
  "demo_insert capture_ok =
    snd (run_section (demo_native capture_ok) (SExecute ''insert into t values (?)'' (PTuple [PInt 1]))
      (snd (demo_open capture_ok True)))"

lemma demo_start: "local_start (demo_native b) (snd (demo_open b t))"
proof -
  have "fst (demo_open b t) = Return ()"
    by (cases b; cases t; simp only:) code_simp+
  then have "demo_open b t = (Return (), snd (demo_open b t))" by (metis prod.collapse)
  then show ?thesis unfolding local_start_def demo_open_def by blast
qed

lemma demo_buffered: "buffered_batches (demo_native b) (\<lambda>nd. dm_committed (nd_core nd))"
  by (auto simp: buffered_batches_def demo_native_def node_native_def lift_core_def lift_write_def demo_base_def)

lemma demo_isolated: "sqlite_isolated (demo_core b) demo_base dm_committed"
  by (auto simp: sqlite_isolated_def demo_core_def demo_base_def)

theorem transaction_flag_sound_witness:
  "nd_live_transaction (k_native (conn (demo_insert True))) \<and> in_transaction (demo_insert True) \<and>
     \<not> k_closed (conn (demo_insert True))"
proof -
  let ?N = "node_native (demo_core True) demo_base"
  have "local_step (demo_native True) (snd (demo_open True True)) (demo_insert True)"
    unfolding demo_insert_def by (rule step_section) (simp add: section_enabled_def)
  then have "(local_step ?N)\<^sup>*\<^sup>* (snd (demo_open True True)) (demo_insert True)"
    by (simp add: demo_native_def)
  moreover have "nd_live_transaction (k_native (conn (demo_insert True)))" by code_simp
  ultimately show ?thesis
    using transaction_flag_sound [OF demo_start [unfolded demo_native_def]] by blast
qed

theorem failed_commit_wedges_witness:
  "\<exists>e. conn_rollback (node_native (demo_core False) demo_base) 1 (\<lambda>w. (True, w))
     (snd (conn_commit (node_native (demo_core False) demo_base) 1 (\<lambda>w. (True, w)) (demo_insert False))) =
     (Raise e, snd (conn_commit (node_native (demo_core False) demo_base) 1 (\<lambda>w. (True, w)) (demo_insert False)))"
proof -
  let ?N = "node_native (demo_core False) demo_base"
  have "isl (fst (nv_live_commit ?N (k_native (conn (demo_insert False)))))" by code_simp
  then obtain e where "nv_live_commit ?N (k_native (conn (demo_insert False))) =
      (Inl e, snd (nv_live_commit ?N (k_native (conn (demo_insert False)))))"
    by (metis isl_def prod.collapse)
  moreover have "base_check 1 (conn (demo_insert False)) = Inr ()" by code_simp
  moreover have "running (demo_insert False)" "k_transactional (conn (demo_insert False))"
    "k_in_tx (conn (demo_insert False))" by code_simp+
  moreover have "\<not> nd_live_transaction (snd (nv_live_commit ?N (k_native (conn (demo_insert False)))))" by code_simp
  ultimately show ?thesis using failed_commit_wedges by blast
qed

theorem open_section_returns_witness: "fst (run_section (demo_native True) SCommit (demo_insert True)) \<noteq> Blocked"
proof -
  have "running (demo_insert True)" by code_simp
  then show ?thesis by (rule open_section_returns)
qed

theorem close_race_blocks_witness:
  "fst (conn_commit (demo_native True) 1 (\<lambda>w. (True, snd (close_section (demo_native True) w))) (demo_insert True)) = Blocked"
proof -
  have "base_check 1 (conn (demo_insert True)) = Inr ()" "running (demo_insert True)"
    "k_transactional (conn (demo_insert True)) \<and> k_in_tx (conn (demo_insert True))" by code_simp+
  then show ?thesis using close_race_blocks [of 1 "demo_insert True"] by blast
qed





end
