(* ===== verification/Zx_Sessions.thy ===== *)
theory Zx_Sessions
  imports Zx_Sections
begin

text \<open>
  Replicated sessions: the part of \<open>node.zig\<close> behind \<open>open_session\<close>, \<open>execute_idempotent\<close> and
  \<open>expire_sessions\<close>, and what \<open>Connection.execute_idempotent\<close> guarantees on it.

  An \<open>image\<close> is the content of the database: the reserved tables \<open>__zaxon_meta\<close> and \<open>__zaxon_sessions\<close>
  and the application's data \<open>'d\<close>. A \<open>store\<close> holds the image of the writer connection and the image
  that a rebuild from the journal gives; the two differ exactly while \<open>needs_resync\<close> is pending. SQLite
  executing the application's SQL is the parameter \<open>sqlite\<close>. Everything that can go wrong around it
  (reading, rebuilding, admission, the local commit, the append to the log) is a \<open>fault\<close>, and the
  store carries the faults the environment will produce, in order; \<open>no_fault\<close> once they are used up.
\<close>

section \<open>Session tables\<close>

record session_row =
  sr_next_sequence :: int
  sr_last_sequence :: "int option"
  sr_last_changes :: "int option"
  sr_last_activity :: int

record 'd image =
  im_session_counter :: int
  im_write_seq :: int
  im_sessions :: "(int \<times> session_row) list"
  im_app :: 'd

text \<open>
  The end of \<open>sealCapturedTransaction\<close>, after the local commit: the batch reached the log; it failed
  before the log has it (and perhaps the payload store failed for good); or it is in the journal and
  an error is reported all the same. The flag of the last case says whether a resync was requested.
\<close>

datatype append_result = Appended | NotAppended node_error bool | Unconfirmed node_error bool

record fault =
  ft_read :: "node_error option"
  ft_resync :: "node_error option"
  ft_capacity :: "node_error option"
  ft_sealed :: "node_error option"
  ft_writer :: "node_error option"
  ft_commit :: "node_error option"
  ft_append :: append_result

definition no_fault :: fault where
  "no_fault = \<lparr>ft_read = None, ft_resync = None, ft_capacity = None, ft_sealed = None, ft_writer = None,
     ft_commit = None, ft_append = Appended\<rparr>"

record 'd sqlite =
  sq_exec :: "string \<Rightarrow> 'd \<Rightarrow> int zres \<times> 'd"
  sq_verify :: "'d \<Rightarrow> unit zres"

record 'd store =
  st_image :: "'d image"
  st_journal :: "'d image"
  st_needs_resync :: bool
  st_fatal :: bool
  st_serves_writes :: bool
  st_faults :: "fault list"

definition take_fault :: "'d store \<Rightarrow> fault \<times> 'd store" where
  "take_fault st = (case st_faults st of [] \<Rightarrow> (no_fault, st) | f # fs \<Rightarrow> (f, st\<lparr>st_faults := fs\<rparr>))"

definition fails :: "node_error option \<Rightarrow> unit zres" where
  "fails e = (case e of None \<Rightarrow> Inr () | Some e \<Rightarrow> Inl e)"

definition resyncImage :: "fault \<Rightarrow> 'd store \<Rightarrow> unit zres \<times> 'd store" where
  "resyncImage f st = and_then (fails (ft_resync f), st) (\<lambda>_ st.
     (Inr (), st\<lparr>st_image := st_journal st, st_needs_resync := False\<rparr>))"

definition resync_if_needed :: "fault \<Rightarrow> 'd store \<Rightarrow> unit zres \<times> 'd store" where
  "resync_if_needed f st = (if st_needs_resync st then resyncImage f st else (Inr (), st))"

section \<open>Operations\<close>

text \<open>The comparison of a sequence with the row of its session.\<close>

definition session_verdict :: "session_row \<Rightarrow> nat \<Rightarrow> session_check zres" where
  "session_verdict row sequence =
    (if sr_last_sequence row = Some (int sequence)
     then Inr (ReplaySession (case sr_last_changes row of None \<Rightarrow> 0 | Some n \<Rightarrow> n))
     else if int sequence < sr_next_sequence row then Inl ResultExpired
     else if int sequence > sr_next_sequence row then Inl SequenceGap
     else Inr ExecuteSession)"

text \<open>The identifier is bound as a signed 64-bit value; the safety check of that cast is \<open>Panic\<close>.\<close>

definition checkSession :: "nat \<Rightarrow> nat \<Rightarrow> 'd store \<Rightarrow> session_check zres \<times> 'd store" where
  "checkSession session_id sequence st0 =
    (case take_fault st0 of (f, st) \<Rightarrow>
      if st_fatal st then (Inl StorageFailed, st)
      else and_then (resync_if_needed f st) (\<lambda>_ st.
        and_then (fails (ft_read f), st) (\<lambda>_ st.
          if 2 ^ 63 \<le> session_id then (Inl Panic, st)
          else (case map_of (im_sessions (st_image st)) (int session_id) of
              None \<Rightarrow> (Inl UnknownSession, st)
            | Some row \<Rightarrow> (session_verdict row sequence, st)))))"

definition record_session :: "nat \<Rightarrow> nat \<Rightarrow> int \<Rightarrow> 'd image \<Rightarrow> 'd image" where
  "record_session session_id sequence changes im =
    (let slot = im_write_seq im + 1 in
     im\<lparr>im_write_seq := slot,
        im_sessions := map (\<lambda>(i, row). (i,
          if i = int session_id
          then row\<lparr>sr_next_sequence := int sequence + 1, sr_last_sequence := Some (int sequence),
                   sr_last_changes := Some changes, sr_last_activity := slot\<rparr>
          else row)) (im_sessions im)\<rparr>)"

definition sealCapturedTransaction ::
  "fault \<Rightarrow> int \<Rightarrow> (nat \<times> nat) option \<Rightarrow> 'd image \<Rightarrow> 'd store \<Rightarrow> int zres \<times> 'd store" where
  "sealCapturedTransaction f changes session im st =
    (case (case session of
        None \<Rightarrow> Inr im
      | Some (session_id, sequence) \<Rightarrow>
          if 2 ^ 63 \<le> sequence + 1 then Inl Panic else Inr (record_session session_id sequence changes im)) of
       Inl e \<Rightarrow> (Inl e, st)
     | Inr im \<Rightarrow> and_then (fails (ft_commit f), st) (\<lambda>_ st.
         case ft_append f of
           Appended \<Rightarrow> (Inr changes, st\<lparr>st_image := im, st_journal := im\<rparr>)
         | NotAppended e fatal \<Rightarrow>
             (Inl e, st\<lparr>st_image := im, st_needs_resync := True, st_fatal := st_fatal st \<or> fatal\<rparr>)
         | Unconfirmed e resync \<Rightarrow>
             (Inl e, st\<lparr>st_image := im, st_journal := im, st_needs_resync := resync\<rparr>)))"

text \<open>
  \<open>writeRequest\<close>: the admission checks, the statements inside one SQLite transaction, and the seal. An
  error of the statements or of the capture check rolls the transaction back.
\<close>

definition writeRequest ::
  "'d sqlite \<Rightarrow> bool \<Rightarrow> ('d image \<Rightarrow> int zres \<times> 'd image) \<Rightarrow> (nat \<times> nat) option \<Rightarrow> fault \<Rightarrow> 'd store \<Rightarrow>
     int zres \<times> 'd store" where
  "writeRequest Q application statements session f st =
    (if st_fatal st then (Inl StorageFailed, st)
     else and_then (fails (ft_capacity f), st) (\<lambda>_ st.
       and_then (resync_if_needed f st) (\<lambda>_ st.
       and_then (fails (ft_sealed f), st) (\<lambda>_ st.
         if \<not> st_serves_writes st then (Inl RoleCannotWrite, st)
         else and_then (fails (ft_writer f), st) (\<lambda>_ st.
           case statements (st_image st) of
             (Inl e, _) \<Rightarrow> (Inl e, st)
           | (Inr changes, im) \<Rightarrow>
               and_then (if application then sq_verify Q (im_app im) else Inr (), st) (\<lambda>_ st.
                 sealCapturedTransaction f changes session im st))))))"

definition app_statements :: "'d sqlite \<Rightarrow> string \<Rightarrow> 'd image \<Rightarrow> int zres \<times> 'd image" where
  "app_statements Q sql im = (case sq_exec Q sql (im_app im) of (r, d) \<Rightarrow> (r, im\<lparr>im_app := d\<rparr>))"

definition session_write :: "'d sqlite \<Rightarrow> nat \<Rightarrow> nat \<Rightarrow> string \<Rightarrow> 'd store \<Rightarrow> int zres \<times> 'd store" where
  "session_write Q session_id sequence sql st0 =
    (case take_fault st0 of (f, st) \<Rightarrow>
      writeRequest Q True (app_statements Q sql) (Some (session_id, sequence)) f st)"

text \<open>The three statements of \<open>openSession\<close>; the identifier is the primary key.\<close>

definition insert_session :: "int \<Rightarrow> 'd image \<Rightarrow> int zres \<times> 'd image" where
  "insert_session next_id im =
    (let slot = im_write_seq im + 1 in
     if next_id \<in> fst ` set (im_sessions im) then (Inl (CoreError 19), im)
     else (Inr 3, im\<lparr>im_session_counter := next_id, im_write_seq := slot,
       im_sessions := im_sessions im @ [(next_id, \<lparr>sr_next_sequence = 1, sr_last_sequence = None,
         sr_last_changes = None, sr_last_activity = slot\<rparr>)]\<rparr>))"

definition openSession :: "'d sqlite \<Rightarrow> 'd store \<Rightarrow> int zres \<times> 'd store" where
  "openSession Q st0 =
    (case take_fault st0 of (f, st) \<Rightarrow>
      if \<not> st_serves_writes st then (Inl RoleCannotWrite, st)
      else if st_fatal st then (Inl StorageFailed, st)
      else and_then (resync_if_needed f st) (\<lambda>_ st.
        and_then (fails (ft_read f), st) (\<lambda>_ st.
          let next_id = im_session_counter (st_image st) + 1 in
          if 2 ^ 63 \<le> next_id then (Inl Panic, st)
          else and_then (writeRequest Q False (insert_session next_id) None f st) (\<lambda>_ st. (Inr next_id, st)))))"

definition delete_idle :: "int \<Rightarrow> 'd image \<Rightarrow> int zres \<times> 'd image" where
  "delete_idle retain im =
    (let idle = (\<lambda>(i, row). sr_last_activity row < im_write_seq im - retain) in
     (Inr (int (length (filter idle (im_sessions im)))),
      im\<lparr>im_sessions := filter (\<lambda>x. \<not> idle x) (im_sessions im)\<rparr>))"

definition expireSessions :: "'d sqlite \<Rightarrow> nat \<Rightarrow> 'd store \<Rightarrow> int zres \<times> 'd store" where
  "expireSessions Q retain st0 =
    (case take_fault st0 of (f, st) \<Rightarrow> writeRequest Q False (delete_idle (int retain)) None f st)"

text \<open>Any other write of the application, outside a session.\<close>

definition plain_write :: "'d sqlite \<Rightarrow> string \<Rightarrow> 'd store \<Rightarrow> int zres \<times> 'd store" where
  "plain_write Q sql st0 =
    (case take_fault st0 of (f, st) \<Rightarrow> writeRequest Q True (app_statements Q sql) None f st)"

text \<open>The session functions as the node's \<open>core\<close> and as functions of the extension module.\<close>

definition session_core :: "'d sqlite \<Rightarrow> 'd store core \<Rightarrow> 'd store core" where
  "session_core Q C = C\<lparr>co_check_session := checkSession, co_session_write := session_write Q\<rparr>"

definition store_call :: "'d store core \<Rightarrow> ('d store \<Rightarrow> 'a zres \<times> 'd store) \<Rightarrow> 'd store \<Rightarrow> 'a nres \<times> 'd store" where
  "store_call C f st = (case f st of (Inl e, st') \<Rightarrow> (Inl (ZxErr (co_error C e)), st') | (Inr a, st') \<Rightarrow> (Inr a, st'))"

definition session_base :: "'d sqlite \<Rightarrow> 'd store core \<Rightarrow> 'd store native \<Rightarrow> 'd store native" where
  "session_base Q C B = B\<lparr>nv_session_open := store_call C (openSession Q),
     nv_expire_sessions := (\<lambda>retain. store_call C (expireSessions Q (nat (retain mod 2 ^ 64))))\<rparr>"

definition session_node :: "'d sqlite \<Rightarrow> 'd store core \<Rightarrow> 'd store native \<Rightarrow> 'd store node native" where
  "session_node Q C B = node_native (session_core Q C) (session_base Q C B)"

section \<open>The invariant of the session tables\<close>

text \<open>
  Session identifiers are distinct and were handed out by the counter; a session's next sequence
  follows the recorded one, whose result is kept; no row is newer than the write counter.
\<close>

definition row_inv :: "'d image \<Rightarrow> int \<Rightarrow> session_row \<Rightarrow> bool" where
  "row_inv im i row \<longleftrightarrow> 1 \<le> i \<and> i \<le> im_session_counter im \<and> sr_last_activity row \<le> im_write_seq im \<and>
     (case sr_last_sequence row of
        None \<Rightarrow> sr_next_sequence row = 1
      | Some l \<Rightarrow> 1 \<le> l \<and> sr_next_sequence row = l + 1 \<and> sr_last_changes row \<noteq> None)"

definition image_inv :: "'d image \<Rightarrow> bool" where
  "image_inv im \<longleftrightarrow> distinct (map fst (im_sessions im)) \<and> 0 \<le> im_session_counter im \<and>
     (\<forall>(i, row) \<in> set (im_sessions im). row_inv im i row)"

definition store_inv :: "'d store \<Rightarrow> bool" where
  "store_inv st \<longleftrightarrow> (\<not> st_needs_resync st \<longrightarrow> st_image st = st_journal st) \<and> image_inv (st_journal st)"

lemma take_fault_fields:
  "take_fault st = (f, st') \<Longrightarrow> st_image st' = st_image st \<and> st_journal st' = st_journal st \<and>
     st_needs_resync st' = st_needs_resync st \<and> st_fatal st' = st_fatal st \<and> st_serves_writes st' = st_serves_writes st"
  by (auto simp: take_fault_def split: list.splits)

text \<open>What a computation on the store does to the journal, when the store is consistent.\<close>

definition consistent :: "'d store \<Rightarrow> bool" where
  "consistent st \<longleftrightarrow> (\<not> st_needs_resync st \<longrightarrow> st_image st = st_journal st)"

lemma resync_consistent:
  assumes "consistent st" and "resync_if_needed f st = (r, st')"
  shows "consistent st'" and "st_journal st' = st_journal st" and "st_serves_writes st' = st_serves_writes st"
    and "r = Inr () \<Longrightarrow> \<not> st_needs_resync st' \<and> st_image st' = st_journal st"
  using assms
  by (auto simp: resync_if_needed_def resyncImage_def and_then_def fails_def consistent_def
      split: if_splits option.splits)

lemma seal_cases:
  assumes "sealCapturedTransaction f changes session im st = (r, st')" and "consistent st"
  obtains (same) e where "r = Inl e" and "st_journal st' = st_journal st" and "consistent st'"
  | (sealed) "r \<in> range Inl \<or> r = Inr changes" and "consistent st'"
      and "st_journal st' = (case session of None \<Rightarrow> im | Some (s, q) \<Rightarrow> record_session s q changes im)"
  using assms
  by (auto simp: sealCapturedTransaction_def and_then_def fails_def consistent_def
      split: if_splits option.splits append_result.splits prod.splits sum.splits)

text \<open>A write either leaves the journal alone and fails, or installs exactly its statements' effect.\<close>

lemma write_cases:
  assumes "writeRequest Q app run session f st = (r, st')" and "consistent st"
  obtains (kept) e where "r = Inl e" and "st_journal st' = st_journal st" and "consistent st'"
  | (written) changes im where "run (st_journal st) = (Inr changes, im)"
      and "app \<Longrightarrow> sq_verify Q (im_app im) = Inr ()" and "r \<in> range Inl \<or> r = Inr changes"
      and "st_journal st' = (case session of None \<Rightarrow> im | Some (s, q) \<Rightarrow> record_session s q changes im)"
      and "consistent st'"
proof -
  obtain r1 st1 where rs: "resync_if_needed f st = (r1, st1)" by fastforce
  note sync = resync_consistent [OF assms(2) rs]
  have fail: thesis if "r = Inl e" "st' = st \<or> st' = st1" for e
    using that kept sync assms(2) by auto
  show thesis
  proof (cases "st_fatal st \<or> ft_capacity f \<noteq> None \<or> r1 \<noteq> Inr ()")
    case True
    with assms(1) rs show thesis
      by (cases r1) (auto simp: writeRequest_def and_then_def fails_def intro: fail split: if_splits option.splits)
  next
    case False
    then have im: "st_image st1 = st_journal st" using sync by simp
    obtain r2 im2 where run: "run (st_journal st) = (r2, im2)" by fastforce
    let ?v = "if app then sq_verify Q (im_app im2) else Inr ()"
    show thesis
    proof (cases "ft_sealed f \<noteq> None \<or> \<not> st_serves_writes st1 \<or> ft_writer f \<noteq> None \<or> r2 \<in> range Inl \<or> ?v \<noteq> Inr ()")
      case True
      with assms(1) rs False im run show thesis
        by (cases r2; cases ?v)
          (auto simp: writeRequest_def and_then_def fails_def intro: fail split: if_splits option.splits sum.splits)
    next
      case ok: False
      then obtain changes where r2: "r2 = Inr changes" by (cases r2) auto
      from assms(1) rs False im run ok r2 have
        "sealCapturedTransaction f changes session im2 st1 = (r, st')"
        by (auto simp: writeRequest_def and_then_def fails_def)
      from this sync(1) show thesis
      proof (cases rule: seal_cases)
        case (same e)
        with sync(2) show thesis by (auto intro: kept)
      next
        case sealed
        with run r2 ok show thesis by (auto intro!: written split: if_splits)
      qed
    qed
  qed
qed

subsection \<open>Every write keeps it\<close>

lemma store_inv_alt: "store_inv st \<longleftrightarrow> consistent st \<and> image_inv (st_journal st)"
  by (simp add: store_inv_def consistent_def)

lemma app_statements_session:
  "app_statements Q sql im = (Inr changes, im') \<longleftrightarrow>
     (\<exists>d. sq_exec Q sql (im_app im) = (Inr changes, d) \<and> im' = im\<lparr>im_app := d\<rparr>)"
  by (auto simp: app_statements_def split: prod.splits)

lemma image_inv_app [simp]: "image_inv (im\<lparr>im_app := d\<rparr>) = image_inv im"
  by (simp add: image_inv_def row_inv_def)

lemma record_session_keys [simp]: "map fst (im_sessions (record_session s q c im)) = map fst (im_sessions im)"
  by (auto simp: record_session_def Let_def)

lemma record_session_fields [simp]:
  "im_session_counter (record_session s q c im) = im_session_counter im"
  "im_write_seq (record_session s q c im) = im_write_seq im + 1"
  "im_app (record_session s q c im) = im_app im"
  by (simp_all add: record_session_def Let_def)

lemma map_of_update_value:
  "map_of (map (\<lambda>(i, v). (i, g i v)) xs) k = map_option (g k) (map_of xs k)"
  by (induction xs) auto

lemma record_session_lookup:
  "map_of (im_sessions (record_session s q c im)) i = map_option (\<lambda>row.
     if i = int s then row\<lparr>sr_next_sequence := int q + 1, sr_last_sequence := Some (int q),
        sr_last_changes := Some c, sr_last_activity := im_write_seq im + 1\<rparr> else row) (map_of (im_sessions im) i)"
  by (simp add: record_session_def Let_def map_of_update_value)

lemma image_inv_record:
  assumes "image_inv im" and "1 \<le> q"
  shows "image_inv (record_session s q c im)"
proof -
  have "row_inv (record_session s q c im) i row'"
    if "(i, row') \<in> set (im_sessions (record_session s q c im))" for i row'
  proof -
    from that obtain row where row: "(i, row) \<in> set (im_sessions im)" and
      row': "row' = (if i = int s then row\<lparr>sr_next_sequence := int q + 1, sr_last_sequence := Some (int q),
        sr_last_changes := Some c, sr_last_activity := im_write_seq im + 1\<rparr> else row)"
      by (auto simp: record_session_def Let_def split: if_splits)
    from row assms(1) have "row_inv im i row" by (auto simp: image_inv_def)
    with assms(2) row' show ?thesis by (auto simp: row_inv_def split: option.splits)
  qed
  with assms(1) show ?thesis by (auto simp: image_inv_def)
qed

lemma image_inv_insert:
  "image_inv im \<Longrightarrow> insert_session (im_session_counter im + 1) im = (Inr n, im') \<Longrightarrow> image_inv im'"
  by (fastforce simp: insert_session_def Let_def image_inv_def row_inv_def split: if_splits option.splits)

lemma insert_session_counter: "insert_session i im = (Inr n, im') \<Longrightarrow> im_session_counter im' = i"
  by (auto simp: insert_session_def Let_def split: if_splits)

lemma insert_session_row:
  assumes "insert_session i im = (Inr n, im')"
  shows "\<exists>row. map_of (im_sessions im') i = Some row \<and> session_verdict row 1 = Inr ExecuteSession"
proof -
  let ?row = "\<lparr>sr_next_sequence = 1, sr_last_sequence = None, sr_last_changes = None, sr_last_activity = im_write_seq im + 1\<rparr>"
  have "map_of (im_sessions im) i = None"
    using assms by (auto simp: insert_session_def Let_def map_of_eq_None_iff split: if_splits)
  with assms have "map_of (im_sessions im') i = Some ?row"
    by (auto simp: insert_session_def Let_def map_add_def split: if_splits)
  moreover have "session_verdict ?row 1 = Inr ExecuteSession" by (simp add: session_verdict_def)
  ultimately show ?thesis by blast
qed

lemma image_inv_delete: "image_inv im \<Longrightarrow> delete_idle k im = (Inr n, im') \<Longrightarrow> image_inv im'"
  by (auto simp: delete_idle_def Let_def image_inv_def row_inv_def distinct_map_filter)

lemma write_inv:
  assumes "store_inv st" and "writeRequest Q app run session f st = (r, st')"
    and "\<And>n im. run (st_journal st) = (Inr n, im) \<Longrightarrow> image_inv im"
    and "\<And>s q. session = Some (s, q) \<Longrightarrow> 1 \<le> q"
  shows "store_inv st'"
  using assms(2) assms(1)[unfolded store_inv_alt, THEN conjunct1]
proof (cases rule: write_cases)
  case (kept e)
  with assms(1) show ?thesis by (simp add: store_inv_alt)
next
  case (written changes im)
  with assms(3,4) show ?thesis
    by (auto simp: store_inv_alt image_inv_record split: option.splits)
qed

text \<open>A sequence the session table lets through is at least 1 and is the next one.\<close>

lemma check_journal:
  assumes "checkSession s q st = (r, st')" and "consistent st"
  shows "consistent st' \<and> st_journal st' = st_journal st \<and>
    (case r of Inl e \<Rightarrow> True | Inr check \<Rightarrow> \<exists>row. map_of (im_sessions (st_journal st)) (int s) = Some row \<and>
       session_verdict row q = Inr check)"
proof -
  obtain f st1 where f: "take_fault st = (f, st1)" by fastforce
  note fields = take_fault_fields [OF f]
  have c1: "consistent st1" using assms(2) fields by (simp add: consistent_def)
  obtain r2 st2 where rs: "resync_if_needed f st1 = (r2, st2)" by fastforce
  note sync = resync_consistent [OF c1 rs]
  from assms(1) f rs show ?thesis
    by (cases r2)
      (use c1 sync fields in \<open>auto simp: checkSession_def and_then_def fails_def split: if_splits option.splits sum.splits\<close>)
qed

lemma verdict_execute: "session_verdict row q = Inr ExecuteSession \<Longrightarrow> int q = sr_next_sequence row"
  by (auto simp: session_verdict_def split: if_splits)

lemma permitted_positive:
  "image_inv im \<Longrightarrow> map_of (im_sessions im) i = Some row \<Longrightarrow> session_verdict row q = Inr ExecuteSession \<Longrightarrow> 1 \<le> q"
  by (fastforce simp: image_inv_def row_inv_def split: option.splits dest: map_of_SomeD verdict_execute)

subsection \<open>The functions of the extension module\<close>

abbreviation journal :: "'d store node \<Rightarrow> 'd image" where
  "journal nd \<equiv> st_journal (nd_core nd)"

lemma session_node_simps:
  "nv_exec_idempotent (session_node Q C B) = zx_exec_idempotent (session_core Q C)"
  "nv_session_open (session_node Q C B) = lift_write (session_core Q C) (store_call C (openSession Q))"
  "nv_expire_sessions (session_node Q C B) =
     (\<lambda>retain. lift_write (session_core Q C) (store_call C (expireSessions Q (nat (retain mod 2 ^ 64)))))"
  by (simp_all add: session_node_def node_native_def session_base_def)

lemma session_core_simps [simp]:
  "co_check_session (session_core Q C) = checkSession" "co_session_write (session_core Q C) = session_write Q"
  by (simp_all add: session_core_def)

lemma exec_cases:
  assumes "execIdempotent (session_core Q C) s q sql nd = (r, nd')" and "consistent (nd_core nd)"
  obtains (kept) e where "r = Inl e" and "journal nd' = journal nd" and "consistent (nd_core nd')"
  | (replay) row c where "map_of (im_sessions (journal nd)) (int s) = Some row"
      and "session_verdict row q = Inr (ReplaySession c)" and "r = Inr (c, True)"
      and "journal nd' = journal nd" and "consistent (nd_core nd')"
  | (written) row c d where "map_of (im_sessions (journal nd)) (int s) = Some row"
      and "session_verdict row q = Inr ExecuteSession" and "sq_exec Q sql (im_app (journal nd)) = (Inr c, d)"
      and "journal nd' = record_session s q c ((journal nd)\<lparr>im_app := d\<rparr>)" and "consistent (nd_core nd')"
      and "r \<in> range Inl \<or> r = Inr (c, False)"
proof -
  obtain r1 st1 where ck: "checkSession s q (nd_core nd) = (r1, st1)" by fastforce
  note j = check_journal [OF ck assms(2)]
  consider (error) e where "r1 = Inl e" | (recorded) c where "r1 = Inr (ReplaySession c)"
    | (run) "r1 = Inr ExecuteSession"
    using session_check.exhaust by (metis sum.exhaust)
  then show thesis
  proof cases
    case error
    with assms(1) ck j show thesis by (intro kept) (auto simp: execIdempotent_def on_core_def and_then_def)
  next
    case recorded
    with assms(1) ck j show thesis by (auto simp: execIdempotent_def on_core_def and_then_def intro: replay)
  next
    case run
    show thesis
    proof (cases "nd_live_transaction nd")
      case True
      with run assms(1) ck j show thesis by (intro kept) (auto simp: execIdempotent_def on_core_def and_then_def)
    next
      case False
      obtain f st2 where f: "take_fault st1 = (f, st2)" by fastforce
      obtain r3 st3 where wr: "writeRequest Q True (app_statements Q sql) (Some (s, q)) f st2 = (r3, st3)"
        by fastforce
      note fields = take_fault_fields [OF f]
      have c2: "consistent st2" using j fields by (simp add: consistent_def)
      have out: "nd_core nd' = st3" "r = (case r3 of Inl e \<Rightarrow> Inl e | Inr c \<Rightarrow> Inr (c, False))"
        using run assms(1) ck False f wr
        by (auto simp: execIdempotent_def on_core_def and_then_def session_write_def split: sum.splits)
      from wr c2 show thesis
      proof (cases rule: write_cases)
        case (kept e)
        with out j fields show thesis by (intro that(1)) auto
      next
        case (written c im)
        have j2: "st_journal st2 = journal nd" using j fields by simp
        from j run obtain row where row: "map_of (im_sessions (journal nd)) (int s) = Some row"
          "session_verdict row q = Inr ExecuteSession" by auto
        from written(1) j2 obtain d where d: "sq_exec Q sql (im_app (journal nd)) = (Inr c, d)"
          "im = (journal nd)\<lparr>im_app := d\<rparr>"
          by (auto simp: app_statements_session)
        have "r \<in> range Inl \<or> r = Inr (c, False)" using written(3) out(2) by auto
        with written(4,5) out(1) row d show thesis by (intro that(3) [OF row d(1)]) simp_all
      qed
    qed
  qed
qed

lemma exec_inv:
  assumes "execIdempotent (session_core Q C) s q sql nd = (r, nd')" and "store_inv (nd_core nd)"
  shows "store_inv (nd_core nd')" and "im_session_counter (journal nd') = im_session_counter (journal nd)"
proof -
  have "store_inv (nd_core nd') \<and> im_session_counter (journal nd') = im_session_counter (journal nd)"
    using assms(1) assms(2)[unfolded store_inv_alt, THEN conjunct1]
  proof (cases rule: exec_cases)
    case (kept e)
    with assms(2) show ?thesis by (simp add: store_inv_alt)
  next
    case (replay row c)
    with assms(2) show ?thesis by (simp add: store_inv_alt)
  next
    case (written row c d)
    with assms(2) show ?thesis by (auto simp: store_inv_alt intro!: image_inv_record permitted_positive)
  qed
  then show "store_inv (nd_core nd')" and "im_session_counter (journal nd') = im_session_counter (journal nd)"
    by simp_all
qed

lemma open_inv:
  assumes "openSession Q st = (r, st')" and "store_inv st"
  shows "store_inv st' \<and> im_session_counter (st_journal st) \<le> im_session_counter (st_journal st') \<and>
    (\<forall>i. r = Inr i \<longrightarrow> i = im_session_counter (st_journal st) + 1 \<and> im_session_counter (st_journal st') = i \<and> i < 2 ^ 63 \<and>
       (\<exists>row. map_of (im_sessions (st_journal st')) i = Some row \<and> session_verdict row 1 = Inr ExecuteSession))"
proof -
  obtain f st1 where f: "take_fault st = (f, st1)" by fastforce
  note fields = take_fault_fields [OF f]
  have c1: "consistent st1" "image_inv (st_journal st1)"
    using assms(2) fields by (auto simp: store_inv_alt consistent_def)
  obtain r2 st2 where rs: "resync_if_needed f st1 = (r2, st2)" by fastforce
  note sync = resync_consistent [OF c1(1) rs]
  let ?i = "im_session_counter (st_journal st) + 1"
  obtain r3 st3 where wr: "writeRequest Q False (insert_session ?i) None f st2 = (r3, st3)" by fastforce
  have i2: "store_inv st2" using c1 sync by (simp add: store_inv_alt)
  show ?thesis
  proof (cases "st_serves_writes st1 \<and> \<not> st_fatal st1 \<and> r2 = Inr () \<and> ft_read f = None \<and> \<not> 2 ^ 63 \<le> ?i")
    case False
    have "(r, st') \<in> {(Inl e, st1) | e. True} \<union> {(Inl e, st2) | e. True}"
      using assms(1) f rs False sync fields
      by (auto simp: openSession_def and_then_def fails_def Let_def split: if_splits option.splits sum.splits)
    with i2 c1 sync fields show ?thesis by (auto simp: store_inv_alt)
  next
    case True
    then have out: "st' = st3" "r = (case r3 of Inl e \<Rightarrow> Inl e | Inr _ \<Rightarrow> Inr ?i)"
      using assms(1) f rs sync fields wr
      by (auto simp: openSession_def and_then_def fails_def Let_def split: sum.splits)
    have inv3: "store_inv st3"
      by (rule write_inv [OF i2 wr]) (use i2 sync fields image_inv_insert in \<open>auto simp: store_inv_alt\<close>)
    from wr sync(1) show ?thesis
    proof (cases rule: write_cases)
      case (kept e)
      with out inv3 sync fields show ?thesis by simp
    next
      case (written n im)
      then have "im_session_counter (st_journal st3) = ?i"
        "\<exists>row. map_of (im_sessions (st_journal st3)) ?i = Some row \<and> session_verdict row 1 = Inr ExecuteSession"
        using insert_session_row by (auto simp: insert_session_counter)
      with True out inv3 sync fields show ?thesis by (auto split: sum.splits)
    qed
  qed
qed

lemma write_counter:
  assumes "writeRequest Q app run session f st = (r, st')" and "store_inv st"
    and "\<And>n im. run (st_journal st) = (Inr n, im) \<Longrightarrow> im_session_counter im = im_session_counter (st_journal st)"
  shows "im_session_counter (st_journal st') = im_session_counter (st_journal st)"
  using assms(1) assms(2)[unfolded store_inv_alt, THEN conjunct1]
proof (cases rule: write_cases)
  case (written n im)
  with assms(3) [OF written(1)] show ?thesis by (cases session) auto
qed simp

lemma faulty_write:
  assumes "(case take_fault st0 of (f, st) \<Rightarrow> writeRequest Q app run None f st) = (r, st')" and "store_inv st0"
    and "\<And>im n im'. run im = (Inr n, im') \<Longrightarrow> im_session_counter im' = im_session_counter im"
    and "\<And>im n im'. run im = (Inr n, im') \<Longrightarrow> image_inv im \<Longrightarrow> image_inv im'"
  shows "store_inv st' \<and> im_session_counter (st_journal st') = im_session_counter (st_journal st0)"
proof -
  obtain f st where f: "take_fault st0 = (f, st)" by fastforce
  have inv: "store_inv st" using assms(2) take_fault_fields [OF f] by (auto simp: store_inv_def)
  from assms(1) f have wr: "writeRequest Q app run None f st = (r, st')" by simp
  have "store_inv st'"
    by (rule write_inv [OF inv wr]) (use assms(4) inv in \<open>auto simp: store_inv_def\<close>)
  moreover have "im_session_counter (st_journal st') = im_session_counter (st_journal st)"
    by (rule write_counter [OF wr inv]) (rule assms(3))
  ultimately show ?thesis using take_fault_fields [OF f] by simp
qed

lemma expire_inv:
  assumes "expireSessions Q k st = (r, st')" and "store_inv st"
  shows "store_inv st' \<and> im_session_counter (st_journal st') = im_session_counter (st_journal st)"
  using assms(1)[unfolded expireSessions_def] assms(2)
  by (rule faulty_write) (auto simp: delete_idle_def Let_def intro: image_inv_delete [unfolded delete_idle_def Let_def])

lemma plain_inv:
  assumes "plain_write Q sql st = (r, st')" and "store_inv st"
  shows "store_inv st' \<and> im_session_counter (st_journal st') = im_session_counter (st_journal st)"
  using assms(1)[unfolded plain_write_def] assms(2)
  by (rule faulty_write) (auto simp: app_statements_session)

section \<open>Every history of a node's sessions\<close>

text \<open>
  The session functions and other writes in any order, with whatever faults the environment brings.
  A new database starts with the tables of \<open>bootstrapSql\<close>.
\<close>

inductive session_step :: "'d sqlite \<Rightarrow> 'd store core \<Rightarrow> 'd store native \<Rightarrow> 'd store node \<Rightarrow> 'd store node \<Rightarrow> bool"
  for Q C B where
  step_open: "session_step Q C B nd (snd (nv_session_open (session_node Q C B) nd))"
| step_idempotent: "session_step Q C B nd (snd (nv_exec_idempotent (session_node Q C B) session sequence sql nd))"
| step_expire: "session_step Q C B nd (snd (nv_expire_sessions (session_node Q C B) retain nd))"
| step_write: "session_step Q C B nd (nd\<lparr>nd_core := snd (plain_write Q sql (nd_core nd))\<rparr>)"
| step_faults: "session_step Q C B nd (nd\<lparr>nd_core := (nd_core nd)\<lparr>st_faults := fs\<rparr>\<rparr>)"

inductive_cases session_stepE: "session_step Q C B nd nd'"

definition bootstrap_image :: "'d \<Rightarrow> 'd image" where
  "bootstrap_image d = \<lparr>im_session_counter = 0, im_write_seq = 0, im_sessions = [], im_app = d\<rparr>"

definition session_start :: "'d store node \<Rightarrow> bool" where
  "session_start nd \<longleftrightarrow> \<not> st_needs_resync (nd_core nd) \<and> st_image (nd_core nd) = journal nd \<and>
     (\<exists>d. journal nd = bootstrap_image d)"

lemma lift_store:
  assumes "\<And>st r st'. f st = (r, st') \<Longrightarrow> store_inv st \<Longrightarrow> store_inv st' \<and>
      im_session_counter (st_journal st) \<le> im_session_counter (st_journal st')"
    and "store_inv (nd_core nd)"
  shows "store_inv (nd_core (snd (lift_write D (store_call C f) nd))) \<and>
    im_session_counter (journal nd) \<le> im_session_counter (journal (snd (lift_write D (store_call C f) nd)))"
  using assms(2) assms(1) [of "nd_core nd"]
  by (auto simp: lift_write_def lift_core_def store_call_def split: prod.splits sum.splits)

lemma session_step_inv:
  assumes "session_step Q C B nd nd'" and "store_inv (nd_core nd)"
  shows "store_inv (nd_core nd') \<and> im_session_counter (journal nd) \<le> im_session_counter (journal nd')"
  using assms(1)
proof (cases rule: session_step.cases)
  case step_open
  then show ?thesis
    using lift_store [OF _ assms(2), of "openSession Q" "session_core Q C" C] open_inv
    by (fastforce simp: session_node_simps)
next
  case (step_idempotent session sequence sql)
  have "store_inv (nd_core (snd (to_native D f nd))) \<and> im_session_counter (journal nd) \<le> im_session_counter (journal (snd (to_native D f nd)))"
    if "f = execIdempotent (session_core Q C) i j sql" for D f i j
    using exec_inv [of Q C i j sql nd] assms(2) that
    by (cases "f nd") (auto simp: to_native_def split: sum.splits)
  with step_idempotent assms(2) show ?thesis by (simp add: session_node_simps zx_exec_idempotent_def)
next
  case (step_expire retain)
  then show ?thesis
    using lift_store [OF _ assms(2), of "expireSessions Q (nat (retain mod 2 ^ 64))" "session_core Q C" C] expire_inv
    by (fastforce simp: session_node_simps)
next
  case (step_write sql)
  with assms(2) plain_inv [of Q sql "nd_core nd"] show ?thesis by (cases "plain_write Q sql (nd_core nd)") simp
next
  case (step_faults fs)
  with assms(2) show ?thesis by (simp add: store_inv_def)
qed

interpretation sessions: state_machine session_start "session_step Q C B" "\<lambda>nd. store_inv (nd_core nd)" for Q C B
proof unfold_locales
  show "session_start nd \<Longrightarrow> store_inv (nd_core nd)" for nd
    by (auto simp: session_start_def store_inv_def bootstrap_image_def image_inv_def)
qed (use session_step_inv in blast)

lemma counter_grows:
  "(session_step Q C B)\<^sup>*\<^sup>* nd nd' \<Longrightarrow> store_inv (nd_core nd) \<Longrightarrow>
     im_session_counter (journal nd) \<le> im_session_counter (journal nd')"
proof (induction rule: rtranclp_induct)
  case base
  then show ?case by simp
next
  case (step nd1 nd2)
  have "store_inv (nd_core nd1)" by (rule sessions.steps_inv [OF step(1) step(4)])
  with session_step_inv [OF step(2)] step.IH [OF step(4)] show ?case by linarith
qed

lemma open_answer:
  assumes "nv_session_open (session_node Q C B) nd = (Inr i, nd')" and "store_inv (nd_core nd)"
  shows "i = im_session_counter (journal nd) + 1 \<and> im_session_counter (journal nd') = i"
  using assms open_inv [of Q "nd_core nd"]
  by (fastforce simp: session_node_simps lift_write_def lift_core_def store_call_def split: prod.splits sum.splits if_splits)

text \<open>
  C20. A session identifier is never handed out twice: whatever sequence of session calls, other writes,
  expiries and faults lies between two successful \<open>open_session\<close> calls, the second returns a larger
  number, so a retry can never meet the row of a different session; the identifiers in the table
  stay distinct.
\<close>

theorem session_ids_never_reused:
  assumes "session_start nd0" and "(session_step Q C B)\<^sup>*\<^sup>* nd0 nd1"
    and "nv_session_open (session_node Q C B) nd1 = (Inr i, nd2)"
    and "(session_step Q C B)\<^sup>*\<^sup>* nd2 nd3"
    and "nv_session_open (session_node Q C B) nd3 = (Inr j, nd4)"
  shows "i < j \<and> distinct (map fst (im_sessions (journal nd4)))"
proof -
  have s1: "store_inv (nd_core nd1)" by (rule sessions.reachable_inv [OF assms(1,2)])
  have s2: "store_inv (nd_core nd2)"
    using session_step_inv [OF step_open s1, of Q C B] assms(3) by simp
  have s3: "store_inv (nd_core nd3)" by (rule sessions.steps_inv [OF assms(4) s2])
  have s4: "store_inv (nd_core nd4)"
    using session_step_inv [OF step_open s3, of Q C B] assms(5) by simp
  from open_answer [OF assms(3) s1] counter_grows [OF assms(4) s2] open_answer [OF assms(5) s3] s4
  show ?thesis by (simp add: store_inv_def image_inv_def)
qed

section \<open>Retries apply once\<close>

text \<open>A client that makes the same call again and again, whatever it answers.\<close>

fun attempts :: "('w \<Rightarrow> 'r \<times> 'w) \<Rightarrow> nat \<Rightarrow> 'w \<Rightarrow> 'r list \<times> 'w" where
  "attempts call 0 w = ([], w)"
| "attempts call (Suc n) w =
    (case call w of (r, w') \<Rightarrow> (case attempts call n w' of (rs, w'') \<Rightarrow> (r # rs, w'')))"

text \<open>The call reports a fresh execution.\<close>

fun applied :: "(int \<times> bool) outcome \<Rightarrow> bool" where
  "applied (Return (_, replayed)) = (\<not> replayed)"
| "applied _ = False"

text \<open>
  The contract of a call that can be repeated: while its effect is \<open>pending\<close> it raises, leaving it pending or
  not, or executes; once the effect is \<open>recorded\<close> it stays so, and the call raises or replays.
\<close>

locale repeatable =
  fixes call :: "'w \<Rightarrow> (int \<times> bool) outcome \<times> 'w"
    and pending recorded :: "'w \<Rightarrow> bool"
    and changes :: int
    and total :: "'w \<Rightarrow> int"
  assumes pending_call: "pending w \<Longrightarrow> call w = (r, w') \<Longrightarrow> total w' = total w + (if applied r then changes else 0) \<and>
      ((\<exists>e. r = Raise e) \<and> pending w' \<or> ((\<exists>e. r = Raise e) \<or> r = Return (changes, False)) \<and> recorded w')"
    and recorded_call: "recorded w \<Longrightarrow> call w = (r, w') \<Longrightarrow> total w' = total w \<and> recorded w' \<and>
      ((\<exists>e. r = Raise e) \<or> r = Return (changes, True))"
begin

lemma attempts_recorded:
  "recorded w \<Longrightarrow> attempts call n w = (rs, w') \<Longrightarrow> recorded w' \<and> total w' = total w \<and>
     (\<forall>r \<in> set rs. (\<exists>e. r = Raise e) \<or> r = Return (changes, True))"
proof (induction n arbitrary: w rs w')
  case (Suc n)
  obtain r w1 where r: "call w = (r, w1)" by fastforce
  obtain rs' w2 where rest: "attempts call n w1 = (rs', w2)" by fastforce
  from recorded_call [OF Suc.prems(1) r] Suc.IH [OF _ rest] Suc.prems(2) r rest show ?case by auto
qed simp

lemma attempts_pending:
  "pending w \<Longrightarrow> attempts call n w = (rs, w') \<Longrightarrow> (pending w' \<or> recorded w') \<and> Blocked \<notin> set rs \<and>
     (\<forall>v b. Return (v, b) \<in> set rs \<longrightarrow> v = changes \<and> recorded w') \<and>
     length (filter applied rs) \<le> 1 \<and> total w' = total w + changes * int (length (filter applied rs))"
proof (induction n arbitrary: w rs w')
  case (Suc n)
  obtain r w1 where r: "call w = (r, w1)" by fastforce
  obtain rs' w2 where rest: "attempts call n w1 = (rs', w2)" by fastforce
  note first = pending_call [OF Suc.prems(1) r]
  from Suc.prems(2) r rest have rs: "rs = r # rs'" "w' = w2" by auto
  show ?case
  proof (cases "recorded w1")
    case True
    note fin = attempts_recorded [OF True rest]
    then have "filter applied rs' = []" by (auto simp: filter_empty_conv)
    moreover have "\<forall>v b. Return (v, b) \<in> set rs' \<longrightarrow> v = changes" "Blocked \<notin> set rs'" using fin by auto
    moreover from first have "(\<exists>e. r = Raise e) \<or> r = Return (changes, False)"
      "total w1 = total w + (if applied r then changes else 0)" by blast+
    ultimately show ?thesis using fin by (cases r) (simp_all add: rs)
  next
    case False
    with first have "pending w1" "\<exists>e. r = Raise e" "total w1 = total w" by auto
    with Suc.IH [OF _ rest] show ?thesis by (cases r) (simp_all add: rs)
  qed
qed simp

end

text \<open>
  The two phases of a sequence: its write is not in the journal (\<open>im0\<close>) or it is, once (\<open>im1\<close>), with its
  result recorded.
\<close>

definition once_applied :: "nat \<Rightarrow> nat \<Rightarrow> int \<Rightarrow> 'd \<Rightarrow> 'd image \<Rightarrow> 'd image" where
  "once_applied s q c d im = record_session s q c (im\<lparr>im_app := d\<rparr>)"

definition ready :: "nat \<Rightarrow> 'd store node lworld \<Rightarrow> bool" where
  "ready me w \<longleftrightarrow> base_check me (conn w) = Inr () \<and> running w \<and> consistent (nd_core (k_native (conn w)))"

abbreviation wjournal :: "'d store node lworld \<Rightarrow> 'd image" where
  "wjournal w \<equiv> journal (k_native (conn w))"

lemma base_check_native [simp]:
  "base_check me (c\<lparr>k_native := n\<rparr>) = base_check me c" "base_check me (c\<lparr>k_total_changes := m\<rparr>) = base_check me c"
  by (simp_all add: base_check_def)

lemma execute_idempotent_open:
  assumes "base_check me (conn w) = Inr ()" and "running w"
    and "nv_exec_idempotent N s q sql (k_native (conn w)) = (r, n)"
  shows "execute_idempotent N me (\<lambda>w. (True, w)) s q sql w =
    (native_outcome map_native_error r, w\<lparr>conn := (conn w)\<lparr>k_native := n,
       k_total_changes := k_total_changes (conn w) + (case r of Inr (c, False) \<Rightarrow> c | _ \<Rightarrow> 0)\<rparr>\<rparr>)"
  using assms
  by (cases r) (auto simp: execute_idempotent_def open_check with_lane_def idempotent_section_def pbind_def
      running_def call_native_running native_outcome_def ret_def add_changes_def set_conn_def modify_s_def
      split: native_exc.splits bool.splits prod.splits)

lemma u64_of_nat: "s < 2 ^ 63 \<Longrightarrow> nat (int s mod 2 ^ 64) = s"
  by simp

lemma once_applied_verdict:
  assumes "map_of (im_sessions im) (int s) = Some row"
  shows "\<exists>row'. map_of (im_sessions (once_applied s q c d im)) (int s) = Some row' \<and>
    session_verdict row' q = Inr (ReplaySession c)"
  using assms by (simp add: once_applied_def record_session_lookup session_verdict_def)

text \<open>One attempt on the node, in either phase.\<close>

lemma phase_step:
  assumes exec: "zx_exec_idempotent (session_core Q C) (int s) (int q) sql nd = (r, nd')"
    and ok: "consistent (nd_core nd)" "s < 2 ^ 63" "q < 2 ^ 63"
    and row: "map_of (im_sessions im0) (int s) = Some row" "session_verdict row q = Inr ExecuteSession"
    and sql: "sq_exec Q sql (im_app im0) = (Inr c, d)"
  defines "im1 \<equiv> once_applied s q c d im0"
  shows "journal nd = im0 \<Longrightarrow> consistent (nd_core nd') \<and>
      (r \<in> range Inl \<and> journal nd' = im0 \<or> (r \<in> range Inl \<or> r = Inr (c, False)) \<and> journal nd' = im1)"
    and "journal nd = im1 \<Longrightarrow> consistent (nd_core nd') \<and> journal nd' = im1 \<and> (r \<in> range Inl \<or> r = Inr (c, True))"
proof -
  obtain r1 nd1 where run: "execIdempotent (session_core Q C) s q sql nd = (r1, nd1)" by fastforce
  obtain row' where row': "map_of (im_sessions im1) (int s) = Some row'" "session_verdict row' q = Inr (ReplaySession c)"
    using once_applied_verdict [OF row(1)] unfolding im1_def by blast
  have out: "(r \<in> range Inl \<and> nd' = nd) \<or> nd' = nd1 \<and> (case r1 of Inl _ \<Rightarrow> r \<in> range Inl | Inr a \<Rightarrow> r = Inr a)"
    using exec run u64_of_nat [OF ok(2)] u64_of_nat [OF ok(3)]
    by (auto simp: zx_exec_idempotent_def to_native_def split: if_splits sum.splits)
  show "consistent (nd_core nd') \<and>
      (r \<in> range Inl \<and> journal nd' = im0 \<or> (r \<in> range Inl \<or> r = Inr (c, False)) \<and> journal nd' = im1)"
    if j: "journal nd = im0"
    using run ok(1)
  proof (cases rule: exec_cases)
    case (kept e)
    with out j ok(1) show ?thesis by auto
  next
    case (replay row2 c2)
    with j row have False by simp
    then show ?thesis ..
  next
    case (written row2 c2 d2)
    with j sql have "c2 = c" "d2 = d" by simp_all
    with written j out ok(1) show ?thesis by (auto simp: im1_def once_applied_def)
  qed
  show "consistent (nd_core nd') \<and> journal nd' = im1 \<and> (r \<in> range Inl \<or> r = Inr (c, True))"
    if j: "journal nd = im1"
    using run ok(1)
  proof (cases rule: exec_cases)
    case (kept e)
    with out j ok(1) show ?thesis by auto
  next
    case (replay row2 c2)
    with j row' have "c2 = c" by simp
    with replay j out ok(1) show ?thesis by auto
  next
    case (written row2 c2 d2)
    with j row' have False by simp
    then show ?thesis ..
  qed
qed

text \<open>One call of \<open>execute_idempotent\<close>, in either phase.\<close>

lemma attempt:
  fixes w :: "'d store node lworld"
  assumes "ready me w" "s < 2 ^ 63" "q < 2 ^ 63"
    and "map_of (im_sessions im0) (int s) = Some row" "session_verdict row q = Inr ExecuteSession"
    and "sq_exec Q sql (im_app im0) = (Inr c, d)"
    and "execute_idempotent (session_node Q C B) me (\<lambda>w. (True, w)) (int s) (int q) sql w = (r, w')"
  defines "im1 \<equiv> once_applied s q c d im0"
  shows "wjournal w = im0 \<Longrightarrow> ready me w' \<and> r \<noteq> Blocked \<and>
      total_changes w' = total_changes w + (if applied r then c else 0) \<and>
      ((\<exists>e. r = Raise e) \<and> wjournal w' = im0 \<or> ((\<exists>e. r = Raise e) \<or> r = Return (c, False)) \<and> wjournal w' = im1)"
    and "wjournal w = im1 \<Longrightarrow> ready me w' \<and> total_changes w' = total_changes w \<and> wjournal w' = im1 \<and>
      ((\<exists>e. r = Raise e) \<or> r = Return (c, True))"
proof -
  obtain r1 nd1 where run: "zx_exec_idempotent (session_core Q C) (int s) (int q) sql (k_native (conn w)) = (r1, nd1)"
    by fastforce
  have open_w: "base_check me (conn w) = Inr ()" "running w" "consistent (nd_core (k_native (conn w)))"
    using assms(1) by (simp_all add: ready_def)
  have out: "r = native_outcome map_native_error r1"
    "conn w' = (conn w)\<lparr>k_native := nd1, k_total_changes := k_total_changes (conn w) + (case r1 of Inr (c, False) \<Rightarrow> c | _ \<Rightarrow> 0)\<rparr>"
    using execute_idempotent_open [OF open_w(1,2), of "session_node Q C B" "int s" "int q" sql r1 nd1] run assms(7)
    by (auto simp: session_node_simps)
  have raised: "r1 \<in> range Inl \<Longrightarrow> \<exists>e. r = Raise e"
    using out(1) by (auto simp: native_outcome_def split: native_exc.splits)
  note step = phase_step [OF run open_w(3) assms(2-6), folded im1_def]
  show "ready me w' \<and> r \<noteq> Blocked \<and> total_changes w' = total_changes w + (if applied r then c else 0) \<and>
      ((\<exists>e. r = Raise e) \<and> wjournal w' = im0 \<or> ((\<exists>e. r = Raise e) \<or> r = Return (c, False)) \<and> wjournal w' = im1)"
    if "wjournal w = im0"
    using step(1) [OF that] out raised open_w
    by (auto simp: ready_def running_def total_changes_def native_outcome_def)
  show "ready me w' \<and> total_changes w' = total_changes w \<and> wjournal w' = im1 \<and> ((\<exists>e. r = Raise e) \<or> r = Return (c, True))"
    if "wjournal w = im1"
    using step(2) [OF that] out raised open_w
    by (auto simp: ready_def running_def total_changes_def native_outcome_def)
qed

text \<open>The session permits the sequence next and its statement executes.\<close>

definition permitted :: "'d sqlite \<Rightarrow> string \<Rightarrow> nat \<Rightarrow> nat \<Rightarrow> int \<Rightarrow> 'd \<Rightarrow> 'd image \<Rightarrow> bool" where
  "permitted Q sql s q c d im \<longleftrightarrow> s < 2 ^ 63 \<and> q < 2 ^ 63 \<and> sq_exec Q sql (im_app im) = (Inr c, d) \<and>
     (\<exists>row. map_of (im_sessions im) (int s) = Some row \<and> session_verdict row q = Inr ExecuteSession)"

interpretation session: repeatable
    "execute_idempotent (session_node Q C B) me (\<lambda>w. (True, w)) (int s) (int q) sql"
    "\<lambda>w. permitted Q sql s q c d im0 \<and> ready me w \<and> wjournal w = im0"
    "\<lambda>w. permitted Q sql s q c d im0 \<and> ready me w \<and> wjournal w = once_applied s q c d im0"
    c total_changes for Q C B me s q sql c d im0
proof unfold_locales
  fix w r w'
  assume w: "permitted Q sql s q c d im0 \<and> ready me w \<and> wjournal w = im0"
    and run: "execute_idempotent (session_node Q C B) me (\<lambda>w. (True, w)) (int s) (int q) sql w = (r, w')"
  then obtain row where "map_of (im_sessions im0) (int s) = Some row" "session_verdict row q = Inr ExecuteSession"
    by (auto simp: permitted_def)
  from attempt(1) [OF _ _ _ this _ run] w
  show "total_changes w' = total_changes w + (if applied r then c else 0) \<and>
      ((\<exists>e. r = Raise e) \<and> (permitted Q sql s q c d im0 \<and> ready me w' \<and> wjournal w' = im0) \<or>
       ((\<exists>e. r = Raise e) \<or> r = Return (c, False)) \<and>
         (permitted Q sql s q c d im0 \<and> ready me w' \<and> wjournal w' = once_applied s q c d im0))"
    by (auto simp: permitted_def)
next
  fix w r w'
  assume w: "permitted Q sql s q c d im0 \<and> ready me w \<and> wjournal w = once_applied s q c d im0"
    and run: "execute_idempotent (session_node Q C B) me (\<lambda>w. (True, w)) (int s) (int q) sql w = (r, w')"
  then obtain row where "map_of (im_sessions im0) (int s) = Some row" "session_verdict row q = Inr ExecuteSession"
    by (auto simp: permitted_def)
  from attempt(2) [OF _ _ _ this _ run] w
  show "total_changes w' = total_changes w \<and>
      (permitted Q sql s q c d im0 \<and> ready me w' \<and> wjournal w' = once_applied s q c d im0) \<and>
      ((\<exists>e. r = Raise e) \<or> r = Return (c, True))"
    by (auto simp: permitted_def)
qed

text \<open>
  C9. Retries of one sequence apply once, whatever goes wrong in between. On an open connection whose
  session permits the sequence next, any number of \<open>execute_idempotent\<close> calls leaves the journal either
  without the write or with exactly one application of it; every call that returns reports the
  change count of that one execution and only after the write is in the journal; at most one call reports
  a fresh execution, and \<open>total_changes\<close> counts that one; no call blocks.
\<close>

theorem retries_apply_once:
  fixes w :: "'d store node lworld"
  assumes "permitted Q sql s q c d im0" and "ready me w" and "wjournal w = im0"
    and "attempts (execute_idempotent (session_node Q C B) me (\<lambda>w. (True, w)) (int s) (int q) sql) n w = (rs, w')"
  defines "im1 \<equiv> once_applied s q c d im0"
  shows "(wjournal w' = im0 \<or> wjournal w' = im1) \<and> Blocked \<notin> set rs \<and>
    (\<forall>v b. Return (v, b) \<in> set rs \<longrightarrow> v = c \<and> wjournal w' = im1) \<and>
    length (filter applied rs) \<le> 1 \<and>
    total_changes w' = total_changes w + c * int (length (filter applied rs))"
  using session.attempts_pending [OF _ assms(4), of c d im0] assms(1-3) unfolding im1_def by blast

text \<open>Without faults, outside a live transaction, every attempt is answered.\<close>

lemma clean_check:
  assumes "st_faults st = []" "\<not> st_fatal st" "\<not> st_needs_resync st" and "s < 2 ^ 63"
    and "map_of (im_sessions (st_image st)) (int s) = Some row"
  shows "checkSession s q st = (session_verdict row q, st)"
  using assms by (simp add: checkSession_def take_fault_def resync_if_needed_def and_then_def fails_def no_fault_def)

lemma clean_write:
  assumes "st_faults st = []" "\<not> st_fatal st" "\<not> st_needs_resync st" "st_serves_writes st"
    and "sq_exec Q sql (im_app (st_image st)) = (Inr c, d)" and "sq_verify Q d = Inr ()" and "q + 1 < 2 ^ 63"
  shows "\<exists>st'. session_write Q s q sql st = (Inr c, st')"
  using assms
  by (simp add: session_write_def take_fault_def writeRequest_def resync_if_needed_def and_then_def fails_def
      no_fault_def app_statements_def sealCapturedTransaction_def)

lemma clean_attempt_answers:
  fixes nd :: "'d store node"
  assumes "st_faults (nd_core nd) = []" "\<not> st_fatal (nd_core nd)" "\<not> st_needs_resync (nd_core nd)"
    "st_serves_writes (nd_core nd)" "\<not> nd_live_transaction nd"
    and "s < 2 ^ 63" "q + 1 < 2 ^ 63" "nul_free sql"
    and "map_of (im_sessions (st_image (nd_core nd))) (int s) = Some row"
    and "session_verdict row q \<in> {Inr ExecuteSession} \<union> range (Inr \<circ> ReplaySession)"
    and "sq_exec Q sql (im_app (st_image (nd_core nd))) = (Inr c, d)" and "sq_verify Q d = Inr ()"
  shows "\<exists>v nd'. nv_exec_idempotent (session_node Q C B) (int s) (int q) sql nd = (Inr v, nd')"
proof -
  note check = clean_check [OF assms(1-3,6,9), of q]
  obtain st' where wr: "session_write Q s q sql (nd_core nd) = (Inr c, st')"
    using clean_write [OF assms(1-4,11,12,7)] by blast
  have "nat (int s mod 2 ^ 64) = s" "nat (int q mod 2 ^ 64) = q" using assms(6,7) by (simp_all add: u64_of_nat)
  with check wr assms(5,8,10) show ?thesis
    by (auto simp: session_node_simps zx_exec_idempotent_def execIdempotent_def to_native_def on_core_def and_then_def)
qed

text \<open>
  A negative session number becomes a 64-bit value that does not fit the signed column: the safety
  check of the native library fails and the process ends.
\<close>

lemma negative_session_panics:
  assumes "st_faults (nd_core nd) = []" "\<not> st_fatal (nd_core nd)" "\<not> st_needs_resync (nd_core nd)"
    and "- (2 ^ 63) \<le> session" "session < 0" "nul_free sql"
  shows "fst (nv_exec_idempotent (session_node Q C B) session sequence sql nd) = Inl (ZxErr (co_error C Panic))"
proof -
  have "session mod 2 ^ 64 = (session + 2 ^ 64) mod 2 ^ 64" by simp
  also have "\<dots> = session + 2 ^ 64" using assms(4,5) by (intro mod_pos_pos_trivial) simp_all
  finally have "session mod 2 ^ 64 = session + 2 ^ 64" .
  then have big: "2 ^ 63 \<le> nat (session mod 2 ^ 64)" using assms(4) by simp
  then show ?thesis
    using assms
    by (simp add: session_node_simps zx_exec_idempotent_def execIdempotent_def to_native_def on_core_def and_then_def
        checkSession_def take_fault_def resync_if_needed_def fails_def no_fault_def session_core_def)
qed

section \<open>A concrete ledger\<close>

text \<open>
  A table of amounts to which every statement appends one, with one open session. The first attempt
  of the sequence is journaled and then reported as failed; the retry finds the recorded result.
\<close>

definition ledger :: "int list sqlite" where
  "ledger = \<lparr>sq_exec = (\<lambda>sql d. (Inr 1, d @ [100])), sq_verify = (\<lambda>_. Inr ())\<rparr>"

definition ledger_image :: "int list image" where
  "ledger_image = \<lparr>im_session_counter = 1, im_write_seq = 1, im_sessions = [(1, \<lparr>sr_next_sequence = 1,
     sr_last_sequence = None, sr_last_changes = None, sr_last_activity = 1\<rparr>)], im_app = []\<rparr>"

definition ledger_conn :: "fault list \<Rightarrow> int list store node lworld" where
  "ledger_conn fs = \<lparr>conn = \<lparr>k_row_factory = None, k_check_same_thread = True, k_owner_thread = 1, k_total_changes = 0,
      k_closed = False, k_timeout = 5, k_transactional = False, k_in_tx = False, k_stops = 0,
      k_native = \<lparr>nd_live_transaction = False, nd_changes_base = 0,
        nd_core = \<lparr>st_image = ledger_image, st_journal = ledger_image, st_needs_resync = False, st_fatal = False,
          st_serves_writes = True, st_faults = fs\<rparr>\<rparr>\<rparr>, cur = cursor_init\<rparr>"

definition lost_answer :: "fault list" where
  "lost_answer = [no_fault, no_fault\<lparr>ft_append := Unconfirmed (CoreError 7) True\<rparr>]"

lemma ledger_ready: "ready 1 (ledger_conn fs)"
  by (simp add: ready_def ledger_conn_def base_check_def raise_if_def running_def consistent_def)

abbreviation ledger_call ::
  "int list store core \<Rightarrow> int list store native \<Rightarrow> int list store node lworld \<Rightarrow> (int \<times> bool) outcome \<times> int list store node lworld" where
  "ledger_call C B \<equiv> execute_idempotent (session_node ledger C B) 1 (\<lambda>w. (True, w)) (int 1) (int 1) ''insert''"

lemma ledger_retry:
  "\<exists>w'. attempts (ledger_call C B) (Suc (Suc 0)) (ledger_conn lost_answer) =
     ([Raise (map_native_error (co_error C (CoreError 7))), Return (1, True)], w')"
  by (simp add: execute_idempotent_def ledger_conn_def conn_check_def base_check_def raise_if_def lift_res_def pbind_def
      with_lane_def idempotent_section_def call_native_def session_node_simps zx_exec_idempotent_def nul_free_def
      execIdempotent_def to_native_def on_core_def and_then_def checkSession_def session_write_def take_fault_def
      lost_answer_def no_fault_def resync_if_needed_def resyncImage_def fails_def writeRequest_def app_statements_def
      sealCapturedTransaction_def record_session_def session_verdict_def ledger_def ledger_image_def
      native_outcome_def ret_def session_core_def Let_def)

theorem retries_apply_once_witness:
  "permitted ledger ''insert'' 1 1 1 [100] ledger_image \<and> (\<forall>C B. \<exists>e w'.
    attempts (ledger_call C B) (Suc (Suc 0)) (ledger_conn lost_answer) = ([Raise e, Return (1, True)], w') \<and>
    wjournal w' = once_applied 1 1 1 [100] ledger_image \<and> total_changes w' = 0)"
proof (intro conjI allI)
  show p: "permitted ledger ''insert'' 1 1 1 [100] ledger_image"
    by (simp add: permitted_def ledger_image_def session_verdict_def ledger_def)
  fix C :: "int list store core" and B
  obtain w' where r: "attempts (ledger_call C B) (Suc (Suc 0)) (ledger_conn lost_answer) =
     ([Raise (map_native_error (co_error C (CoreError 7))), Return (1, True)], w')"
    using ledger_retry [of C B] by auto
  have j: "wjournal (ledger_conn lost_answer) = ledger_image" by (simp add: ledger_conn_def)
  have "wjournal w' = once_applied 1 1 1 [100] ledger_image \<and> total_changes w' = total_changes (ledger_conn lost_answer)"
    using retries_apply_once [OF p ledger_ready j r] by auto
  with r show "\<exists>e w'. attempts (ledger_call C B) (Suc (Suc 0)) (ledger_conn lost_answer) = ([Raise e, Return (1, True)], w') \<and>
    wjournal w' = once_applied 1 1 1 [100] ledger_image \<and> total_changes w' = 0"
    by (auto simp: total_changes_def ledger_conn_def)
qed

definition ledger_node :: "int list store node" where
  "ledger_node = \<lparr>nd_live_transaction = False, nd_changes_base = 0,
     nd_core = \<lparr>st_image = bootstrap_image [], st_journal = bootstrap_image [], st_needs_resync = False,
       st_fatal = False, st_serves_writes = True, st_faults = []\<rparr>\<rparr>"

lemmas open_eval = session_node_simps lift_write_def lift_core_def store_call_def openSession_def take_fault_def
  resync_if_needed_def fails_def and_then_def writeRequest_def insert_session_def sealCapturedTransaction_def
  no_fault_def Let_def

text \<open>Two sessions are opened, the idle first one is dropped, and a third is opened.\<close>

lemma ledger_history:
  fixes C :: "int list store core" and B
  defines "N \<equiv> session_node ledger C B"
  shows "\<exists>nd1 nd2 nd3 nd4. nv_session_open N ledger_node = (Inr 1, nd1) \<and> nv_session_open N nd1 = (Inr 2, nd2) \<and>
    nv_expire_sessions N 0 nd2 = (Inr 1, nd3) \<and> nv_session_open N nd3 = (Inr 3, nd4) \<and>
    map fst (im_sessions (journal nd3)) = [2]"
  by (simp add: N_def open_eval ledger_node_def bootstrap_image_def expireSessions_def delete_idle_def)

theorem session_ids_never_reused_witness:
  "\<forall>C B. session_start ledger_node \<and>
    (\<exists>nd2 nd3 nd4. (session_step ledger C B)\<^sup>*\<^sup>* nd2 nd3 \<and> map fst (im_sessions (journal nd3)) = [2] \<and>
      nv_session_open (session_node ledger C B) ledger_node = (Inr 1, nd2) \<and>
      nv_session_open (session_node ledger C B) nd3 = (Inr 3, nd4) \<and>
      (1::int) < 3 \<and> distinct (map fst (im_sessions (journal nd4))))"
proof (intro allI)
  fix C :: "int list store core" and B
  let ?N = "session_node ledger C B"
  obtain nd1 nd2 nd3 nd4 where runs: "nv_session_open ?N ledger_node = (Inr 1, nd1)"
    "nv_session_open ?N nd1 = (Inr 2, nd2)" "nv_expire_sessions ?N 0 nd2 = (Inr 1, nd3)"
    "nv_session_open ?N nd3 = (Inr 3, nd4)" "map fst (im_sessions (journal nd3)) = [2]"
    using ledger_history [of C B] by (elim exE conjE)
  have start: "session_start ledger_node" by (auto simp: session_start_def ledger_node_def)
  have steps: "(session_step ledger C B)\<^sup>*\<^sup>* nd1 nd3"
    using step_open [of ledger C B nd1] step_expire [of ledger C B nd2 0] runs by simp
  from session_ids_never_reused [OF start rtranclp.rtrancl_refl runs(1) steps runs(4)] start steps runs
  show "session_start ledger_node \<and>
    (\<exists>nd2 nd3 nd4. (session_step ledger C B)\<^sup>*\<^sup>* nd2 nd3 \<and> map fst (im_sessions (journal nd3)) = [2] \<and>
      nv_session_open ?N ledger_node = (Inr 1, nd2) \<and> nv_session_open ?N nd3 = (Inr 3, nd4) \<and>
      (1::int) < 3 \<and> distinct (map fst (im_sessions (journal nd4))))"
    by auto
qed

end
