(* ===== verification/Zx_Remote.thy ===== *)
theory Zx_Remote
  imports Zx_Local
begin

text \<open>
  \<open>RemoteConnection\<close> of \<open>dbapi.py\<close>: the pooled autocommit client. The native pool functions are the
  record \<open>remote_native\<close>, a parameter over an arbitrary pool state; calls run on the caller's thread,
  so there is no worker and no Python lane. \<open>remote_run\<close> collects the methods, and the theorems
  describe which requests ever reach the pool and what the cursor and the totals show afterwards.
\<close>

section \<open>State and native pool\<close>

type_synonym exec_result = "int \<times> int option \<times> bool"

record 'p remote_native =
  rn_open :: "remote_plan \<Rightarrow> 'p \<Rightarrow> unit nres \<times> 'p"
  rn_close :: "'p \<Rightarrow> unit nres \<times> 'p"
  rn_exec :: "string \<Rightarrow> pyobj list \<Rightarrow> 'p \<Rightarrow> exec_result nres \<times> 'p"
  rn_exec_batch :: "string \<Rightarrow> pyobj list list \<Rightarrow> 'p \<Rightarrow> exec_result nres \<times> 'p"
  rn_query :: "string \<Rightarrow> pyobj list \<Rightarrow> nat \<Rightarrow> int \<Rightarrow> 'p \<Rightarrow> table nres \<times> 'p"
  rn_search :: "search_native \<Rightarrow> nat \<Rightarrow> int \<Rightarrow> 'p \<Rightarrow> table nres \<times> 'p"
  rn_resolve_pending :: "'p \<Rightarrow> (int \<times> bool) nres \<times> 'p"
  rn_status_json :: "'p \<Rightarrow> string nres \<times> 'p"

record 'p remote_conn = base_conn +
  k_default_level :: nat
  k_default_freshness :: int
  k_pool :: 'p

type_synonym 'p rworld = "'p remote_conn world"

definition remote_call :: "('p \<Rightarrow> 'a nres \<times> 'p) \<Rightarrow> ('p rworld, 'a) py" where
  "remote_call f w =
    (case f (k_pool (conn w)) of (r, p) \<Rightarrow>
      (native_outcome map_remote_error r, w\<lparr>conn := (conn w)\<lparr>k_pool := p\<rparr>\<rparr>))"

text \<open>\<open>RemoteConnection.__init__\<close>; an unknown level would be a \<open>KeyError\<close>.\<close>

definition remote_open :: "'p remote_native \<Rightarrow> remote_plan \<Rightarrow> nat \<Rightarrow> 'p \<Rightarrow> 'p rworld pyres" where
  "remote_open N plan me p =
    (case remote_read_levels (r_read_level plan) of
       None \<Rightarrow> Inl (exc PyKeyError (r_read_level plan))
     | Some level \<Rightarrow>
        (let w = \<lparr>conn = \<lparr>k_row_factory = None, k_check_same_thread = r_check_same_thread plan,
               k_owner_thread = me, k_total_changes = 0, k_closed = False, k_default_level = level,
               k_default_freshness = r_freshness_ms plan, k_pool = p\<rparr>, cur = cursor_init\<rparr>
         in case remote_call (rn_open N plan) w of
              (Return _, w') \<Rightarrow> Inr w' | (Raise e, _) \<Rightarrow> Inl e | (Blocked, _) \<Rightarrow> Inl (exc ExceptionC [])))"

section \<open>Operations\<close>

definition remote_commit :: "nat \<Rightarrow> ('p rworld, unit) py" where
  "remote_commit me = conn_check me"

definition remote_rollback :: "nat \<Rightarrow> ('p rworld, unit) py" where
  "remote_rollback me = conn_check me"

definition remote_close :: "'p remote_native \<Rightarrow> nat \<Rightarrow> ('p rworld, unit) py" where
  "remote_close N me w =
    (if k_closed (conn w) then ret () w
     else pbind (conn_check me) (\<lambda>_.
       pbind (set_conn (\<lambda>c. c\<lparr>k_closed := True\<rparr>)) (\<lambda>_. remote_call (rn_close N))) w)"

definition remote_enter :: "nat \<Rightarrow> ('p rworld, unit) py" where
  "remote_enter me = conn_check me"

definition remote_exit :: "nat \<Rightarrow> ('p rworld, bool) py" where
  "remote_exit me w =
    (if k_closed (conn w) then ret False w else pbind (remote_commit me) (\<lambda>_. ret False) w)"

definition resolve_pending :: "'p remote_native \<Rightarrow> nat \<Rightarrow> ('p rworld, int \<times> bool) py" where
  "resolve_pending N me = pbind (conn_check me) (\<lambda>_. remote_call (rn_resolve_pending N))"

definition status_json :: "'p remote_native \<Rightarrow> nat \<Rightarrow> ('p rworld, string) py" where
  "status_json N me = pbind (conn_check me) (\<lambda>_. remote_call (rn_status_json N))"

text \<open>The per-call consistency overrides shared by \<open>query\<close> and \<open>search\<close>.\<close>

definition read_options :: "string option \<Rightarrow> int option \<Rightarrow> ('p rworld, nat \<times> int) py" where
  "read_options read_level freshness_ms w =
    (case (case read_level of None \<Rightarrow> Some (k_default_level (conn w)) | Some l \<Rightarrow> remote_read_levels l) of
       None \<Rightarrow> throw (exc ProgrammingError ''read_level must be one of '') w
     | Some level \<Rightarrow>
        (let freshness = (case freshness_ms of None \<Rightarrow> k_default_freshness (conn w) | Some f \<Rightarrow> f) in
         if freshness \<noteq> 0 \<and> level \<noteq> 0
         then throw (exc ProgrammingError ''freshness_ms is only meaningful with read_level=any'') w
         else ret (level, freshness) w))"

definition remote_query ::
  "'p remote_native \<Rightarrow> nat \<Rightarrow> string \<Rightarrow> pyobj \<Rightarrow> string option \<Rightarrow> int option \<Rightarrow> ('p rworld, unit) py" where
  "remote_query N me sql parameters read_level freshness_ms =
    pbind (conn_check me) (\<lambda>_.
    pbind (read_options read_level freshness_ms) (\<lambda>(level, freshness).
    pbind (lift_res (normalize_parameters parameters)) (\<lambda>params.
    pbind (base_cursor me) (\<lambda>_.
    pbind (remote_call (rn_query N sql params level freshness)) (\<lambda>(names, rows).
    set_cur (load_read_result names rows))))))"

definition remote_search ::
  "'p remote_native \<Rightarrow> nat \<Rightarrow> (pyobj \<Rightarrow> rat pyres) \<Rightarrow> search_request \<Rightarrow> string option \<Rightarrow> int option \<Rightarrow> ('p rworld, unit) py" where
  "remote_search N me py_float q read_level freshness_ms =
    pbind (conn_check me) (\<lambda>_.
    pbind (read_options read_level freshness_ms) (\<lambda>(level, freshness).
    pbind (lift_res (search_arguments py_float q)) (\<lambda>arguments.
    pbind (remote_call (rn_search N arguments level freshness)) (\<lambda>(names, rows).
    pbind (base_cursor me) (\<lambda>_. set_cur (load_read_result names rows))))))"

definition reject_write_hazards :: "string \<Rightarrow> ('p rworld, unit) py" where
  "reject_write_hazards sql =
    pbind (guard_not (sql_has_tail sql)
      (exc ProgrammingError ''execute() accepts one statement; remote connections do not support executescript()'')) (\<lambda>_.
    guard_not (sql_mentions_returning sql)
      (exc NotSupportedError ''RETURNING is not supported on remote connections; the replicated session result carries no rows''))"

definition execute_write :: "'p remote_native \<Rightarrow> string \<Rightarrow> pyobj list \<Rightarrow> ('p rworld, unit) py" where
  "execute_write N sql params =
    pbind (reject_write_hazards sql) (\<lambda>_.
    pbind (remote_call (rn_exec N sql params)) (\<lambda>(changes, lastrowid, _).
    pbind (set_cur (\<lambda>c. c\<lparr>c_rowcount := changes\<rparr>)) (\<lambda>_.
    pbind (add_changes changes) (\<lambda>_.
    case lastrowid of None \<Rightarrow> ret () | Some i \<Rightarrow> set_cur (\<lambda>c. c\<lparr>c_lastrowid := Some i\<rparr>)))))"

definition is_mapping :: "pyobj \<Rightarrow> bool" where
  "is_mapping p = (case p of PDict _ \<Rightarrow> True | _ \<Rightarrow> False)"

definition remote_default_query :: "'p remote_native \<Rightarrow> string \<Rightarrow> pyobj list \<Rightarrow> ('p rworld, table) py" where
  "remote_default_query N sql params w =
     remote_call (rn_query N sql params (k_default_level (conn w)) (k_default_freshness (conn w))) w"

text \<open>
  The read attempt: \<open>Some\<close> is a result to load, \<open>None\<close> is the server's verdict that the statement
  writes (\<open>ProgrammingError\<close> of category \<open>misuse\<close>).
\<close>

definition remote_try_read :: "'p remote_native \<Rightarrow> string \<Rightarrow> pyobj list \<Rightarrow> ('p rworld, table option) py" where
  "remote_try_read N sql params =
    catch (pbind (remote_default_query N sql params) (\<lambda>t. ret (Some t)))
      (\<lambda>e. if exc_type e \<le> ProgrammingError \<and> exc_category e = Some ''misuse'' then ret None else throw e)"

definition remote_execute :: "'p remote_native \<Rightarrow> string \<Rightarrow> pyobj \<Rightarrow> ('p rworld, unit) py" where
  "remote_execute N sql parameters =
    pbind (guard_not (is_mapping parameters)
      (exc ProgrammingError ''named parameters require a local connection'')) (\<lambda>_.
    pbind (lift_res (normalize_parameters parameters)) (\<lambda>params.
    let keyword = leading_keyword sql in
    if keyword \<in> read_prefixes \<or> keyword = ''with'' then
      pbind (guard_not (sql_has_tail sql)
        (exc ProgrammingError ''execute() accepts one statement; remote connections do not support executescript()'')) (\<lambda>_.
      pbind (remote_try_read N sql params) (\<lambda>t.
      case t of None \<Rightarrow> execute_write N sql params
      | Some (names, rows) \<Rightarrow> set_cur (load_read_result names rows)))
    else execute_write N sql params))"

definition remote_row :: "pyobj \<Rightarrow> pyobj list pyres" where
  "remote_row parameters =
    raise_if (is_mapping parameters) (exc ProgrammingError ''named parameters require a local connection'')
      (normalize_parameters parameters)"

definition remote_executemany :: "'p remote_native \<Rightarrow> string \<Rightarrow> pyobj list \<Rightarrow> ('p rworld, unit) py" where
  "remote_executemany N sql seq_of_parameters =
    pbind (reject_write_hazards sql) (\<lambda>_.
    pbind (guard_not (leading_keyword sql \<in> read_prefixes)
      (exc ProgrammingError ''executemany() can only execute DML statements.'')) (\<lambda>_.
    pbind (lift_res (rmap remote_row seq_of_parameters)) (\<lambda>rows.
    if rows = [] then set_cur (\<lambda>c. c\<lparr>c_rowcount := 0\<rparr>)
    else pbind (remote_call (rn_exec_batch N sql rows)) (\<lambda>(changes, _, _).
      pbind (set_cur (\<lambda>c. c\<lparr>c_rowcount := changes\<rparr>)) (\<lambda>_. add_changes changes)))))"

definition remote_executescript :: "string \<Rightarrow> ('p rworld, unit) py" where
  "remote_executescript sql_script =
     throw (exc NotSupportedError ''executescript() is not supported on remote connections; execute one statement at a time'')"

datatype remote_op =
    ROExecute pyobj pyobj | ROExecutemany pyobj "pyobj list" | ROScript pyobj
  | ROQuery string pyobj "string option" "int option"
  | ROSearch "pyobj \<Rightarrow> rat pyres" search_request "string option" "int option"
  | ROCommit | RORollback | ROResolve | ROStatus | ROClose

definition no_result :: "('s, 'a) py \<Rightarrow> ('s, unit) py" where
  "no_result m = pbind m (\<lambda>_. ret ())"

fun remote_run :: "'p remote_native \<Rightarrow> nat \<Rightarrow> remote_op \<Rightarrow> ('p rworld, unit) py" where
  "remote_run N me (ROExecute sql ps) = cursor_execute (remote_execute N) me sql ps"
| "remote_run N me (ROExecutemany sql bs) = cursor_executemany (remote_executemany N) me sql bs"
| "remote_run N me (ROScript sql) = cursor_executescript remote_executescript me sql"
| "remote_run N me (ROQuery sql ps l f) = remote_query N me sql ps l f"
| "remote_run N me (ROSearch pf q l f) = remote_search N me pf q l f"
| "remote_run N me ROCommit = remote_commit me"
| "remote_run N me RORollback = remote_rollback me"
| "remote_run N me ROResolve = no_result (resolve_pending N me)"
| "remote_run N me ROStatus = no_result (status_json N me)"
| "remote_run N me ROClose = remote_close N me"

section \<open>Only legal requests reach the pool\<close>

text \<open>
  A staleness bound is legal only with level \<open>any\<close> (code 0); a write is legal only as one statement
  without \<open>RETURNING\<close>, a batch only with at least one row. Two pools that answer every legal request
  alike are indistinguishable to the driver when it sends no other.
\<close>

definition legal_read :: "nat \<Rightarrow> int \<Rightarrow> bool" where
  "legal_read level freshness \<longleftrightarrow> freshness = 0 \<or> level = 0"

definition legal_write :: "string \<Rightarrow> bool" where
  "legal_write sql \<longleftrightarrow> \<not> sql_has_tail sql \<and> \<not> sql_mentions_returning sql"

definition agree_on_legal :: "'p remote_native \<Rightarrow> 'p remote_native \<Rightarrow> bool" where
  "agree_on_legal N N' \<longleftrightarrow>
     (\<forall>sql ps level freshness. legal_read level freshness \<longrightarrow>
        rn_query N sql ps level freshness = rn_query N' sql ps level freshness) \<and>
     (\<forall>q level freshness. legal_read level freshness \<longrightarrow>
        rn_search N q level freshness = rn_search N' q level freshness) \<and>
     (\<forall>sql ps. legal_write sql \<longrightarrow> rn_exec N sql ps = rn_exec N' sql ps) \<and>
     (\<forall>sql rows. legal_write sql \<longrightarrow> rows \<noteq> [] \<longrightarrow> rn_exec_batch N sql rows = rn_exec_batch N' sql rows) \<and>
     rn_close N = rn_close N' \<and> rn_resolve_pending N = rn_resolve_pending N' \<and>
     rn_status_json N = rn_status_json N'"

definition defaults_ok :: "'p rworld \<Rightarrow> bool" where
  "defaults_ok w \<longleftrightarrow> legal_read (k_default_level (conn w)) (k_default_freshness (conn w))"

lemma pbind_cong_state:
  "m w = m' w \<Longrightarrow> (\<And>a w'. m w = (Return a, w') \<Longrightarrow> f a w' = f' a w') \<Longrightarrow> pbind m f w = pbind m' f' w"
  by (auto simp: pbind_def split: prod.splits outcome.splits)

lemma hazards_return:
  "reject_write_hazards sql w = (Return a, w') \<Longrightarrow> w' = w \<and> legal_write sql"
  by (auto simp: reject_write_hazards_def pbind_def guard_not_def throw_def ret_def legal_write_def split: if_splits)

lemma read_options_return:
  assumes "read_options l f w = (Return (level, freshness), w')"
  shows "w' = w \<and> legal_read level freshness"
  using assms
  by (auto simp: read_options_def throw_def ret_def legal_read_def Let_def split: option.splits if_splits)

lemma conn_check_return: "conn_check me w = (Return a, w') \<Longrightarrow> w' = w"
  by (simp add: conn_check_def lift_res_def)

lemma execute_write_agree: "agree_on_legal N N' \<Longrightarrow> execute_write N sql ps w = execute_write N' sql ps w"
  unfolding execute_write_def
  by (rule pbind_cong_state) (auto simp: agree_on_legal_def dest!: hazards_return)

lemma query_agree: "agree_on_legal N N' \<Longrightarrow> remote_query N me sql ps l f w = remote_query N' me sql ps l f w"
  unfolding remote_query_def
  by (rule pbind_cong_state [OF refl], rule pbind_cong_state [OF refl])
    (auto simp: agree_on_legal_def dest!: read_options_return)

lemma search_agree: "agree_on_legal N N' \<Longrightarrow> remote_search N me pf q l f w = remote_search N' me pf q l f w"
  unfolding remote_search_def
  by (rule pbind_cong_state [OF refl], rule pbind_cong_state [OF refl])
    (auto simp: agree_on_legal_def dest!: read_options_return)

lemma try_read_agree:
  "agree_on_legal N N' \<Longrightarrow> defaults_ok w \<Longrightarrow> remote_try_read N sql ps w = remote_try_read N' sql ps w"
  by (simp add: remote_try_read_def catch_def pbind_def remote_default_query_def agree_on_legal_def defaults_ok_def)

lemma pure_return [dest!]:
  "guard_not b e w = (Return a, w') \<Longrightarrow> w' = w"
  "lift_res r w = (Return x, w') \<Longrightarrow> w' = w"
  by (auto simp: guard_not_def throw_def ret_def lift_res_def split: if_splits sum.splits)

lemma remote_execute_agree:
  assumes "agree_on_legal N N'" and "defaults_ok w"
  shows "remote_execute N sql ps w = remote_execute N' sql ps w"
proof -
  have read: "pbind (remote_try_read N sql qs) f w = pbind (remote_try_read N' sql qs) f' w"
    if "\<And>t w'. f t w' = f' t w'" for qs and f f' :: "_ \<Rightarrow> (_, unit) py"
    using that by (intro pbind_cong_state try_read_agree assms)
  show ?thesis
    unfolding remote_execute_def Let_def
    by (rule pbind_cong_state [OF refl], drule pure_return, hypsubst, rule pbind_cong_state [OF refl],
        drule pure_return, hypsubst, cases "leading_keyword sql \<in> read_prefixes \<or> leading_keyword sql = ''with''")
      (auto intro!: pbind_cong_state [OF refl] read simp: execute_write_agree [OF assms(1)] split: option.splits)
qed

lemma remote_executemany_agree:
  assumes "agree_on_legal N N'"
  shows "remote_executemany N sql bs w = remote_executemany N' sql bs w"
proof -
  have batch: "pbind (remote_call (rn_exec_batch N sql rows)) f w' = pbind (remote_call (rn_exec_batch N' sql rows)) f w'"
    if "legal_write sql" "rows \<noteq> []" for rows w' and f :: "_ \<Rightarrow> (_, unit) py"
    using that assms by (simp add: agree_on_legal_def)
  show ?thesis
    unfolding remote_executemany_def
    by (rule pbind_cong_state [OF refl], drule hazards_return, clarify)
      (auto intro!: pbind_cong_state [OF refl] batch)
qed

lemma prologue_return:
  "cursor_prologue me sql name w = (Return s, w') \<Longrightarrow> conn w' = conn w"
  by (auto simp: cursor_prologue_def pbind_def lift_res_def throw_def ret_def set_cur_def modify_s_def
      split: sum.splits pyobj.splits prod.splits outcome.splits)

lemma remote_run_agree:
  assumes "agree_on_legal N N'" and "defaults_ok w"
  shows "remote_run N me op w = remote_run N' me op w"
proof (cases op)
  case (ROExecute sql ps)
  have "defaults_ok w'" if "cursor_prologue me sql ''sql'' w = (Return s, w')" for s w'
    using assms(2) prologue_return [OF that] by (simp add: defaults_ok_def)
  with ROExecute show ?thesis
    by (auto simp: cursor_execute_def intro!: pbind_cong_state [OF refl] remote_execute_agree [OF assms(1)])
next
  case (ROExecutemany sql bs)
  then show ?thesis
    by (auto simp: cursor_executemany_def intro!: pbind_cong_state [OF refl] remote_executemany_agree [OF assms(1)])
next
  case (ROQuery sql ps l f)
  then show ?thesis by (simp add: query_agree [OF assms(1)])
next
  case (ROSearch pf q l f)
  then show ?thesis by (simp add: search_agree [OF assms(1)])
qed (use assms(1) in \<open>auto simp: agree_on_legal_def remote_close_def resolve_pending_def status_json_def no_result_def\<close>)

subsection \<open>The defaults of a connection\<close>

inductive remote_step :: "'p remote_native \<Rightarrow> 'p rworld \<Rightarrow> 'p rworld \<Rightarrow> bool" for N where
  rstep_run: "remote_step N w (snd (remote_run N me op w))"
| rstep_cursor: "remote_step N w (w\<lparr>cur := c\<rparr>)"
| rstep_factory: "remote_step N w (w\<lparr>conn := (conn w)\<lparr>k_row_factory := f\<rparr>\<rparr>)"

inductive_cases remote_stepE: "remote_step N w w'"

definition remote_start :: "'p remote_native \<Rightarrow> 'p rworld \<Rightarrow> bool" where
  "remote_start N w \<longleftrightarrow>
     (\<exists>nt tgt a plan me p. connect nt tgt a = Inr (PlanRemote plan) \<and> remote_open N plan me p = Inr w)"

lemma defaults_basic [keeps_intros]:
  "keeps defaults_ok (remote_call f)" "keeps defaults_ok (set_cur g)" "keeps defaults_ok (add_changes n)"
  "keeps defaults_ok (conn_check me)"
  by (auto simp: keeps_def defaults_ok_def remote_call_def set_cur_def add_changes_def set_conn_def modify_s_def
      conn_check_def lift_res_def split: prod.splits)

lemma defaults_misc [keeps_intros]:
  "keeps defaults_ok (set_conn (\<lambda>c. c\<lparr>k_closed := b\<rparr>))" "keeps defaults_ok (remote_default_query N sql ps)"
  "keeps defaults_ok (read_options l f)"
  by (auto simp: keeps_def defaults_ok_def remote_default_query_def remote_call_def set_conn_def modify_s_def
      read_options_def throw_def ret_def Let_def split: prod.splits option.splits)

lemma defaults_prologue [keeps_intros]: "keeps defaults_ok (cursor_prologue me sql name)"
proof -
  have check: "keeps defaults_ok (\<lambda>w. lift_res (cursor_check (view_of me w) (cur w)) w)"
    by (simp add: keeps_def lift_res_def)
  have "keeps defaults_ok (case sql of PStr s \<Rightarrow> pbind (set_cur cursor_reset) (\<lambda>_. ret s)
      | _ \<Rightarrow> throw (exc ProgrammingError (name @ '' must be a str'')))"
    by (cases sql) (simp_all, (intro keeps_intros)+)
  then show ?thesis unfolding cursor_prologue_def by (rule keeps_bind [OF check])
qed

lemma defaults_base_cursor [keeps_intros]: "keeps defaults_ok (base_cursor me)"
  unfolding base_cursor_def by (intro keeps_intros)

lemma defaults_write [keeps_intros]: "keeps defaults_ok (execute_write N sql ps)"
  unfolding execute_write_def reject_write_hazards_def by (intro keeps_intros)

lemma defaults_execute: "keeps defaults_ok (remote_execute N sql ps)"
  unfolding remote_execute_def remote_try_read_def Let_def by (intro keeps_intros)

lemma defaults_executemany: "keeps defaults_ok (remote_executemany N sql bs)"
  unfolding remote_executemany_def reject_write_hazards_def by (intro keeps_intros)

lemma defaults_close: "keeps defaults_ok (remote_close N me)"
proof -
  have "keeps defaults_ok (pbind (conn_check me) (\<lambda>_.
      pbind (set_conn (\<lambda>c. c\<lparr>k_closed := True\<rparr>)) (\<lambda>_. remote_call (rn_close N))))"
    by (intro keeps_intros)
  then show ?thesis by (auto simp: keeps_def remote_close_def ret_def)
qed

lemma defaults_run: "keeps defaults_ok (remote_run N me op)"
proof (cases op)
  case ROClose
  then show ?thesis by (simp add: defaults_close)
qed (auto simp: cursor_execute_def cursor_executemany_def cursor_executescript_def remote_executescript_def
    remote_query_def remote_search_def remote_commit_def remote_rollback_def resolve_pending_def
    status_json_def no_result_def intro!: keeps_intros defaults_execute defaults_executemany)

lemma defaults_step: "defaults_ok w \<Longrightarrow> remote_step N w w' \<Longrightarrow> defaults_ok w'"
  by (erule remote_stepE) (auto simp: defaults_ok_def intro: keepsD [OF defaults_run, unfolded defaults_ok_def])

lemma remote_open_conn:
  assumes "remote_open N plan me p = Inr w"
  shows "remote_read_levels (r_read_level plan) = Some (k_default_level (conn w)) \<and>
    k_default_freshness (conn w) = r_freshness_ms plan"
  using assms
  by (auto simp: remote_open_def Let_def remote_call_def split: option.splits prod.splits outcome.splits)

lemma remote_start_defaults: "remote_start N w \<Longrightarrow> defaults_ok w"
proof -
  assume "remote_start N w"
  then obtain nt tgt a plan me p where "connect nt tgt a = Inr (PlanRemote plan)"
    and op: "remote_open N plan me p = Inr w"
    unfolding remote_start_def by blast
  then have "consistency_ok plan" using connect_remote_consistency by blast
  with remote_open_conn [OF op] show "defaults_ok w"
    by (auto simp: defaults_ok_def legal_read_def consistency_ok_def remote_read_levels_def split: if_splits)
qed

interpretation remote: state_machine "remote_start N" "remote_step N" defaults_ok for N
  by unfold_locales (auto intro: remote_start_defaults defaults_step)

text \<open>
  C7. On a remote connection opened through \<open>connect\<close>, after any sequence of operations, every method sends
  only legal requests: a staleness bound only with level \<open>any\<close>, a write only as a single statement without
  \<open>RETURNING\<close>, a batch only with rows. Two pools that agree on legal requests cannot be told apart.
\<close>

theorem only_legal_requests:
  assumes "remote_start N w0" and "(remote_step N)\<^sup>*\<^sup>* w0 w" and "agree_on_legal N N'"
  shows "remote_run N me op w = remote_run N' me op w"
  using remote.reachable_inv [OF assms(1,2)] by (rule remote_run_agree [OF assms(3)])

section \<open>Reads that turn out to be writes\<close>

lemma category_names_misuse: "category_names n = Some ''misuse'' \<Longrightarrow> n = 4"
  by (simp add: category_names.simps split: if_splits)

lemma bind_pure [simp]:
  "pbind (ret a) f = f a" "pbind (lift_res (Inr a)) f = f a"
  by (simp_all add: fun_eq_iff pbind_def ret_def lift_res_def)

lemma misuse_category: "exc_category (map_remote_error z) = Some ''misuse'' \<Longrightarrow> error_category z = 4"
  using category_names_misuse [of "error_category z"]
  by (auto simp: map_remote_error_def map_native_error_def Let_def
      split: if_splits option.splits)

definition set_pool :: "'p \<Rightarrow> 'p rworld \<Rightarrow> 'p rworld" where
  "set_pool p w = w\<lparr>conn := (conn w)\<lparr>k_pool := p\<rparr>\<rparr>"

lemma remote_call_eq:
  "remote_call f w = (native_outcome map_remote_error (fst (f (k_pool (conn w)))), set_pool (snd (f (k_pool (conn w)))) w)"
  by (simp add: remote_call_def set_pool_def split: prod.splits)

lemma read_shaped:
  assumes "leading_keyword sql \<in> read_prefixes \<or> leading_keyword sql = ''with''" and "\<not> sql_has_tail sql"
    and "normalize_parameters ps = Inr params"
  shows "remote_execute N sql ps w =
    pbind (remote_try_read N sql params) (\<lambda>t. case t of None \<Rightarrow> execute_write N sql params
      | Some (names, rows) \<Rightarrow> set_cur (load_read_result names rows)) w"
proof -
  have "\<not> is_mapping ps"
    using assms(3) by (auto simp: is_mapping_def normalize_parameters_def split: pyobj.splits)
  with assms show ?thesis
    by (simp add: remote_execute_def guard_not_def Let_def)
qed

text \<open>
  C26. A read that fails with any category other than \<open>misuse\<close> is never retried as a write: the mapped error
  is raised and the pool has seen the one query and nothing else.
\<close>

theorem ambiguous_read_is_final:
  assumes "leading_keyword sql \<in> read_prefixes \<or> leading_keyword sql = ''with''" and "\<not> sql_has_tail sql"
    and "normalize_parameters ps = Inr params"
    and "rn_query N sql params (k_default_level (conn w)) (k_default_freshness (conn w)) (k_pool (conn w)) =
      (Inl (ZxErr z), p)"
    and "error_category z \<noteq> 4"
  shows "remote_execute N sql ps w = (Raise (map_remote_error z), set_pool p w)"
  using assms(4,5) misuse_category [of z]
  by (auto simp: read_shaped [OF assms(1-3)] pbind_def remote_try_read_def catch_def remote_default_query_def
      remote_call_eq native_outcome_def throw_def)

section \<open>One request per batch\<close>

text \<open>
  C27. A remote \<open>executemany\<close> is one request or none: all rows travel in a single native batch whose outcome
  decides the result, \<open>rowcount\<close> and \<open>total_changes\<close>, with \<open>lastrowid\<close> unchanged; an invalid row,
  an illegal statement or an empty sequence never reaches the pool.
\<close>

theorem batch_is_one_request:
  shows "(case rmap remote_row bs of
      Inr rows \<Rightarrow>
        if legal_write sql \<and> leading_keyword sql \<notin> read_prefixes \<and> rows \<noteq> []
        then (\<forall>changes rowid replayed p.
               rn_exec_batch N sql rows (k_pool (conn w)) = (Inr (changes, rowid, replayed), p) \<longrightarrow>
               (\<exists>w'. remote_executemany N sql bs w = (Return (), w') \<and> k_pool (conn w') = p \<and>
                 c_rowcount (cur w') = changes \<and> c_lastrowid (cur w') = c_lastrowid (cur w) \<and>
                 k_total_changes (conn w') = k_total_changes (conn w) + changes)) \<and>
             (\<forall>z p. rn_exec_batch N sql rows (k_pool (conn w)) = (Inl (ZxErr z), p) \<longrightarrow>
               remote_executemany N sql bs w = (Raise (map_remote_error z), set_pool p w))
        else k_pool (conn (snd (remote_executemany N sql bs w))) = k_pool (conn w)
    | Inl e \<Rightarrow> \<exists>e. remote_executemany N sql bs w = (Raise e, w))"
proof -
  note defs = remote_executemany_def reject_write_hazards_def py_defs legal_write_def set_cur_def add_changes_def
    set_conn_def remote_call_eq native_outcome_def set_pool_def
  show ?thesis
  proof (cases "rmap remote_row bs")
    case (Inl e)
    then show ?thesis by (auto simp: defs)
  next
    case (Inr rows)
    then show ?thesis by (auto simp: defs split: prod.splits)
  qed
qed

section \<open>A concrete pool\<close>

definition demo_pool :: "int list remote_native" where
  "demo_pool =
    \<lparr>rn_open = (\<lambda>plan p. (Inr (), p)), rn_close = (\<lambda>p. (Inr (), p)),
     rn_exec = (\<lambda>sql ps p. (Inr (1, Some 1, False), 1 # p)),
     rn_exec_batch = (\<lambda>sql rows p. (Inr (int (length rows), None, False), p)),
     rn_query = (\<lambda>sql ps level freshness p.
        if ps = [] then (Inr ([''x''], []), p)
        else (Inl (ZxErr \<lparr>zx_code = Some 4, zx_category = Some 7, zx_message = Some ''no quorum'', zx_str = ''no quorum''\<rparr>), p)),
     rn_search = (\<lambda>q level freshness p. (Inr ([], []), p)),
     rn_resolve_pending = (\<lambda>p. (Inr (0, False), p)), rn_status_json = (\<lambda>p. (Inr [], p))\<rparr>"

definition demo_remote :: "int list rworld pyres" where
  "demo_remote =
    (case connect False (TStr ''zxlite://db1:9901/?read_level=any&freshness_ms=5'') connect_defaults of
       Inr (PlanRemote plan) \<Rightarrow> remote_open demo_pool plan 1 []
     | _ \<Rightarrow> Inl (exc ExceptionC []))"

definition demo_rworld :: "int list rworld" where
  "demo_rworld = projr demo_remote"

lemma demo_remote_open: "demo_remote = Inr demo_rworld"
proof -
  have "\<not> isl demo_remote" by code_simp
  then show ?thesis unfolding demo_rworld_def by (rule sum.collapse(2) [symmetric])
qed

lemma demo_remote_start: "remote_start demo_pool demo_rworld"
proof -
  let ?c = "connect False (TStr ''zxlite://db1:9901/?read_level=any&freshness_ms=5'') connect_defaults"
  have "case ?c of Inr (PlanRemote plan) \<Rightarrow> True | _ \<Rightarrow> False" by code_simp
  then obtain plan where c: "?c = Inr (PlanRemote plan)" by (auto split: sum.splits plan.splits)
  then have "remote_open demo_pool plan 1 [] = Inr demo_rworld"
    using demo_remote_open unfolding demo_remote_def by simp
  with c show ?thesis unfolding remote_start_def by blast
qed

text \<open>A pool that answers illegal requests differently.\<close>

definition strict_pool :: "int list remote_native" where
  "strict_pool = demo_pool\<lparr>rn_query := (\<lambda>sql ps level freshness p.
     if freshness \<noteq> 0 \<and> level \<noteq> 0 then (Inl (PyErr (exc PyRuntimeError [])), 9 # p)
     else rn_query demo_pool sql ps level freshness p)\<rparr>"

lemma strict_agrees: "agree_on_legal demo_pool strict_pool"
  by (auto simp: agree_on_legal_def strict_pool_def legal_read_def fun_eq_iff)

theorem only_legal_requests_witness:
  "remote_run demo_pool 1 (ROExecute (PStr ''select 1'') (PTuple [])) demo_rworld =
   remote_run strict_pool 1 (ROExecute (PStr ''select 1'') (PTuple [])) demo_rworld"
  by (rule only_legal_requests [OF demo_remote_start rtranclp.rtrancl_refl strict_agrees])

theorem ambiguous_read_is_final_witness:
  "\<exists>z p. remote_execute demo_pool ''select ?'' (PTuple [PInt 1]) demo_rworld =
     (Raise (map_remote_error z), set_pool p demo_rworld)"
proof -
  let ?z = "\<lparr>zx_code = Some 4, zx_category = Some 7, zx_message = Some ''no quorum'', zx_str = ''no quorum''\<rparr>"
  have "remote_execute demo_pool ''select ?'' (PTuple [PInt 1]) demo_rworld =
     (Raise (map_remote_error ?z), set_pool (k_pool (conn demo_rworld)) demo_rworld)"
  proof (rule ambiguous_read_is_final)
    show "leading_keyword ''select ?'' \<in> read_prefixes \<or> leading_keyword ''select ?'' = ''with''" by code_simp
    show "\<not> sql_has_tail ''select ?''" by code_simp
    show "normalize_parameters (PTuple [PInt 1]) = Inr [PInt 1]" by (simp add: normalize_parameters_def)
    show "error_category ?z \<noteq> 4" by (simp add: error_category_def)
  qed (simp add: demo_pool_def)
  then show ?thesis by blast
qed

theorem batch_is_one_request_witness:
  "\<exists>w'. remote_executemany demo_pool ''insert into t values (?)'' [PTuple [PInt 1], PTuple [PInt 2]] demo_rworld =
     (Return (), w') \<and> c_rowcount (cur w') = 2"
proof -
  have r: "rmap remote_row [PTuple [PInt 1], PTuple [PInt 2]] = Inr [[PInt 1], [PInt 2]]"
    by (simp add: remote_row_def is_mapping_def normalize_parameters_def)
  have l: "legal_write ''insert into t values (?)''" "leading_keyword ''insert into t values (?)'' \<notin> read_prefixes"
    by code_simp+
  have "rn_exec_batch demo_pool ''insert into t values (?)'' [[PInt 1], [PInt 2]] (k_pool (conn demo_rworld)) =
    (Inr (2, None, False), k_pool (conn demo_rworld))" by (simp add: demo_pool_def)
  with batch_is_one_request [where bs = "[PTuple [PInt 1], PTuple [PInt 2]]"
      and sql = "''insert into t values (?)''" and N = demo_pool and w = demo_rworld] r l
  show ?thesis by fastforce
qed

end
