(* ===== verification/Zx_Server.thy ===== *)
theory Zx_Server
  imports Zx_Values
begin

text \<open>
  Hosting a cluster member: \<open>server.py\<close>, from the validation of the member registry to the life of a
  \<open>Server\<close> object, and the functions \<open>cluster_open\<close>, \<open>cluster_state\<close>, \<open>cluster_call\<close> and
  \<open>cluster_close\<close> of the extension module it calls.

  \<^item> \<open>start_plan\<close> is \<open>start_server\<close> up to its native call: the registry and transport checks and the
    argument tuple of \<open>cluster_open\<close>. Attributes the code tests with \<open>isinstance\<close> are \<open>pyobj\<close>; the others
    have the type of their annotation. A timeout is a finite number.
  \<^item> A \<open>server\<close> is the object with its worker (unserved stop markers, native state). \<open>sv_pending\<close>
    is a ghost field: a \<open>close\<close> has released the close lock and not yet finished.
  \<^item> The native side is the record \<open>cluster_native\<close>; \<open>box_native\<close> is the extension module's
    implementation over a \<open>ClusterBox\<close>, whose Zig member is a parameter. The locale \<open>cluster_handle\<close>
    states what \<open>Server\<close> relies on, and \<open>box\<close> interprets it on \<open>box_native\<close>.
\<close>

section \<open>Members\<close>

definition role_codes :: "string \<Rightarrow> int option" where
  "role_codes r =
    (if r = ''data_voter'' then Some 0 else if r = ''witness'' then Some 1
     else if r = ''standby'' then Some 2 else if r = ''read_replica'' then Some 3
     else if r = ''gateway'' then Some 4 else None)"

definition max_members :: nat where
  "max_members = 36"

datatype member_obj = Member pyobj pyobj string | NotMember

text \<open>The value of an object that \<open>isinstance(..., int)\<close> accepts; \<open>bool\<close> is a subclass.\<close>

fun int_value :: "pyobj \<Rightarrow> int option" where
  "int_value (PInt i) = Some i"
| "int_value (PBool b) = Some (if b then 1 else 0)"
| "int_value _ = None"

fun member_id :: "member_obj \<Rightarrow> int" where
  "member_id (Member i _ _) = (case int_value i of None \<Rightarrow> 0 | Some n \<Rightarrow> n)"
| "member_id NotMember = 0"

fun member_endpoint :: "member_obj \<Rightarrow> string" where
  "member_endpoint (Member _ (PStr e) _) = e"
| "member_endpoint _ = []"

fun member_role :: "member_obj \<Rightarrow> string" where
  "member_role (Member _ _ r) = r"
| "member_role NotMember = []"

text \<open>The loop of \<open>_validate_members\<close>, with the ids and endpoints seen so far.\<close>

fun validate_loop :: "member_obj list \<Rightarrow> int list \<Rightarrow> string list \<Rightarrow> int list pyres" where
  "validate_loop [] seen_ids seen_endpoints = Inr seen_ids"
| "validate_loop (NotMember # ms) seen_ids seen_endpoints =
     Inl (exc ProgrammingError ''members must be zxlite.Member instances'')"
| "validate_loop (Member ident endpoint role # ms) seen_ids seen_endpoints =
     (case int_value ident of
        None \<Rightarrow> Inl (exc ProgrammingError ''member ids must be positive integers; got '')
      | Some i \<Rightarrow>
          raise_if (i \<le> 0) (exc ProgrammingError ''member ids must be positive integers; got '')
          (raise_if (i \<in> set seen_ids) (exc ProgrammingError ''duplicate member id '')
          (raise_if (role_codes role = None) (exc ProgrammingError ''unknown member role '')
          (case endpoint of
             PStr e \<Rightarrow>
               raise_if (e = []) (exc ProgrammingError ''member endpoints must be strings'')
               (raise_if (e \<in> set seen_endpoints) (exc ProgrammingError ''duplicate member endpoint '')
               (validate_loop ms (i # seen_ids) (e # seen_endpoints)))
           | _ \<Rightarrow> Inl (exc ProgrammingError ''member endpoints must be strings'')))))"

definition validate_members :: "member_obj list \<Rightarrow> int \<Rightarrow> member_obj list pyres" where
  "validate_members members node_id =
    raise_if (\<not> (1 \<le> length members \<and> length members \<le> max_members))
      (exc ProgrammingError ''members must contain between 1 and '')
    (rbind (validate_loop members [] []) (\<lambda>seen_ids.
     raise_if (node_id \<notin> set seen_ids) (exc ProgrammingError ''node_id '') (Inr members)))"

section \<open>Starting a server\<close>

record server_args =
  sa_directory :: string
  sa_node_id :: int
  sa_members :: "member_obj list"
  sa_cluster_id :: "string option"
  sa_auth_file :: "string option"
  sa_tls_ca :: "string option"
  sa_tls_cert :: "string option"
  sa_tls_key :: "string option"
  sa_startup_timeout :: pyobj
  sa_allow_psk :: bool

text \<open>The argument tuple of \<open>_zxlite.cluster_open\<close>.\<close>

record open_args =
  oa_directory :: string
  oa_node_id :: int
  oa_members :: "(int \<times> string \<times> int) list"
  oa_cluster_id :: "string option"
  oa_auth_file :: "string option"
  oa_tls_cert :: "string option"
  oa_tls_key :: "string option"
  oa_tls_ca :: "string option"
  oa_startup_ms :: int
  oa_allow_psk :: bool

definition own_endpoint :: "member_obj list \<Rightarrow> int \<Rightarrow> string pyres" where
  "own_endpoint registry node_id =
    (case map_of (rev (map (\<lambda>m. (member_id m, member_endpoint m)) registry)) node_id of
       None \<Rightarrow> Inl (exc PyKeyError []) | Some e \<Rightarrow> Inr e)"

definition tls_values :: "server_args \<Rightarrow> string option list" where
  "tls_values a = filter (\<lambda>v. v \<noteq> None) [sa_tls_ca a, sa_tls_cert a, sa_tls_key a]"

definition check_unix_members :: "bool \<Rightarrow> server_args \<Rightarrow> member_obj list \<Rightarrow> unit pyres" where
  "check_unix_members nt a registry =
    (case filter (\<lambda>m. startswith (member_endpoint m) ''unix:'') registry of
       [] \<Rightarrow> Inr ()
     | only # _ \<Rightarrow>
         raise_if nt (exc NotSupportedError ''unix-domain endpoints are not supported on Windows'')
         (raise_if (length registry \<noteq> 1)
           (exc ProgrammingError ''a unix endpoint requires a single-member registry'')
         (raise_if (member_role only = ''gateway'')
           (exc ProgrammingError ''a unix-served member may not be a gateway'')
         (raise_if (\<not> startswith (drop (length ''unix:'') (member_endpoint only)) ''/'')
           (exc ProgrammingError ''unix endpoint path must be absolute'')
         (raise_if (tls_values a \<noteq> [] \<or> sa_allow_psk a)
           (exc ProgrammingError ''a unix endpoint composes with neither TLS nor allow_psk_only_loopback'')
         (Inr ()))))))"

definition check_psk :: "server_args \<Rightarrow> member_obj list \<Rightarrow> unit pyres" where
  "check_psk a registry =
    (if sa_allow_psk a then
       raise_if (sa_auth_file a = None)
         (exc ProgrammingError ''allow_psk_only_loopback requires auth_file'')
       (raise_if (tls_values a \<noteq> [])
         (exc ProgrammingError ''allow_psk_only_loopback forbids TLS arguments'')
       (raise_if (list_ex (\<lambda>m. \<not> is_numeric_loopback (member_endpoint m)) registry)
         (exc ProgrammingError ''allow_psk_only_loopback requires numeric loopback endpoints; got '')
       (Inr ())))
     else Inr ())"

definition check_startup :: "pyobj \<Rightarrow> rat pyres" where
  "check_startup timeout =
    (case num_value timeout of
       None \<Rightarrow> Inl (exc ProgrammingError ''startup_timeout must be positive seconds'')
     | Some t \<Rightarrow> raise_if (t \<le> 0) (exc ProgrammingError ''startup_timeout must be positive seconds'') (Inr t))"

definition native_member :: "member_obj \<Rightarrow> int \<times> string \<times> int" where
  "native_member m =
    (member_id m, member_endpoint m, case role_codes (member_role m) of None \<Rightarrow> 0 | Some c \<Rightarrow> c)"

definition open_args_of :: "server_args \<Rightarrow> member_obj list \<Rightarrow> rat \<Rightarrow> open_args" where
  "open_args_of a registry t =
    \<lparr>oa_directory = sa_directory a, oa_node_id = sa_node_id a, oa_members = map native_member registry,
     oa_cluster_id = sa_cluster_id a, oa_auth_file = sa_auth_file a, oa_tls_cert = sa_tls_cert a,
     oa_tls_key = sa_tls_key a, oa_tls_ca = sa_tls_ca a, oa_startup_ms = \<lfloor>t * 1000\<rfloor>,
     oa_allow_psk = sa_allow_psk a\<rparr>"

text \<open>\<open>start_server\<close> before its native call: the own endpoint and the arguments of \<open>cluster_open\<close>.\<close>

definition start_plan :: "bool \<Rightarrow> server_args \<Rightarrow> (string \<times> open_args) pyres" where
  "start_plan nt a =
    rbind (validate_members (sa_members a) (sa_node_id a)) (\<lambda>registry.
    rbind (own_endpoint registry (sa_node_id a)) (\<lambda>own.
    rbind (check_unix_members nt a registry) (\<lambda>_.
    raise_if (tls_values a \<noteq> [] \<and> length (tls_values a) \<noteq> 3)
      (exc ProgrammingError ''tls_ca, tls_cert, and tls_key must be supplied together'')
    (rbind (check_psk a registry) (\<lambda>_.
     rbind (check_startup (sa_startup_timeout a)) (\<lambda>t.
     Inr (own, open_args_of a registry t)))))))"

section \<open>The native cluster handle\<close>

record 'n cluster_native =
  cl_open :: "open_args \<Rightarrow> 'n \<Rightarrow> unit nres \<times> 'n"
  cl_state :: "'n \<Rightarrow> (int \<times> string) nres \<times> 'n"
  cl_call :: "string \<Rightarrow> bool \<Rightarrow> 'n \<Rightarrow> string nres \<times> 'n"
  cl_close :: "'n \<Rightarrow> unit nres \<times> 'n"

text \<open>
  What \<open>Server\<close> relies on: only a successful open yields a running member, reading the state never
  fails, and a close always succeeds and leaves nothing running. \<open>drift\<close> is what the member's own
  threads may do between two calls: start or stop nothing.
\<close>

locale cluster_handle =
  fixes N :: "'n cluster_native"
    and running :: "'n \<Rightarrow> bool"
    and drift :: "'n \<Rightarrow> 'n \<Rightarrow> bool"
  assumes open_ok: "cl_open N a n = (Inr u, n') \<Longrightarrow> running n'"
    and open_fail: "cl_open N a n = (Inl e, n') \<Longrightarrow> \<not> running n'"
    and state_ok: "\<exists>c f. fst (cl_state N n) = Inr (c, f)"
    and state_keeps: "running (snd (cl_state N n)) = running n"
    and call_keeps: "running (snd (cl_call N request leader n)) = running n"
    and close_ok: "fst (cl_close N n) = Inr ()" and close_ends: "\<not> running (snd (cl_close N n))"
    and drift_keeps: "drift n n' \<Longrightarrow> running n' = running n"

section \<open>The Server object\<close>

datatype server_state = HEALTHY | STOPPING | STOPPED | FAILED

record 'n server =
  sv_endpoint :: string
  sv_node_id :: int
  sv_members :: "member_obj list"
  sv_closed :: bool
  sv_terminal_failure :: "string option"
  sv_finalizer :: bool
  sv_pending :: bool
  sv_stops :: nat
  sv_native :: 'n

text \<open>\<open>worker.call\<close>; a native \<open>_ZxError\<close> that is not caught propagates as it is.\<close>

definition raw_error :: "zx_error \<Rightarrow> pyexc" where
  "raw_error e = exc ZxErrorC (zx_str e)"

definition server_call :: "(zx_error \<Rightarrow> pyexc) \<Rightarrow> ('n \<Rightarrow> 'a nres \<times> 'n) \<Rightarrow> ('n server, 'a) py" where
  "server_call remap f w =
    (case worker_call (sv_stops w) f (sv_native w) of (r, n) \<Rightarrow>
      (case r of None \<Rightarrow> Blocked | Some r \<Rightarrow> native_outcome remap r, w\<lparr>sv_native := n\<rparr>))"

definition server_stop :: "('n server, unit) py" where
  "server_stop = modify_s (\<lambda>w. w\<lparr>sv_stops := worker_stop (sv_stops w)\<rparr>)"

definition state_of_code :: "int \<Rightarrow> server_state" where
  "state_of_code code =
    (if code = 0 then HEALTHY else if code = 1 then STOPPING else if code = 2 then STOPPED
     else if code = 4 then FAILED else FAILED)"

text \<open>\<open>_native_state\<close> from the point where it has seen \<open>_closed\<close> unset, and as a whole.\<close>

definition native_state_call :: "'n cluster_native \<Rightarrow> ('n server, server_state \<times> string option) py" where
  "native_state_call N =
    pbind (server_call raw_error (cl_state N)) (\<lambda>(code, failure).
      ret (state_of_code code, if failure = [] then None else Some failure))"

definition native_state :: "'n cluster_native \<Rightarrow> ('n server, server_state \<times> string option) py" where
  "native_state N w =
    (if sv_closed w then
       (case sv_terminal_failure w of
          Some failure \<Rightarrow> ret (FAILED, Some failure) w
        | None \<Rightarrow> ret (STOPPED, None) w)
     else native_state_call N w)"

definition state_method :: "'n cluster_native \<Rightarrow> ('n server, server_state) py" where
  "state_method N = pbind (native_state N) (\<lambda>(s, _). ret s)"

definition failure_property :: "'n cluster_native \<Rightarrow> ('n server, string option) py" where
  "failure_property N = pbind (native_state N) (\<lambda>(_, f). ret f)"

definition availability_error :: "string option \<Rightarrow> pyexc" where
  "availability_error failure =
    \<lparr>exc_type = OperationalError,
     exc_msg = (case failure of None \<Rightarrow> ''local cluster member failed''
       | Some m \<Rightarrow> if m = [] then ''local cluster member failed'' else m),
     exc_category = Some ''availability''\<rparr>"

definition raise_if_failed :: "'n cluster_native \<Rightarrow> ('n server, unit) py" where
  "raise_if_failed N =
    pbind (native_state N) (\<lambda>(s, f). if s = FAILED then throw (availability_error f) else ret ())"

definition endpoint_property :: "'n cluster_native \<Rightarrow> ('n server, string) py" where
  "endpoint_property N = pbind (raise_if_failed N) (\<lambda>_. gets sv_endpoint)"

text \<open>\<open>_call_local\<close>, split where another thread may close the server.\<close>

definition local_rpc :: "'n cluster_native \<Rightarrow> string \<Rightarrow> bool \<Rightarrow> ('n server, string) py" where
  "local_rpc N request leader = server_call map_native_error (cl_call N request leader)"

definition call_local :: "'n cluster_native \<Rightarrow> string \<Rightarrow> bool \<Rightarrow> ('n server, string) py" where
  "call_local N request leader = pbind (raise_if_failed N) (\<lambda>_. local_rpc N request leader)"

text \<open>\<open>close\<close>: the part under \<open>_close_lock\<close>, which says whether to go on, and the part after it.\<close>

definition raise_terminal :: "('n server, 'a) py \<Rightarrow> ('n server, 'a) py" where
  "raise_terminal m w =
    (case sv_terminal_failure w of Some f \<Rightarrow> throw (availability_error (Some f)) w | None \<Rightarrow> m w)"

definition close_locked :: "'n cluster_native \<Rightarrow> ('n server, bool) py" where
  "close_locked N w =
    (if sv_closed w then raise_terminal (ret False) w
     else pbind (native_state N) (\<lambda>(s, f).
       pbind (if s = FAILED
              then modify_s (\<lambda>w. w\<lparr>sv_terminal_failure :=
                Some (case f of None \<Rightarrow> ''LocalNodeFailed'' | Some m \<Rightarrow> if m = [] then ''LocalNodeFailed'' else m)\<rparr>)
              else ret ()) (\<lambda>_.
       pbind (modify_s (\<lambda>w. w\<lparr>sv_closed := True, sv_pending := True\<rparr>)) (\<lambda>_. ret True))) w)"

definition close_tail :: "'n cluster_native \<Rightarrow> ('n server, unit) py" where
  "close_tail N =
    pbind (modify_s (\<lambda>w. w\<lparr>sv_finalizer := False, sv_pending := False\<rparr>)) (\<lambda>_.
    pbind (finally_do (server_call raw_error (cl_close N)) server_stop) (\<lambda>_.
    raise_terminal (ret ())))"

definition server_close :: "'n cluster_native \<Rightarrow> ('n server, unit) py" where
  "server_close N = pbind (close_locked N) (\<lambda>go_on. if go_on then close_tail N else ret ())"

text \<open>The properties that answer without the native handle.\<close>

definition node_id_property :: "('n server, int) py" where
  "node_id_property = gets sv_node_id"

definition members_property :: "('n server, member_obj list) py" where
  "members_property = gets sv_members"

definition closed_property :: "('n server, bool) py" where
  "closed_property = gets sv_closed"

text \<open>\<open>__enter__\<close> returns the server itself; \<open>__exit__\<close> lets the exception of the block propagate.\<close>

definition server_exit :: "'n cluster_native \<Rightarrow> ('n server, bool) py" where
  "server_exit N = pbind (server_close N) (\<lambda>_. ret False)"

text \<open>
  The finalizer of a server that was never closed; a detached finalizer does nothing. \<open>warn\<close> is the
  exception that \<open>warnings.warn\<close> raises when the warning filters turn a \<open>ResourceWarning\<close> into an error.
\<close>

definition warn_unclosed :: "'n cluster_native \<Rightarrow> pyexc option \<Rightarrow> ('n server, unit) py" where
  "warn_unclosed N warn w =
    (if sv_finalizer w
     then pbind (modify_s (\<lambda>w. w\<lparr>sv_finalizer := False\<rparr>)) (\<lambda>_.
            pbind (case warn of Some e \<Rightarrow> throw e | None \<Rightarrow> ret ()) (\<lambda>_.
            finally_do (server_call raw_error (cl_close N)) server_stop)) w
     else ret () w)"

text \<open>
  \<open>start_server\<close>: the outcome, with the worker it spawned when it got that far. The worker of a member
  that fails to open is stopped, whatever was raised.
\<close>

definition server_init :: "string \<Rightarrow> server_args \<Rightarrow> nat \<Rightarrow> 'n \<Rightarrow> 'n server" where
  "server_init own a stops n =
    \<lparr>sv_endpoint = own, sv_node_id = sa_node_id a, sv_members = sa_members a, sv_closed = False,
     sv_terminal_failure = None, sv_finalizer = True, sv_pending = False, sv_stops = stops, sv_native = n\<rparr>"

definition start_server ::
  "'n cluster_native \<Rightarrow> bool \<Rightarrow> server_args \<Rightarrow> 'n \<Rightarrow> unit outcome \<times> 'n server option" where
  "start_server N nt a n =
    (case start_plan nt a of
       Inl e \<Rightarrow> (Raise e, None)
     | Inr (own, oa) \<Rightarrow>
         (case catch (server_call map_native_error (cl_open N oa))
             (\<lambda>e. pbind server_stop (\<lambda>_. throw e)) (server_init own a 0 n) of
            (r, w) \<Rightarrow> (r, Some w)))"

section \<open>The extension module's handle\<close>

text \<open>The C values \<open>cluster_open\<close> parses its arguments into: \<open>I\<close> and \<open>K\<close> truncate without a check.\<close>

record c_args =
  ca_args :: open_args
  ca_node_id :: "32 word"
  ca_members :: "(32 word \<times> string \<times> int) list"
  ca_startup_ms :: "64 word"

definition parse_open :: "open_args \<Rightarrow> c_args pyres" where
  "parse_open oa =
    raise_if (\<not> (nul_free (oa_directory oa) \<and>
        list_all (\<lambda>v. case v of None \<Rightarrow> True | Some s \<Rightarrow> nul_free s)
          [oa_cluster_id oa, oa_auth_file oa, oa_tls_cert oa, oa_tls_key oa, oa_tls_ca oa] \<and>
        list_all (\<lambda>(_, e, _). nul_free e) (oa_members oa)))
      (exc PyValueError ''embedded null character'')
    (Inr \<lparr>ca_args = oa, ca_node_id = word_of_int (oa_node_id oa),
          ca_members = map (\<lambda>(i, e, r). (word_of_int i, e, r)) (oa_members oa),
          ca_startup_ms = word_of_int (oa_startup_ms oa)\<rparr>)"

text \<open>
  The functions \<open>zaxonlite_cluster_*\<close> of the C interface over a member \<open>'z\<close>. A call answers with its
  return code, its response and the member's last error text.
\<close>

record 'z zig_cluster =
  zc_open :: "c_args \<Rightarrow> int \<times> 'z option"
  zc_state :: "'z \<Rightarrow> int \<times> string"
  zc_call :: "string \<Rightarrow> bool \<Rightarrow> 'z \<Rightarrow> int \<times> string \<times> string \<times> 'z"

definition handleless_category :: "int \<Rightarrow> int" where
  "handleless_category rc = (if rc = 2 then 4 else if rc = 3 then 6 else if rc = 4 then 7 else 9)"

text \<open>A \<open>ClusterBox\<close> holds the handle, \<open>None\<close> for \<open>NULL\<close>.\<close>

definition box_native :: "'z zig_cluster \<Rightarrow> 'z option cluster_native" where
  "box_native Z =
    \<lparr>cl_open = (\<lambda>oa _. case parse_open oa of
        Inl e \<Rightarrow> (Inl (PyErr e), None)
      | Inr ca \<Rightarrow> (case zc_open Z ca of (rc, handle) \<Rightarrow>
          if rc \<noteq> 0 \<or> handle = None
          then (Inl (raise_zx_error rc (handleless_category rc)
             ''cluster member failed to start (bad options, locked directory, or startup timeout)''), None)
          else (Inr (), handle))),
     cl_state = (\<lambda>box. (Inr (case box of None \<Rightarrow> (2, []) | Some z \<Rightarrow> zc_state Z z), box)),
     cl_call = (\<lambda>request leader box. if \<not> nul_free request then (Inl (PyErr (exc PyValueError ''embedded null character'')), box) else case box of
        None \<Rightarrow> (Inl (raise_zx_error 4 7 ''local cluster member is stopped''), None)
      | Some z \<Rightarrow> (case zc_call Z request leader z of (rc, response, last_error, z') \<Rightarrow>
          (if rc \<noteq> 0
           then Inl (raise_zx_error rc (handleless_category rc)
             (if last_error \<noteq> [] then last_error else ''cluster call failed''))
           else Inr response, Some z'))),
     cl_close = (\<lambda>box. (Inr (), None))\<rparr>"

definition box_running :: "'z option \<Rightarrow> bool" where
  "box_running box = (box \<noteq> None)"

definition box_drift :: "'z option \<Rightarrow> 'z option \<Rightarrow> bool" where
  "box_drift box box' = (box_running box' = box_running box)"

section \<open>Accepted registries\<close>

text \<open>The declarative reading of the checks.\<close>

fun member_ok :: "member_obj \<Rightarrow> bool" where
  "member_ok (Member i e r) \<longleftrightarrow>
     (\<exists>n. int_value i = Some n \<and> 0 < n) \<and> (\<exists>s. e = PStr s \<and> s \<noteq> []) \<and> role_codes r \<noteq> None"
| "member_ok NotMember \<longleftrightarrow> False"

definition registry_ok :: "member_obj list \<Rightarrow> int \<Rightarrow> bool" where
  "registry_ok ms node_id \<longleftrightarrow>
     1 \<le> length ms \<and> length ms \<le> 36 \<and> (\<forall>m \<in> set ms. member_ok m) \<and>
     distinct (map member_id ms) \<and> distinct (map member_endpoint ms) \<and> node_id \<in> member_id ` set ms"

definition unix_member :: "member_obj \<Rightarrow> bool" where
  "unix_member m \<longleftrightarrow> startswith (member_endpoint m) ''unix:''"

definition unix_ok :: "bool \<Rightarrow> server_args \<Rightarrow> bool" where
  "unix_ok nt a \<longleftrightarrow>
     (\<forall>m \<in> set (sa_members a). unix_member m \<longrightarrow>
        \<not> nt \<and> sa_members a = [m] \<and> member_role m \<noteq> ''gateway'' \<and>
        startswith (member_endpoint m) ''unix:/'' \<and> sa_tls_ca a = None \<and> sa_tls_cert a = None \<and>
        sa_tls_key a = None \<and> \<not> sa_allow_psk a)"

definition secrets_ok :: "server_args \<Rightarrow> bool" where
  "secrets_ok a \<longleftrightarrow>
     (sa_tls_ca a = None \<longleftrightarrow> sa_tls_cert a = None) \<and> (sa_tls_ca a = None \<longleftrightarrow> sa_tls_key a = None) \<and>
     (sa_allow_psk a \<longrightarrow> sa_auth_file a \<noteq> None \<and> sa_tls_ca a = None \<and>
        (\<forall>m \<in> set (sa_members a). is_numeric_loopback (member_endpoint m)))"

lemma validate_loop_iff:
  "validate_loop ms ids eps = Inr r \<longleftrightarrow>
     r = rev (map member_id ms) @ ids \<and> (\<forall>m \<in> set ms. member_ok m) \<and>
     distinct (map member_id ms) \<and> distinct (map member_endpoint ms) \<and>
     set (map member_id ms) \<inter> set ids = {} \<and> set (map member_endpoint ms) \<inter> set eps = {}"
proof (induction ms ids eps rule: validate_loop.induct)
  case (3 ident endpoint role ms ids eps)
  show ?case
  proof (cases "member_ok (Member ident endpoint role)")
    case True
    then obtain i e where "int_value ident = Some i" "0 < i" "endpoint = PStr e" "e \<noteq> []" "role_codes role \<noteq> None"
      by auto
    with 3 [of i e] show ?thesis by (auto simp: raise_if_Inr_iff)
  next
    case False
    then show ?thesis by (auto simp: raise_if_Inr_iff split: option.splits pyobj.splits)
  qed
qed auto

lemma validate_members_iff: "validate_members ms node_id = Inr r \<longleftrightarrow> r = ms \<and> registry_ok ms node_id"
  by (auto simp: validate_members_def registry_ok_def raise_if_Inr_iff rbind_Inr_iff validate_loop_iff
      max_members_def Suc_le_eq)

lemma own_endpoint_iff:
  assumes "registry_ok ms node_id"
  shows "own_endpoint ms node_id = Inr e \<longleftrightarrow> (\<exists>m \<in> set ms. member_id m = node_id \<and> member_endpoint m = e)"
proof -
  let ?kv = "rev (map (\<lambda>m. (member_id m, member_endpoint m)) ms)"
  have "distinct (map fst ?kv)"
    using assms by (simp add: registry_ok_def rev_map [symmetric] comp_def)
  then have "map_of ?kv node_id = Some e \<longleftrightarrow> (node_id, e) \<in> set ?kv" by (rule map_of_eq_Some_iff)
  then show ?thesis by (auto simp: own_endpoint_def split: option.splits)
qed

lemma tls_values_simps:
  "tls_values a = [] \<longleftrightarrow> sa_tls_ca a = None \<and> sa_tls_cert a = None \<and> sa_tls_key a = None"
  "length (tls_values a) = 3 \<longleftrightarrow> sa_tls_ca a \<noteq> None \<and> sa_tls_cert a \<noteq> None \<and> sa_tls_key a \<noteq> None"
  by (auto simp: tls_values_def)

lemma unix_path_split:
  "startswith s ''unix:'' \<Longrightarrow> startswith (drop (Suc (Suc (Suc (Suc (Suc 0))))) s) ''/'' \<longleftrightarrow> startswith s ''unix:/''"
proof -
  assume "startswith s ''unix:''"
  then obtain t where "s = ''unix:'' @ t" by (metis prefix_def startswith_iff_prefix)
  then show ?thesis by simp
qed

lemma check_unix_members_iff: "check_unix_members nt a (sa_members a) = Inr u \<longleftrightarrow> unix_ok nt a"
proof (cases "filter (\<lambda>m. startswith (member_endpoint m) ''unix:'') (sa_members a)")
  case Nil
  then show ?thesis by (auto simp: check_unix_members_def unix_ok_def unix_member_def filter_empty_conv)
next
  case (Cons only rest)
  then have "only \<in> set (filter (\<lambda>m. startswith (member_endpoint m) ''unix:'') (sa_members a))" by simp
  then have only: "only \<in> set (sa_members a)" "startswith (member_endpoint only) ''unix:''"
    unfolding set_filter by blast+
  show ?thesis
  proof (cases "length (sa_members a) = 1")
    case True
    with only have "sa_members a = [only]" by (cases "sa_members a") auto
    with Cons only show ?thesis
      by (auto simp: check_unix_members_def unix_ok_def unix_member_def raise_if_Inr_iff
          unix_path_split tls_values_simps simp del: startswith_Cons)
  next
    case False
    with Cons only show ?thesis
      by (auto simp: check_unix_members_def unix_ok_def unix_member_def raise_if_Inr_iff)
  qed
qed

lemma check_psk_iff:
  "\<not> (tls_values a \<noteq> [] \<and> length (tls_values a) \<noteq> 3) \<and> check_psk a (sa_members a) = Inr u \<longleftrightarrow> secrets_ok a"
  by (auto simp: check_psk_def secrets_ok_def tls_values_simps raise_if_Inr_iff list_ex_iff)

lemma check_startup_iff: "check_startup v = Inr t \<longleftrightarrow> num_value v = Some t \<and> 0 < t"
  by (auto simp: check_startup_def raise_if_Inr_iff split: option.splits)

lemma start_plan_iff:
  "start_plan nt a = Inr (own, oa) \<longleftrightarrow>
     registry_ok (sa_members a) (sa_node_id a) \<and> unix_ok nt a \<and> secrets_ok a \<and>
     (\<exists>t. num_value (sa_startup_timeout a) = Some t \<and> 0 < t \<and> oa = open_args_of a (sa_members a) t) \<and>
     (\<exists>m \<in> set (sa_members a). member_id m = sa_node_id a \<and> member_endpoint m = own)"
proof (cases "registry_ok (sa_members a) (sa_node_id a)")
  case True
  with check_psk_iff [of a "()"] show ?thesis
    by (auto simp: start_plan_def rbind_Inr_iff raise_if_Inr_iff validate_members_iff
        check_unix_members_iff check_startup_iff own_endpoint_iff simp del: bex_simps)
next
  case False
  then show ?thesis by (auto simp: start_plan_def rbind_Inr_iff validate_members_iff)
qed

section \<open>The life of a server\<close>

text \<open>
  The steps of a server that several threads use: a lifecycle query or RPC, also one that passed its
  closed check before another thread's \<open>close\<close>; the two parts of \<open>close\<close>; the member's own threads.
\<close>

inductive server_step :: "'n cluster_native \<Rightarrow> ('n \<Rightarrow> 'n \<Rightarrow> bool) \<Rightarrow> 'n server \<Rightarrow> 'n server \<Rightarrow> bool" for N drift where
  query: "server_step N drift w (snd (native_state N w))"
| late_query: "server_step N drift w (snd (native_state_call N w))"
| rpc: "server_step N drift w (snd (local_rpc N request leader w))"
| locked: "server_step N drift w (snd (close_locked N w))"
| tail: "sv_pending w \<Longrightarrow> server_step N drift w (snd (close_tail N w))"
| member: "drift (sv_native w) n \<Longrightarrow> server_step N drift w (w\<lparr>sv_native := n\<rparr>)"

inductive_cases server_stepE: "server_step N drift w w'"

definition server_start :: "'n cluster_native \<Rightarrow> bool \<Rightarrow> server_args \<Rightarrow> 'n server \<Rightarrow> bool" where
  "server_start N nt a w \<longleftrightarrow> (\<exists>n. start_server N nt a n = (Return (), Some w))"

definition server_inv :: "('n \<Rightarrow> bool) \<Rightarrow> server_args \<Rightarrow> 'n server \<Rightarrow> bool" where
  "server_inv running a w \<longleftrightarrow>
     sv_node_id w = sa_node_id a \<and> sv_members w = sa_members a \<and>
     registry_ok (sv_members w) (sv_node_id w) \<and>
     (\<exists>m \<in> set (sv_members w). member_id m = sv_node_id w \<and> member_endpoint m = sv_endpoint w) \<and>
     (sv_pending w \<longrightarrow> sv_closed w) \<and> (sv_terminal_failure w \<noteq> None \<longrightarrow> sv_closed w) \<and>
     sv_stops w = (if sv_closed w \<and> \<not> sv_pending w then 1 else 0) \<and>
     (running (sv_native w) \<longleftrightarrow> sv_stops w = 0) \<and> (sv_finalizer w \<longleftrightarrow> sv_stops w = 0)"

lemma server_call_running:
  "sv_stops w = 0 \<Longrightarrow> server_call remap f w =
     (native_outcome remap (fst (f (sv_native w))), w\<lparr>sv_native := snd (f (sv_native w))\<rparr>)"
  by (simp add: server_call_def)

lemma server_call_stopped: "0 < sv_stops w \<Longrightarrow> server_call remap f w = (Blocked, w)"
  by (simp add: server_call_def)

definition stopped :: "'n server \<Rightarrow> bool" where
  "stopped w \<longleftrightarrow> sv_closed w \<and> \<not> sv_pending w \<and> 0 < sv_stops w"

lemma stopped_noop:
  assumes "stopped w"
  shows "snd (native_state N w) = w" and "native_state_call N w = (Blocked, w)"
    and "local_rpc N request leader w = (Blocked, w)" and "snd (close_locked N w) = w"
  using assms
  by (auto simp: stopped_def native_state_def native_state_call_def local_rpc_def close_locked_def
      raise_terminal_def server_call_stopped py_defs split: option.splits)

lemma stopped_step:
  assumes "server_step N drift w w'" and "stopped w"
  shows "stopped w' \<and> sv_terminal_failure w' = sv_terminal_failure w"
  using assms(1)
proof (cases rule: server_step.cases)
  case tail
  with assms(2) show ?thesis by (simp add: stopped_def)
next
  case (member n)
  with assms(2) show ?thesis by (simp add: stopped_def)
qed (use assms(2) stopped_noop [OF assms(2)] in simp_all)

lemma stopped_steps:
  "(server_step N drift)\<^sup>*\<^sup>* w w' \<Longrightarrow> stopped w \<Longrightarrow>
     stopped w' \<and> sv_terminal_failure w' = sv_terminal_failure w"
  by (induction rule: rtranclp_induct) (auto dest: stopped_step)

text \<open>The failure a \<open>close\<close> reports, from the state the member had.\<close>

definition close_failure :: "int \<times> string \<Rightarrow> string option" where
  "close_failure s =
    (if state_of_code (fst s) = FAILED then Some (if snd s = [] then ''LocalNodeFailed'' else snd s) else None)"

definition close_outcome :: "string option \<Rightarrow> unit outcome" where
  "close_outcome f = (case f of None \<Rightarrow> Return () | Some m \<Rightarrow> Raise (availability_error (Some m)))"

definition final_state :: "string option \<Rightarrow> server_state \<times> string option" where
  "final_state f = (case f of None \<Rightarrow> (STOPPED, None) | Some m \<Rightarrow> (FAILED, Some m))"

lemma stopped_answers:
  assumes "stopped w"
  shows "server_close N w = (close_outcome (sv_terminal_failure w), w)"
    and "native_state N w = (Return (final_state (sv_terminal_failure w)), w)"
  using assms
  by (auto simp: stopped_def server_close_def close_locked_def raise_terminal_def native_state_def
      close_outcome_def final_state_def py_defs split: option.splits)

lemma start_server_opened:
  assumes "start_server N nt a n = (Return (), Some w)"
  obtains own oa n' where "start_plan nt a = Inr (own, oa)" and "cl_open N oa n = (Inr (), n')"
    and "w = server_init own a 0 n'"
proof -
  from assms obtain own oa where plan: "start_plan nt a = Inr (own, oa)"
    by (auto simp: start_server_def split: sum.splits)
  obtain r n' where o: "cl_open N oa n = (r, n')" by fastforce
  from assms plan o have "r = Inr ()" and w: "w = server_init own a 0 n'"
    by (auto simp: start_server_def server_call_running server_init_def server_stop_def native_outcome_def py_defs
        split: sum.splits native_exc.splits)
  with plan o that show thesis by blast
qed

context cluster_handle
begin

lemma start_inv: "server_start N nt a w \<Longrightarrow> server_inv running a w"
proof -
  assume "server_start N nt a w"
  then obtain n where "start_server N nt a n = (Return (), Some w)" by (auto simp: server_start_def)
  then show ?thesis
    by (rule start_server_opened) (use open_ok in \<open>auto simp: start_plan_iff server_inv_def server_init_def\<close>)
qed

lemma keep_running:
  "server_inv running a w \<Longrightarrow> running n = running (sv_native w) \<Longrightarrow> server_inv running a (w\<lparr>sv_native := n\<rparr>)"
  by (auto simp: server_inv_def)

lemma handle_call_inv:
  assumes "server_inv running a w" and "\<And>n. running (snd (f n)) = running n"
  shows "server_inv running a (snd (server_call remap f w))"
  using assms by (cases "sv_stops w = 0") (simp_all add: server_call_running server_call_stopped keep_running)

lemma query_inv:
  assumes "server_inv running a w"
  shows "server_inv running a (snd (native_state_call N w))" and "server_inv running a (snd (native_state N w))"
proof -
  have "snd (native_state_call N w) = snd (server_call raw_error (cl_state N) w)"
    by (auto simp: native_state_call_def py_defs split: prod.splits outcome.splits)
  with handle_call_inv [OF assms state_keeps] show *: "server_inv running a (snd (native_state_call N w))" by simp
  with assms show "server_inv running a (snd (native_state N w))"
    by (simp add: native_state_def ret_def split: option.splits)
qed

text \<open>The part of \<open>close\<close> under the lock, on a server that is still open.\<close>

lemma close_locked_open:
  assumes "server_inv running a w" and "\<not> sv_closed w"
  obtains c f n where "cl_state N (sv_native w) = (Inr (c, f), n)" and "running n"
    and "close_locked N w = (Return True, w\<lparr>sv_native := n, sv_terminal_failure := close_failure (c, f),
           sv_closed := True, sv_pending := True\<rparr>)"
proof -
  from state_ok obtain c f n where s: "cl_state N (sv_native w) = (Inr (c, f), n)"
    by (metis prod.collapse)
  from assms have run: "sv_stops w = 0" "running (sv_native w)" "sv_terminal_failure w = None"
    by (auto simp: server_inv_def)
  have "running n" using state_keeps [of "sv_native w"] s run(2) by simp
  moreover have "close_locked N w = (Return True, w\<lparr>sv_native := n, sv_terminal_failure := close_failure (c, f),
           sv_closed := True, sv_pending := True\<rparr>)"
    using s run assms(2)
    by (simp add: close_locked_def native_state_def native_state_call_def server_call_running
        native_outcome_def close_failure_def py_defs)
  ultimately show ?thesis using s that by blast
qed

lemma close_tail_pending:
  assumes "server_inv running a w" and "sv_pending w"
  shows "close_tail N w = (close_outcome (sv_terminal_failure w),
      w\<lparr>sv_native := snd (cl_close N (sv_native w)), sv_finalizer := False, sv_pending := False, sv_stops := 1\<rparr>)"
proof -
  have "sv_stops w = 0" using assms by (simp add: server_inv_def)
  then show ?thesis
    using close_ok
    by (auto simp: close_tail_def server_call_running native_outcome_def server_stop_def worker_stop_def
        raise_terminal_def close_outcome_def py_defs split: option.splits)
qed

lemma step_inv:
  assumes "server_inv running a w" and "server_step N drift w w'"
  shows "server_inv running a w'"
  using assms(2)
proof (cases rule: server_step.cases)
  case locked
  show ?thesis
  proof (cases "sv_closed w")
    case True
    with assms(1) locked show ?thesis
      by (auto simp: close_locked_def raise_terminal_def py_defs split: option.splits)
  next
    case False
    with assms(1) obtain c f n where "running n" "close_locked N w = (Return True, w\<lparr>sv_native := n,
        sv_terminal_failure := close_failure (c, f), sv_closed := True, sv_pending := True\<rparr>)"
      by (rule close_locked_open)
    with assms(1) locked False show ?thesis by (auto simp: server_inv_def)
  qed
next
  case tail
  with assms(1) close_ends [of "sv_native w"] show ?thesis
    unfolding tail(1) close_tail_pending [OF assms(1) tail(2)] by (auto simp: server_inv_def)
next
  case (rpc request leader)
  then show ?thesis unfolding local_rpc_def using handle_call_inv [OF assms(1) call_keeps] by simp
next
  case (member n)
  then show ?thesis using keep_running [OF assms(1)] drift_keeps by simp
qed (use query_inv [OF assms(1)] in simp_all)

lemma close_open_server:
  assumes "server_inv running a w" and "\<not> sv_closed w"
  obtains c f n w' where "cl_state N (sv_native w) = (Inr (c, f), n)"
    and "server_close N w = (close_outcome (close_failure (c, f)), w')" and "stopped w'"
    and "sv_terminal_failure w' = close_failure (c, f)" and "server_inv running a w'"
proof -
  obtain c f n where s: "cl_state N (sv_native w) = (Inr (c, f), n)" and
    l: "close_locked N w = (Return True, w\<lparr>sv_native := n, sv_terminal_failure := close_failure (c, f),
           sv_closed := True, sv_pending := True\<rparr>)" (is "_ = (_, ?w1)")
    by (rule close_locked_open [OF assms])
  have "server_step N drift w ?w1" using server_step.locked [of N drift w] by (simp add: l)
  then have inv: "server_inv running a ?w1" by (rule step_inv [OF assms(1)])
  let ?w2 = "snd (close_tail N ?w1)"
  have t: "close_tail N ?w1 = (close_outcome (close_failure (c, f)), ?w2)"
    and "stopped ?w2" "sv_terminal_failure ?w2 = close_failure (c, f)"
    by (simp_all add: close_tail_pending [OF inv] stopped_def)
  moreover have "server_inv running a ?w2"
    using step_inv [OF inv] server_step.tail [of ?w1 N drift] by simp
  moreover have "server_close N w = close_tail N ?w1" by (simp add: server_close_def pbind_def l)
  ultimately show ?thesis using s that by simp
qed

end

interpretation box: cluster_handle "box_native Z" box_running box_drift for Z
  by unfold_locales
    (auto simp: box_native_def box_running_def box_drift_def split: sum.splits prod.splits option.splits if_splits)

interpretation server: state_machine "server_start (box_native Z) nt a" "server_step (box_native Z) box_drift"
    "server_inv box_running a" for Z nt a
  by unfold_locales (auto intro: box.start_inv box.step_inv)

section \<open>Properties\<close>

text \<open>A concrete member for the examples: it reports the lifecycle code and failure it holds.\<close>

definition demo_member :: "(int \<times> string) zig_cluster" where
  "demo_member = \<lparr>zc_open = (\<lambda>_. (0, Some (0, []))), zc_state = (\<lambda>z. z), zc_call = (\<lambda>_ _ z. (0, ''ok'', [], z))\<rparr>"

definition demo_server_args :: server_args where
  "demo_server_args =
    \<lparr>sa_directory = ''/srv/node'', sa_node_id = 2,
     sa_members = [Member (PInt 1) (PStr ''db1:9901'') ''data_voter'', Member (PInt 2) (PStr ''db2:9901'') ''witness''],
     sa_cluster_id = None, sa_auth_file = Some ''psk'', sa_tls_ca = Some ''ca'', sa_tls_cert = Some ''crt'',
     sa_tls_key = Some ''key'', sa_startup_timeout = PFloat (5/2), sa_allow_psk = False\<rparr>"

definition demo_server :: "(int \<times> string) option \<Rightarrow> (int \<times> string) option server" where
  "demo_server n = server_init ''db2:9901'' demo_server_args 0 n"

lemma demo_started: "start_server (box_native demo_member) False demo_server_args None =
    (Return (), Some (demo_server (Some (0, []))))"
  by code_simp

lemma demo_failing: "(server_step (box_native demo_member) box_drift)\<^sup>*\<^sup>* (demo_server (Some (0, [])))
    (demo_server (Some (4, ''DiskFull'')))"
proof -
  have "server_step (box_native demo_member) box_drift (demo_server (Some (0, [])))
      ((demo_server (Some (0, [])))\<lparr>sv_native := Some (4, ''DiskFull'')\<rparr>)"
    by (rule server_step.member) (simp add: demo_server_def server_init_def box_drift_def box_running_def)
  then show ?thesis by (simp add: demo_server_def server_init_def r_into_rtranclp)
qed

text \<open>
  C16. \<open>start_server\<close> reaches its native call exactly for the argument combinations its contract
  allows: 1 to 36 genuine members with positive, distinct ids, distinct non-empty endpoints and known
  roles, the node among them; a Unix endpoint only off Windows, alone, absolute, not a gateway,
  without TLS or the pre-shared-key mode; TLS material complete or absent; the pre-shared-key mode
  only with an auth file, without TLS and on numeric loopback hosts; a positive timeout. The own endpoint is
  that of the node's member, and the native arguments are those of the registry.
\<close>

theorem start_plan_exact:
  "start_plan nt a = Inr (own, oa) \<longleftrightarrow>
     registry_ok (sa_members a) (sa_node_id a) \<and> unix_ok nt a \<and> secrets_ok a \<and>
     (\<exists>t. num_value (sa_startup_timeout a) = Some t \<and> 0 < t \<and> oa = open_args_of a (sa_members a) t) \<and>
     (\<exists>m \<in> set (sa_members a). member_id m = sa_node_id a \<and> member_endpoint m = own)"
  by (rule start_plan_iff)



text \<open>
  C15. Closing an open server always comes back: it releases the handle and stops the worker once, and
  raises the availability error of a member that had failed. From then on, after any further use,
  \<open>close\<close> repeats that very outcome and the lifecycle query answers \<open>stopped\<close>, or \<open>failed\<close> with the same
  failure, without touching the native side.
\<close>

theorem server_close_terminal:
  assumes "start_server (box_native Z) nt a n = (Return (), Some w0)"
    and "(server_step (box_native Z) box_drift)\<^sup>*\<^sup>* w0 w" and "\<not> sv_closed w"
  shows "\<exists>z f w'. sv_native w = Some z \<and> f = close_failure (zc_state Z z) \<and>
    server_close (box_native Z) w = (close_outcome f, w') \<and> sv_native w' = None \<and> sv_stops w' = 1 \<and>
    (\<forall>w''. (server_step (box_native Z) box_drift)\<^sup>*\<^sup>* w' w'' \<longrightarrow>
       server_close (box_native Z) w'' = (close_outcome f, w'') \<and>
       native_state (box_native Z) w'' = (Return (final_state f), w''))"
proof -
  from assms(1) have "server_start (box_native Z) nt a w0" by (auto simp: server_start_def)
  note inv = server.reachable_inv [OF this assms(2)]
  then obtain z where z: "sv_native w = Some z" using assms(3) by (auto simp: server_inv_def box_running_def)
  obtain c f n w' where s: "cl_state (box_native Z) (sv_native w) = (Inr (c, f), n)" and
    close: "server_close (box_native Z) w = (close_outcome (close_failure (c, f)), w')" and
    stopped: "stopped w'" "sv_terminal_failure w' = close_failure (c, f)" and
    inv': "server_inv box_running a w'"
    by (rule box.close_open_server [OF inv assms(3)])
  from s z have cf: "close_failure (zc_state Z z) = close_failure (c, f)" by (simp add: box_native_def)
  from inv' stopped(1) have "sv_native w' = None" "sv_stops w' = 1"
    by (auto simp: server_inv_def stopped_def box_running_def)
  with z close cf stopped_steps [OF _ stopped(1)] stopped_answers stopped(2) show ?thesis by metis
qed

theorem server_close_terminal_witness:
  "\<exists>w'. server_close (box_native demo_member) (demo_server (Some (4, ''DiskFull''))) =
      (Raise (availability_error (Some ''DiskFull'')), w') \<and>
    server_close (box_native demo_member) w' = (Raise (availability_error (Some ''DiskFull'')), w') \<and>
    native_state (box_native demo_member) w' = (Return (FAILED, Some ''DiskFull''), w')"
proof -
  have "\<not> sv_closed (demo_server (Some (4, ''DiskFull'')))" by (simp add: demo_server_def server_init_def)
  from server_close_terminal [OF demo_started demo_failing this] show ?thesis
    by (fastforce simp: demo_server_def server_init_def demo_member_def close_failure_def state_of_code_def
        close_outcome_def final_state_def)
qed

text \<open>
  A query or RPC that saw the server open, and reaches the worker after another thread's \<open>close\<close> has
  finished, never returns, although that \<open>close\<close> did.
\<close>

lemma server_late_calls_block:
  assumes "start_server (box_native Z) nt a n = (Return (), Some w0)"
    and "(server_step (box_native Z) box_drift)\<^sup>*\<^sup>* w0 w" and "\<not> sv_closed w"
  shows "\<exists>r w'. server_close (box_native Z) w = (r, w') \<and> r \<noteq> Blocked \<and>
    native_state_call (box_native Z) w' = (Blocked, w') \<and> local_rpc (box_native Z) request leader w' = (Blocked, w')"
proof -
  from assms(1) have "server_start (box_native Z) nt a w0" by (auto simp: server_start_def)
  note inv = server.reachable_inv [OF this assms(2)]
  obtain c f n w' where "server_close (box_native Z) w = (close_outcome (close_failure (c, f)), w')" "stopped w'"
    by (rule box.close_open_server [OF inv assms(3)])
  with stopped_noop show ?thesis by (fastforce simp: close_outcome_def split: option.splits)
qed

lemma server_late_calls_block_example:
  "\<exists>w'. server_close (box_native demo_member) (demo_server (Some (0, []))) = (Return (), w') \<and>
     native_state_call (box_native demo_member) w' = (Blocked, w')"
proof -
  have o: "\<not> sv_closed (demo_server (Some (0, [])))" by (simp add: demo_server_def server_init_def)
  have "fst (server_close (box_native demo_member) (demo_server (Some (0, [])))) = Return ()" by code_simp
  with server_late_calls_block [OF demo_started rtranclp.rtrancl_refl o, of "''{}''" False] show ?thesis by auto
qed

lemma start_server_ends:
  "case start_server (box_native Z) nt a n of
     (r, None) \<Rightarrow> (\<exists>e. start_plan nt a = Inl e \<and> r = Raise e)
   | (r, Some w) \<Rightarrow>
       (\<exists>own oa. start_plan nt a = Inr (own, oa) \<and> sv_endpoint w = own \<and>
         (r = Return () \<and> sv_stops w = 0 \<and> sv_native w \<noteq> None \<or>
          (\<exists>e. r = Raise e) \<and> sv_stops w = 1 \<and> sv_native w = None))"
proof (cases "start_plan nt a")
  case (Inl e)
  then show ?thesis by (simp add: start_server_def)
next
  case (Inr p)
  obtain own oa where p: "p = (own, oa)" by fastforce
  obtain r n' where o: "cl_open (box_native Z) oa n = (r, n')" by fastforce
  show ?thesis
  proof (cases r)
    case (Inl e)
    with box.open_fail o have "n' = None" by (auto simp: box_running_def)
    with Inr p o Inl show ?thesis
      by (cases e) (simp_all add: start_server_def server_call_running server_init_def server_stop_def
          worker_stop_def native_outcome_def py_defs)
  next
    case r: (Inr u)
    with box.open_ok o have "n' \<noteq> None" by (auto simp: box_running_def)
    with Inr p o r show ?thesis
      by (simp add: start_server_def server_call_running server_init_def native_outcome_def py_defs)
  qed
qed

text \<open>
  C18. \<open>start_server\<close> leaves nothing behind: refused arguments raise before any worker exists; otherwise
  either the server is returned with its worker and handle running, or the error is raised with the
  worker stopped and no handle open.
\<close>

theorem start_server_clean:
  "case start_server (box_native Z) nt a n of
     (r, None) \<Rightarrow> (\<exists>e. start_plan nt a = Inl e \<and> r = Raise e)
   | (r, Some w) \<Rightarrow>
       (\<exists>own oa. start_plan nt a = Inr (own, oa) \<and> sv_endpoint w = own \<and>
         (r = Return () \<and> sv_stops w = 0 \<and> sv_native w \<noteq> None \<or>
          (\<exists>e. r = Raise e) \<and> sv_stops w = 1 \<and> sv_native w = None))"
  by (rule start_server_ends)

text \<open>
  A server that is dropped without \<open>close\<close> is released by its finalizer, unless warnings are errors: then
  the exception leaves before the native call, the handle stays open and the worker keeps running, and
  the finalizer is used up.
\<close>

lemma unclosed_server:
  assumes "start_server (box_native Z) nt a n = (Return (), Some w0)"
    and "(server_step (box_native Z) box_drift)\<^sup>*\<^sup>* w0 w" and "\<not> sv_closed w"
  shows "\<exists>w'. warn_unclosed (box_native Z) None w = (Return (), w') \<and> sv_native w' = None \<and> sv_stops w' = 1"
    and "\<exists>w'. warn_unclosed (box_native Z) (Some e) w = (Raise e, w') \<and> sv_native w' \<noteq> None \<and> sv_stops w' = 0 \<and>
      (\<forall>x. warn_unclosed (box_native Z) x w' = (Return (), w'))"
proof -
  from assms(1) have "server_start (box_native Z) nt a w0" by (auto simp: server_start_def)
  note inv = server.reachable_inv [OF this assms(2)]
  have w: "sv_finalizer w" "sv_stops w = 0" "sv_native w \<noteq> None"
    using inv assms(3) by (auto simp: server_inv_def box_running_def)
  then show "\<exists>w'. warn_unclosed (box_native Z) None w = (Return (), w') \<and> sv_native w' = None \<and> sv_stops w' = 1"
    and "\<exists>w'. warn_unclosed (box_native Z) (Some e) w = (Raise e, w') \<and> sv_native w' \<noteq> None \<and> sv_stops w' = 0 \<and>
      (\<forall>x. warn_unclosed (box_native Z) x w' = (Return (), w'))"
    by (simp_all add: warn_unclosed_def py_defs server_call_running box_native_def native_outcome_def server_stop_def
        worker_stop_def)
qed

lemma member_ok_pos: "member_ok m \<Longrightarrow> 0 < member_id m"
  by (cases m) auto

lemma parse_open_ids:
  "parse_open oa = Inr ca \<Longrightarrow> uint (ca_node_id ca) = oa_node_id oa mod 2 ^ 32 \<and>
     map (\<lambda>(i, _). uint i) (ca_members ca) = map (\<lambda>(i, _). i mod 2 ^ 32) (oa_members oa) \<and>
     uint (ca_startup_ms ca) = oa_startup_ms oa mod 2 ^ 64"
  by (auto simp: parse_open_def raise_if_Inr_iff uint_word_of_int)

text \<open>
  C39. The member ids the native library receives are those of the registry modulo \<open>2^32\<close>: they are
  the same and distinct when every id fits 32 bits, and two accepted members collide exactly
  when their ids agree modulo \<open>2^32\<close>.
\<close>

theorem native_ids_truncated:
  assumes "start_plan nt a = Inr (own, oa)" and "parse_open oa = Inr ca"
  shows "uint (ca_node_id ca) = sa_node_id a mod 2 ^ 32 \<and>
    map (\<lambda>(i, _). uint i) (ca_members ca) = map (\<lambda>m. member_id m mod 2 ^ 32) (sa_members a) \<and>
    (distinct (map fst (ca_members ca)) \<longleftrightarrow> inj_on (\<lambda>m. member_id m mod 2 ^ 32) (set (sa_members a))) \<and>
    ((\<forall>m \<in> set (sa_members a). member_id m < 2 ^ 32) \<longrightarrow>
       uint (ca_node_id ca) = sa_node_id a \<and> distinct (map fst (ca_members ca)))"
proof -
  from assms(1) obtain t where ok: "registry_ok (sa_members a) (sa_node_id a)"
    and oa: "oa = open_args_of a (sa_members a) t" by (auto simp: start_plan_iff)
  note ids = parse_open_ids [OF assms(2)]
  have mem: "map (\<lambda>(i, _). uint i) (ca_members ca) = map (\<lambda>m. member_id m mod 2 ^ 32) (sa_members a)"
    using ids by (simp add: oa open_args_of_def native_member_def comp_def)
  have "distinct (map fst (ca_members ca)) \<longleftrightarrow> distinct (map uint (map fst (ca_members ca)))"
    by (metis distinct_map inj_on_def word_uint_eqI)
  also have "map uint (map fst (ca_members ca)) = map (\<lambda>m. member_id m mod 2 ^ 32) (sa_members a)"
    using mem by (simp add: comp_def case_prod_beta')
  also have "distinct \<dots> \<longleftrightarrow> inj_on (\<lambda>m. member_id m mod 2 ^ 32) (set (sa_members a))"
    using ok by (auto simp: distinct_map registry_ok_def)
  finally have d: "distinct (map fst (ca_members ca)) \<longleftrightarrow> inj_on (\<lambda>m. member_id m mod 2 ^ 32) (set (sa_members a))" .
  have pos: "0 < member_id m" if "m \<in> set (sa_members a)" for m
    using ok that by (simp add: registry_ok_def member_ok_pos)
  have small: "inj_on (\<lambda>m. member_id m mod 2 ^ 32) (set (sa_members a)) \<and> sa_node_id a mod 2 ^ 32 = sa_node_id a"
    if "\<forall>m \<in> set (sa_members a). member_id m < 2 ^ 32"
  proof -
    have "member_id m mod 2 ^ 32 = member_id m" if "m \<in> set (sa_members a)" for m
      using pos [OF that] that \<open>\<forall>m \<in> _. _\<close> by (simp add: mod_pos_pos_trivial)
    with ok show ?thesis by (auto simp: registry_ok_def inj_on_def distinct_map)
  qed
  from ids oa mem d small show ?thesis by (simp add: open_args_of_def)
qed

text \<open>Two members whose ids agree modulo \<open>2^32\<close> pass the registry check and collide.\<close>

theorem native_ids_truncated_witness:
  "\<exists>own oa ca. start_plan False (demo_server_args\<lparr>sa_node_id := 4294967297,
       sa_members := [Member (PInt 1) (PStr ''db1:9901'') ''data_voter'',
         Member (PInt 4294967297) (PStr ''db2:9901'') ''witness'']\<rparr>) = Inr (own, oa) \<and>
     parse_open oa = Inr ca \<and> uint (ca_node_id ca) = 1 \<and> \<not> distinct (map fst (ca_members ca))"
proof -
  let ?a = "demo_server_args\<lparr>sa_node_id := 4294967297,
       sa_members := [Member (PInt 1) (PStr ''db1:9901'') ''data_voter'',
         Member (PInt 4294967297) (PStr ''db2:9901'') ''witness'']\<rparr>"
  have "case start_plan False ?a of Inr (own, oa) \<Rightarrow> \<not> isl (parse_open oa) | _ \<Rightarrow> False"
    by code_simp
  then obtain own oa where "start_plan False ?a = Inr (own, oa)" "\<not> isl (parse_open oa)"
    by (auto split: sum.splits)
  then obtain ca where p: "start_plan False ?a = Inr (own, oa)" "parse_open oa = Inr ca"
    by (cases "parse_open oa") auto
  from native_ids_truncated [OF p] have "uint (ca_node_id ca) = 1" "\<not> distinct (map fst (ca_members ca))"
    by (simp_all add: inj_on_def)
  with p show ?thesis by blast
qed

end
