(* ===== verification/Zx_Examples.thy ===== *)
theory Zx_Examples
  imports Zx_Sessions Zx_Remote Zx_Server
begin

text \<open>
  The example programs under \<open>examples/\<close>, written over the models of the public interface they call.

  The state of a program is a connection with its cursor and the screen: one list of values for every
  \<open>print\<close>, in order, without the literal text around them. The programs have one thread, so the lane
  admits at once (\<open>alone\<close>). \<open>tempfile.mkdtemp\<close> returns an absolute path, which is the parameter \<open>scratch\<close>
  behind its slash; \<open>connect\<close> then takes its local branch (\<open>absolute_is_local\<close>). Only \<open>basic.py\<close>
  connects to a target of the user's choice, local or remote.
\<close>

section \<open>Programs\<close>

type_synonym screen = "pyobj list list"

definition on_conn :: "('w, 'a) py \<Rightarrow> ('w \<times> screen, 'a) py" where
  "on_conn m s = (case m (fst s) of (r, w) \<Rightarrow> (r, (w, snd s)))"

definition print_values :: "pyobj list \<Rightarrow> ('w \<times> screen, unit) py" where
  "print_values vs s = (Return (), (fst s, snd s @ [vs]))"

definition fetch :: "(conn_view \<Rightarrow> cursor \<Rightarrow> 'a pyres \<times> cursor) \<Rightarrow> nat \<Rightarrow> ('b base_conn_scheme world, 'a) py" where
  "fetch f me w = (case f (view_of me w) (cur w) of (r, c) \<Rightarrow> lift_res r (w\<lparr>cur := c\<rparr>))"

definition alone :: "'w \<Rightarrow> bool \<times> 'w" where
  "alone w = (True, w)"

lemma cursor_next_advances:
  "cursor_next v c = (Inr row, c') \<Longrightarrow> c_rows c' = c_rows c \<and> c_next_row c < length (c_rows c) \<and>
     c_next_row c' = c_next_row c + 1"
  by (auto simp: cursor_next_def fetchone_def Let_def split: prod.splits sum.splits if_splits)

text \<open>\<open>for row in cursor: print(...)\<close>, with the values the loop body shows of a row.\<close>

function print_rows :: "(pyobj \<Rightarrow> pyobj list pyres) \<Rightarrow> nat \<Rightarrow> 'b base_conn_scheme world \<times> screen \<Rightarrow>
    unit outcome \<times> ('b base_conn_scheme world \<times> screen)" where
  "print_rows show_row me (w, out) =
    (case cursor_next (view_of me w) (cur w) of
       (Inl e, c) \<Rightarrow> (if exc_type e \<le> PyStopIteration then Return () else Raise e, (w\<lparr>cur := c\<rparr>, out))
     | (Inr row, c) \<Rightarrow>
         (case show_row row of
            Inl e \<Rightarrow> (Raise e, (w\<lparr>cur := c\<rparr>, out))
          | Inr vs \<Rightarrow> print_rows show_row me (w\<lparr>cur := c\<rparr>, out @ [vs])))"
  by pat_completeness auto

termination print_rows
  by (relation "measure (\<lambda>(f, me, w, out). length (c_rows (cur w)) - c_next_row (cur w))")
    (auto dest!: cursor_next_advances [OF sym])

text \<open>\<open>(x,) = value\<close>\<close>

definition unpack_one :: "pyobj \<Rightarrow> pyobj pyres" where
  "unpack_one v =
    (case (case v of PTuple vs \<Rightarrow> Some vs | PList vs \<Rightarrow> Some vs | PRow _ vs \<Rightarrow> Some vs | _ \<Rightarrow> None) of
       None \<Rightarrow> Inl (exc PyTypeError ''cannot unpack non-iterable '')
     | Some [x] \<Rightarrow> Inr x
     | Some _ \<Rightarrow> Inl (exc PyValueError ''values to unpack (expected 1)''))"

definition opt_int :: "int option \<Rightarrow> pyobj" where
  "opt_int i = (case i of None \<Rightarrow> PNone | Some n \<Rightarrow> PInt n)"

text \<open>\<open>connection = connect(...); try: body finally: connection.close()\<close>\<close>

definition with_local ::
  "'n native \<Rightarrow> nat \<Rightarrow> local_plan \<Rightarrow> 'n \<Rightarrow> ('n lworld \<times> screen, unit) py \<Rightarrow> screen \<Rightarrow> unit outcome \<times> ('n lworld \<times> screen)" where
  "with_local N me plan n body out =
    (case conn_open N plan me n of
       (Return _, w) \<Rightarrow> finally_do body (on_conn (conn_close N me alone)) (w, out)
     | (Raise e, w) \<Rightarrow> (Raise e, (w, out))
     | (Blocked, w) \<Rightarrow> (Blocked, (w, out)))"

definition with_remote ::
  "'p remote_native \<Rightarrow> nat \<Rightarrow> remote_plan \<Rightarrow> 'p \<Rightarrow> ('p rworld \<times> screen, unit) py \<Rightarrow> screen \<Rightarrow>
     unit outcome \<times> 'p rworld option \<times> screen" where
  "with_remote R me plan p body out =
    (case remote_open R plan me p of
       Inl e \<Rightarrow> (Raise e, None, out)
     | Inr w \<Rightarrow> (case finally_do body (on_conn (remote_close R me)) (w, out) of
         (r, w', out') \<Rightarrow> (r, Some w', out')))"

section \<open>basic.py\<close>

definition nl :: string where
  "nl = [CHR 0x0A]"

definition basic_script :: string where
  "basic_script = nl @ ''            create table if not exists notes('' @ nl
     @ ''                id integer primary key,'' @ nl @ ''                body text not null'' @ nl
     @ ''            );'' @ nl @ ''            ''"

definition note_fields :: "pyobj \<Rightarrow> pyobj list pyres" where
  "note_fields row =
    (case row of
       PRow names vs \<Rightarrow>
         (let r = \<lparr>row_columns = names, row_values = vs\<rparr> in
          rbind (row_getitem r (KeyStr ''id'')) (\<lambda>i.
          rbind (row_getitem r (KeyStr ''body'')) (\<lambda>b. Inr [i, b])))
     | _ \<Rightarrow> Inl (exc PyTypeError ''indices must be integers or slices, not str''))"

definition basic_local :: "'n native \<Rightarrow> nat \<Rightarrow> ('n lworld \<times> screen, unit) py" where
  "basic_local N me =
    pbind (on_conn (base_executescript (local_executescript N alone) me (PStr basic_script))) (\<lambda>_.
    pbind (on_conn (base_execute (local_execute N alone) me
      (PStr ''insert into notes(body) values (?) returning id'') (PTuple [PStr ''written by examples/basic.py'']))) (\<lambda>_.
    pbind (on_conn (fetch fetchone me)) (\<lambda>row.
    pbind (lift_res (unpack_one row)) (\<lambda>note_id.
    pbind (on_conn (gets (\<lambda>w. opt_int (c_lastrowid (cur w))))) (\<lambda>lastrowid.
    pbind (print_values [note_id, lastrowid]) (\<lambda>_.
    pbind (on_conn (set_conn (\<lambda>c. c\<lparr>k_row_factory := Some Row_factory\<rparr>))) (\<lambda>_.
    pbind (on_conn (base_execute (local_execute N alone) me
      (PStr ''select id, body from notes order by id'') (PTuple []))) (\<lambda>_.
    pbind (print_rows note_fields me) (\<lambda>_.
    pbind (on_conn (gets total_changes)) (\<lambda>total. print_values [PInt total]))))))))))"

text \<open>On a remote target the first statement already raises.\<close>

definition basic_remote :: "nat \<Rightarrow> ('p rworld \<times> screen, unit) py" where
  "basic_remote me = on_conn (base_executescript remote_executescript me (PStr basic_script))"

datatype ('n, 'p) ending = NotConnected screen | LocalEnd "'n lworld" screen | RemoteEnd "'p rworld option" screen

definition basic_main ::
  "'n native \<Rightarrow> 'p remote_native \<Rightarrow> bool \<Rightarrow> nat \<Rightarrow> string list \<Rightarrow> string \<Rightarrow> 'n \<Rightarrow> 'p \<Rightarrow> unit outcome \<times> ('n, 'p) ending" where
  "basic_main N R nt me argv scratch n p =
    (let given = 1 < length argv;
         target = (if given then argv ! 1 else ''/'' @ scratch @ ''/node'');
         out = (if given then [] else [[PStr target]])
     in case connect nt (TStr target) connect_defaults of
          Inl e \<Rightarrow> (Raise e, NotConnected out)
        | Inr (PlanLocal plan) \<Rightarrow>
            (case with_local N me plan n (basic_local N me) out of (r, w, out') \<Rightarrow> (r, LocalEnd w out'))
        | Inr (PlanRemote plan) \<Rightarrow>
            (case with_remote R me plan p (basic_remote me) out of (r, w, out') \<Rightarrow> (r, RemoteEnd w out')))"

section \<open>idempotent.py and search.py\<close>

text \<open>A scratch directory is never a remote target (\<open>absolute_is_local\<close>).\<close>

definition run_scratch ::
  "'n native \<Rightarrow> bool \<Rightarrow> nat \<Rightarrow> string \<Rightarrow> 'n \<Rightarrow> ('n lworld \<times> screen, unit) py \<Rightarrow> unit outcome \<times> ('n lworld \<times> screen) option" where
  "run_scratch N nt me scratch n body =
    (case connect nt (TStr (''/'' @ scratch @ ''/node'')) connect_defaults of
       Inl e \<Rightarrow> (Raise e, None)
     | Inr (PlanLocal plan) \<Rightarrow> (case with_local N me plan n body [] of (r, s) \<Rightarrow> (r, Some s))
     | Inr (PlanRemote _) \<Rightarrow> (Raise (exc ExceptionC []), None))"

definition first_value :: "pyobj \<Rightarrow> pyobj pyres" where
  "first_value row =
    (case row of
       PTuple vs \<Rightarrow> py_index vs 0 | PList vs \<Rightarrow> py_index vs 0 | PRow _ vs \<Rightarrow> py_index vs 0
     | _ \<Rightarrow> Inl (exc PyTypeError ''object is not subscriptable''))"

definition print_attempt :: "int \<times> bool \<Rightarrow> ('w \<times> screen, unit) py" where
  "print_attempt v = print_values [PInt (fst v), PBool (snd v)]"

definition payment :: string where
  "payment = ''insert into payments values (100)''"

definition idempotent_body :: "'n native \<Rightarrow> nat \<Rightarrow> ('n lworld \<times> screen, unit) py" where
  "idempotent_body N me =
    pbind (on_conn (base_execute (local_execute N alone) me (PStr ''create table payments(amount integer)'') (PTuple []))) (\<lambda>_.
    pbind (on_conn (open_session N me alone)) (\<lambda>session.
    pbind (on_conn (execute_idempotent N me alone session 1 payment)) (\<lambda>first.
    pbind (print_attempt first) (\<lambda>_.
    pbind (on_conn (execute_idempotent N me alone session 1 payment)) (\<lambda>retry.
    pbind (print_attempt retry) (\<lambda>_.
    pbind (on_conn (base_execute (local_execute N alone) me (PStr ''select count(*) from payments'') (PTuple []))) (\<lambda>_.
    pbind (on_conn (fetch fetchone me)) (\<lambda>row.
    pbind (lift_res (first_value row)) (\<lambda>count. print_values [count])))))))))"

definition idempotent_main :: "'n native \<Rightarrow> bool \<Rightarrow> nat \<Rightarrow> string \<Rightarrow> 'n \<Rightarrow> unit outcome \<times> ('n lworld \<times> screen) option" where
  "idempotent_main N nt me scratch n = run_scratch N nt me scratch n (idempotent_body N me)"

definition search_script :: string where
  "search_script = nl @ ''            create virtual table docs using fts5(body);'' @ nl
     @ ''            insert into docs(body) values ('paxos replicates sqlite');'' @ nl
     @ ''            insert into docs(body) values ('sqlite is an embedded database');'' @ nl
     @ ''            insert into docs(body) values ('unrelated text entirely');'' @ nl @ ''            ''"

definition docs_request :: search_request where
  "docs_request = \<lparr>s_fts_table = PStr ''docs'', s_vec_table = PNone, s_text = PStr ''sqlite'', s_embedding = PNone,
     s_k = PInt 5, s_candidate_count = PNone, s_fusion = ''rrf'', s_text_weight = PFloat 1, s_vector_weight = PFloat 1,
     s_metadata_table = PNone, s_metadata_id_column = PNone, s_metadata_columns = []\<rparr>"

definition column_names :: "cursor \<Rightarrow> pyobj list pyres" where
  "column_names c = (case c_description c of
     None \<Rightarrow> Inl (exc PyTypeError ''NoneType object is not iterable'') | Some names \<Rightarrow> Inr (map PStr names))"

definition search_body :: "'n native \<Rightarrow> nat \<Rightarrow> (pyobj \<Rightarrow> rat pyres) \<Rightarrow> ('n lworld \<times> screen, unit) py" where
  "search_body N me py_float =
    pbind (on_conn (base_executescript (local_executescript N alone) me (PStr search_script))) (\<lambda>_.
    pbind (on_conn (local_search N me alone py_float docs_request None None)) (\<lambda>_.
    pbind (on_conn (\<lambda>w. lift_res (column_names (cur w)) w)) (\<lambda>names.
    pbind (print_values [PList names]) (\<lambda>_.
    print_rows (\<lambda>row. Inr [row]) me))))"

definition search_main ::
  "'n native \<Rightarrow> bool \<Rightarrow> nat \<Rightarrow> (pyobj \<Rightarrow> rat pyres) \<Rightarrow> string \<Rightarrow> 'n \<Rightarrow> unit outcome \<times> ('n lworld \<times> screen) option" where
  "search_main N nt me py_float scratch n = run_scratch N nt me scratch n (search_body N me py_float)"

section \<open>server.py\<close>

definition example_server_args :: "string \<Rightarrow> server_args" where
  "example_server_args scratch =
    \<lparr>sa_directory = ''/'' @ scratch @ ''/node'', sa_node_id = 1,
     sa_members = [Member (PInt 1) (PStr (''unix:/'' @ scratch @ ''/example.sock'')) ''data_voter''],
     sa_cluster_id = None, sa_auth_file = None, sa_tls_ca = None, sa_tls_cert = None, sa_tls_key = None,
     sa_startup_timeout = PFloat 10, sa_allow_psk = False\<rparr>"

definition client_body :: "'p remote_native \<Rightarrow> nat \<Rightarrow> ('p rworld \<times> screen, unit) py" where
  "client_body R me =
    pbind (on_conn (base_execute (remote_execute R) me
      (PStr ''create table item(id integer primary key, value text)'') (PTuple []))) (\<lambda>_.
    pbind (on_conn (base_execute (remote_execute R) me
      (PStr ''insert into item(value) values (?)'') (PTuple [PStr ''served'']))) (\<lambda>_.
    pbind (on_conn (remote_query R me ''select id, value from item'' (PTuple []) (Some ''linearizable'') None)) (\<lambda>_.
    pbind (on_conn (fetch fetchall me)) (\<lambda>rows. print_values [PList rows]))))"

text \<open>
  The program with its server, its client connection once there is one, and the screen. A server
  endpoint that is not remote cannot occur here (\<open>served_unix_connects\<close>).
\<close>

type_synonym ('n, 'p) serving = "'n server \<times> 'p rworld option \<times> screen"

definition on_server :: "('n server, 'a) py \<Rightarrow> (('n, 'p) serving, 'a) py" where
  "on_server m s = (case m (fst s) of (r, sv) \<Rightarrow> (r, (sv, snd s)))"

definition print_serving :: "pyobj list \<Rightarrow> (('n, 'p) serving, unit) py" where
  "print_serving vs s = (Return (), (fst s, fst (snd s), snd (snd s) @ [vs]))"

definition run_client :: "'p remote_native \<Rightarrow> bool \<Rightarrow> nat \<Rightarrow> 'p \<Rightarrow> string \<Rightarrow> (('n, 'p) serving, unit) py" where
  "run_client R nt me p endpoint s =
    (case connect nt (TStr endpoint) connect_defaults of
       Inl e \<Rightarrow> (Raise e, s)
     | Inr (PlanLocal _) \<Rightarrow> (Raise (exc ExceptionC []), s)
     | Inr (PlanRemote plan) \<Rightarrow>
         (case with_remote R me plan p (client_body R me) (snd (snd s)) of (r, w, out) \<Rightarrow> (r, (fst s, w, out))))"

definition serve_body :: "'n cluster_native \<Rightarrow> 'p remote_native \<Rightarrow> bool \<Rightarrow> nat \<Rightarrow> 'p \<Rightarrow> (('n, 'p) serving, unit) py" where
  "serve_body S R nt me p =
    pbind (on_server (endpoint_property S)) (\<lambda>endpoint.
    pbind (print_serving [PStr endpoint]) (\<lambda>_.
    pbind (on_server (endpoint_property S)) (\<lambda>endpoint.
    run_client R nt me p endpoint)))"

definition server_main ::
  "'n cluster_native \<Rightarrow> 'p remote_native \<Rightarrow> bool \<Rightarrow> nat \<Rightarrow> string \<Rightarrow> 'n \<Rightarrow> 'p \<Rightarrow> unit outcome \<times> ('n, 'p) serving option" where
  "server_main S R nt me scratch sn p =
    (case start_server S nt (example_server_args scratch) sn of
       (Return _, Some sv) \<Rightarrow>
         (case pbind (finally_do (serve_body S R nt me p) (on_server (pbind (server_exit S) (\<lambda>_. ret ()))))
                 (\<lambda>_. print_serving []) (sv, None, []) of (r, s) \<Rightarrow> (r, Some s))
     | (r, sv) \<Rightarrow> (r, map_option (\<lambda>sv. (sv, None, [])) sv))"

section \<open>Programs that come back with the connection open\<close>

lemma calm_lane [calm_intros]: "calm P m \<Longrightarrow> calm P (with_lane alone write m)"
  by (simp add: calm_def with_lane_def alone_def)

lemma calm_on_conn [calm_intros]: "calm P m \<Longrightarrow> calm (\<lambda>s. P (fst s)) (on_conn m)"
  by (auto simp: calm_def on_conn_def split: prod.splits)

lemma calm_print [calm_intros]: "calm (\<lambda>s. P (fst s)) (print_values vs)"
  by (simp add: calm_def print_values_def)

text \<open>An open autocommit connection of the calling thread, with a running worker.\<close>

definition gate_a :: "nat \<Rightarrow> 'n lworld \<Rightarrow> bool" where
  "gate_a me w \<longleftrightarrow> running w \<and> base_check me (conn w) = Inr () \<and> \<not> k_transactional (conn w)"

lemma base_check_fields [simp]:
  "base_check me (c\<lparr>k_in_tx := b\<rparr>) = base_check me c" "base_check me (c\<lparr>k_row_factory := f\<rparr>) = base_check me c"
  by (simp_all add: base_check_def)

interpretation gate: open_states "gate_a me" for me
  by unfold_locales (simp_all add: gate_a_def running_def)

lemma calm_factory [calm_intros]: "calm (gate_a me) (set_conn (\<lambda>c. c\<lparr>k_row_factory := f\<rparr>))"
  by (simp add: calm_def gate_a_def running_def set_conn_def modify_s_def)

lemma calm_check [calm_intros]: "calm P (conn_check me')"
  by (simp add: calm_def conn_check_def lift_res_def split: sum.splits)

lemma calm_prologue [calm_intros]: "calm (gate_a me) (cursor_prologue me' sql name)"
  unfolding cursor_prologue_def by (cases sql) (simp, intro calm_intros)+

lemma calm_methods [calm_intros]:
  "calm (gate_a me) (base_execute (local_execute N alone) me' sql ps)"
  "calm (gate_a me) (base_executescript (local_executescript N alone) me' sql)"
  "calm (gate_a me) (open_session N me' alone)"
  "calm (gate_a me) (execute_idempotent N me' alone s q sql2)"
  "calm (gate_a me) (local_search N me' alone py_float req rl fr)"
  unfolding base_execute_def base_executescript_def base_cursor_def cursor_execute_def cursor_executescript_def
    local_execute_def local_executescript_def open_session_def lane_call_def execute_idempotent_def local_search_def
  by (intro calm_intros)+

lemma calm_fetch [calm_intros]: "calm (gate_a me) (fetch f me')"
  by (auto simp: calm_def fetch_def lift_res_def gate_a_def running_def split: prod.splits sum.splits)

lemma calm_print_rows [calm_intros]: "calm (\<lambda>s. gate_a me (fst s)) (print_rows show_row me')"
proof -
  have "gate_a me w \<Longrightarrow> fst (print_rows show_row me' (w, out)) \<noteq> Blocked \<and>
      gate_a me (fst (snd (print_rows show_row me' (w, out))))" for w :: "'a lworld" and out
  proof (induction show_row me' "(w, out)" arbitrary: w out rule: print_rows.induct)
    case (1 show_row me' w out)
    have g: "gate_a me (w\<lparr>cur := c\<rparr>)" for c using 1(2) by (simp add: gate_a_def running_def)
    show ?case
      using 1(1) [OF _ _ _ g] g by (subst (1 2) print_rows.simps) (auto split: prod.splits sum.splits simp del: print_rows.simps)
  qed
  then show ?thesis by (auto simp: calm_def)
qed

lemma calm_bodies:
  "calm (\<lambda>s. gate_a me (fst s)) (basic_local N me)" "calm (\<lambda>s. gate_a me (fst s)) (idempotent_body N me)"
  "calm (\<lambda>s. gate_a me (fst s)) (search_body N me py_float)"
  unfolding basic_local_def idempotent_body_def search_body_def print_attempt_def
  by (intro calm_intros)+

section \<open>Every example releases what it opened\<close>

lemma absolute_is_local: "connect nt (TStr (CHR ''/'' # path)) a = connect_local (CHR ''/'' # path) a"
  by (simp add: connect_def)

lemma default_plan:
  "connect_local path connect_defaults = Inr (PlanLocal \<lparr>l_path = path, l_timeout = 5, l_check_same_thread = True,
     l_transactional = False\<rparr>)"
  by (simp add: connect_local_def reject_remote_only_def connect_defaults_def raise_if_def)

text \<open>
  The worker has been told to stop once; if the directory could be opened, the connection is closed
  and the last native call was \<open>close\<close>.
\<close>

definition released :: "'n native \<Rightarrow> string \<Rightarrow> 'n \<Rightarrow> 'n lworld \<Rightarrow> bool" where
  "released N path n w \<longleftrightarrow> k_stops (conn w) = 1 \<and>
     (fst (nv_open N path n) = Inr () \<longrightarrow> k_closed (conn w) \<and> (\<exists>n'. k_native (conn w) = snd (nv_close N n')))"

lemma close_gate_a:
  assumes "gate_a me w"
  shows "\<exists>r. r \<noteq> Blocked \<and> conn_close N me alone w = (r, w\<lparr>conn := (conn w)\<lparr>k_closed := True, k_stops := 1,
     k_native := snd (nv_close N (k_native (conn w)))\<rparr>\<rparr>)"
  using assms open_check [of me w] open_not_closed [of me "conn w"]
  by (simp add: gate_a_def conn_close_def pbind_def with_lane_def alone_def close_section_running Let_def)

lemma with_local_releases:
  assumes "calm (\<lambda>s. gate_a me (fst s)) body" and "\<not> l_transactional plan"
    and "with_local N me plan n body out = (r, w, out')"
  shows "r \<noteq> Blocked \<and> released N (l_path plan) n w"
proof (cases "fst (nv_open N (l_path plan) n)")
  case (Inl e)
  then obtain e' w0 where "conn_open N plan me n = (Raise e', w0)" "k_stops (conn w0) = 1"
    by (cases e) (auto simp: conn_open_def Let_def catch_def call_native_def native_outcome_def pbind_def
        set_conn_def modify_s_def throw_def worker_stop_def)
  with assms(3) Inl show ?thesis by (auto simp: with_local_def released_def)
next
  case (Inr u)
  then obtain w0 where w0: "conn_open N plan me n = (Return (), w0)"
    by (auto simp: conn_open_def Let_def catch_def call_native_def native_outcome_def)
  have g: "gate_a me w0"
    using conn_open_Return [OF w0] assms(2) by (simp add: gate_a_def running_def base_check_def raise_if_def)
  obtain r1 w1 out1 where b: "body (w0, out) = (r1, w1, out1)" by (metis surj_pair)
  from calmD [OF assms(1) _ b] g have b1: "r1 \<noteq> Blocked" "gate_a me w1" by simp_all
  from close_gate_a [OF b1(2), of N] assms(3) w0 b b1(1) show ?thesis
    by (auto simp: with_local_def finally_do_def on_conn_def released_def split: outcome.splits)
qed

lemma run_scratch_releases:
  assumes "calm (\<lambda>s. gate_a me (fst s)) body"
  shows "\<exists>r w out. run_scratch N nt me scratch n body = (r, Some (w, out)) \<and> r \<noteq> Blocked \<and>
    released N (''/'' @ scratch @ ''/node'') n w"
proof -
  let ?plan = "\<lparr>l_path = ''/'' @ scratch @ ''/node'', l_timeout = 5, l_check_same_thread = True, l_transactional = False\<rparr>"
  obtain r w out where r: "with_local N me ?plan n body [] = (r, w, out)" by (metis surj_pair)
  from with_local_releases [OF assms _ r] r show ?thesis
    by (simp add: run_scratch_def absolute_is_local default_plan)
qed

lemma remote_opened:
  assumes "remote_open R plan me p = Inr w"
  shows "base_check me (conn w) = Inr () \<and> \<not> k_closed (conn w)"
proof -
  from assms have "\<not> k_closed (conn w) \<and> k_owner_thread (conn w) = me"
    by (auto simp: remote_open_def remote_call_def Let_def native_outcome_def
        split: option.splits prod.splits sum.splits native_exc.splits)
  then show ?thesis by (simp add: base_check_def raise_if_def)
qed

lemma remote_close_open:
  assumes "base_check me (conn w) = Inr ()"
  shows "\<exists>r p. r \<noteq> Blocked \<and> remote_close R me w = (r, w\<lparr>conn := (conn w)\<lparr>k_closed := True, k_pool := p\<rparr>\<rparr>)"
  using assms open_check [of me w] open_not_closed [of me "conn w"]
  by (cases "rn_close R (k_pool (conn w))")
    (auto simp: remote_close_def pbind_def set_conn_def modify_s_def remote_call_def)

lemma basic_remote_raises:
  assumes "base_check me (conn w) = Inr ()"
  shows "\<exists>e c. basic_remote me (w, out) = (Raise e, w\<lparr>cur := c\<rparr>, out)"
  using assms
  by (auto simp: basic_remote_def on_conn_def base_executescript_def base_cursor_def open_check pbind_def set_cur_def
      modify_s_def cursor_executescript_def cursor_prologue_def view_of_def cursor_check_def cursor_init_def raise_if_def
      lift_res_def ret_def remote_executescript_def throw_def)

lemma with_remote_closes:
  assumes "with_remote R me plan p (basic_remote me) out = (r, w, out')"
  shows "(\<exists>e. r = Raise e) \<and> (\<forall>w1. w = Some w1 \<longrightarrow> k_closed (conn w1))"
proof (cases "remote_open R plan me p")
  case (Inr w0)
  note ok = remote_opened [OF Inr, THEN conjunct1]
  from basic_remote_raises [OF ok, of out] obtain e c where b: "basic_remote me (w0, out) = (Raise e, w0\<lparr>cur := c\<rparr>, out)"
    by blast
  have "base_check me (conn (w0\<lparr>cur := c\<rparr>)) = Inr ()" using ok by simp
  from remote_close_open [OF this, of R] assms Inr b show ?thesis
    by (auto simp: with_remote_def finally_do_def on_conn_def split: outcome.splits)
qed (use assms in \<open>auto simp: with_remote_def\<close>)

lemma basic_releases:
  "case basic_main N R nt me argv scratch n p of
      (r, NotConnected out) \<Rightarrow> \<exists>e. r = Raise e
    | (r, LocalEnd w out) \<Rightarrow> r \<noteq> Blocked \<and> released N (if 1 < length argv then argv ! 1 else ''/'' @ scratch @ ''/node'') n w
    | (r, RemoteEnd w out) \<Rightarrow> (\<exists>e. r = Raise e) \<and> (case w of None \<Rightarrow> True | Some w \<Rightarrow> k_closed (conn w))"
  (is "?ends (basic_main N R nt me argv scratch n p)")
proof -
  let ?target = "if 1 < length argv then argv ! 1 else ''/'' @ scratch @ ''/node''"
  let ?out = "if 1 < length argv then [] else [[PStr ?target]]"
  show ?thesis
  proof (cases "connect nt (TStr ?target) connect_defaults")
    case (Inl e)
    then show ?thesis by (simp add: basic_main_def Let_def)
  next
    case (Inr pl)
    show ?thesis
    proof (cases pl)
      case (PlanLocal plan)
      then have "l_path plan = ?target \<and> \<not> l_transactional plan"
        using Inr by (auto simp: connect_def default_plan connect_remote_def rbind_Inr_iff raise_if_def Let_def split: if_splits)
      moreover obtain r w out where run: "with_local N me plan n (basic_local N me) ?out = (r, w, out)"
        by (metis surj_pair)
      moreover have "basic_main N R nt me argv scratch n p = (r, LocalEnd w out)"
        unfolding basic_main_def Let_def Inr PlanLocal using run by simp
      ultimately show ?thesis using with_local_releases [OF calm_bodies(1) _ run] by simp
    next
      case (PlanRemote plan)
      obtain r w out where run: "with_remote R me plan p (basic_remote me) ?out = (r, w, out)" by (metis surj_pair)
      moreover have "basic_main N R nt me argv scratch n p = (r, RemoteEnd w out)"
        unfolding basic_main_def Let_def Inr PlanRemote using run by simp
      ultimately show ?thesis using with_remote_closes [OF run] by (simp split: option.splits)
    qed
  qed
qed

text \<open>
  The local examples leave nothing behind: whatever the native functions answer, at every point where
  they may fail, \<open>idempotent.py\<close>, \<open>search.py\<close> and \<open>basic.py\<close> come to an end with the worker of their
  connection stopped and, if the directory could be opened, the connection closed and the native handle
  released as the last native call. On a remote target \<open>basic.py\<close> always ends with an exception, its
  connection closed.
\<close>

lemma examples_release_connections:
  "(\<exists>r w out. idempotent_main N nt me scratch n = (r, Some (w, out)) \<and> r \<noteq> Blocked \<and>
      released N (''/'' @ scratch @ ''/node'') n w) \<and>
   (\<exists>r w out. search_main N nt me py_float scratch n = (r, Some (w, out)) \<and> r \<noteq> Blocked \<and>
      released N (''/'' @ scratch @ ''/node'') n w) \<and>
   (case basic_main N R nt me argv scratch n p of
      (r, NotConnected out) \<Rightarrow> \<exists>e. r = Raise e
    | (r, LocalEnd w out) \<Rightarrow> r \<noteq> Blocked \<and> released N (if 1 < length argv then argv ! 1 else ''/'' @ scratch @ ''/node'') n w
    | (r, RemoteEnd w out) \<Rightarrow> (\<exists>e. r = Raise e) \<and> (case w of None \<Rightarrow> True | Some w \<Rightarrow> k_closed (conn w)))"
  unfolding idempotent_main_def search_main_def
  by (intro conjI run_scratch_releases calm_bodies basic_releases)

section \<open>The server example\<close>

lemma calm_case_remote [calm_intros]: "calm P (f x) \<Longrightarrow> calm P (let y = x in f y)"
  by simp

text \<open>An open client connection of the calling thread.\<close>

definition gate_r :: "nat \<Rightarrow> 'p rworld \<Rightarrow> bool" where
  "gate_r me w \<longleftrightarrow> base_check me (conn w) = Inr ()"

lemma calm_remote [calm_intros]:
  "calm (gate_r me) (remote_call f)" "calm (gate_r me) (set_cur g)" "calm (gate_r me) (add_changes n)"
  by (auto simp: calm_def gate_r_def remote_call_def set_cur_def add_changes_def set_conn_def modify_s_def base_check_def
      split: prod.splits)

lemma calm_read_options [calm_intros]: "calm P (read_options l f)"
  by (simp add: calm_def read_options_def throw_def ret_def Let_def split: option.splits)

lemma calm_default_query [calm_intros]: "calm (gate_r me) (remote_default_query R sql ps)"
  using calm_remote(1) by (auto simp: calm_def remote_default_query_def)

lemma calm_remote_methods [calm_intros]:
  "calm (gate_r me) (base_execute (remote_execute R) me' sql ps)"
  "calm (gate_r me) (remote_query R me' sql2 ps l f)"
proof -
  have ex: "calm (gate_r me) (remote_execute R s ps)" for s ps
    unfolding remote_execute_def remote_try_read_def execute_write_def reject_write_hazards_def Let_def
    by (intro calm_intros)
  have pro: "calm (gate_r me) (cursor_prologue me' sql name)" for name
    unfolding cursor_prologue_def by (cases sql) (simp, intro calm_intros)+
  show "calm (gate_r me) (base_execute (remote_execute R) me' sql ps)"
    unfolding base_execute_def base_cursor_def cursor_execute_def by (intro calm_intros ex pro)
  show "calm (gate_r me) (remote_query R me' sql2 ps l f)"
    unfolding remote_query_def base_cursor_def by (intro calm_intros)
qed

lemma calm_client: "calm (\<lambda>s. gate_r me (fst s)) (client_body R me)"
proof -
  have f: "calm (gate_r me) (fetch fetchall me)"
    by (auto simp: calm_def fetch_def lift_res_def gate_r_def split: prod.splits sum.splits)
  show ?thesis unfolding client_body_def by (intro calm_intros f)
qed

lemma with_remote_client:
  assumes "with_remote R me plan p (client_body R me) out = (r, w, out')"
  shows "r \<noteq> Blocked \<and> (\<forall>w1. w = Some w1 \<longrightarrow> k_closed (conn w1))"
proof (cases "remote_open R plan me p")
  case (Inr w0)
  obtain r1 w1 out1 where b: "client_body R me (w0, out) = (r1, w1, out1)" by (metis surj_pair)
  from calmD [OF calm_client _ b] remote_opened [OF Inr] have ok: "r1 \<noteq> Blocked" "base_check me (conn w1) = Inr ()"
    by (simp_all add: gate_r_def)
  from remote_close_open [OF ok(2), of R] assms Inr b ok(1) show ?thesis
    by (auto simp: with_remote_def finally_do_def on_conn_def split: outcome.splits)
qed (use assms in \<open>auto simp: with_remote_def\<close>)

text \<open>A started server that nobody has closed, and a client that is closed if it exists.\<close>

definition serving_ok :: "server_args \<Rightarrow> ('z option, 'p) serving \<Rightarrow> bool" where
  "serving_ok a s \<longleftrightarrow> server_inv box_running a (fst s) \<and> \<not> sv_closed (fst s) \<and>
     (\<forall>w. fst (snd s) = Some w \<longrightarrow> k_closed (conn w))"

lemma calm_endpoint: "calm (serving_ok a) (on_server (endpoint_property (box_native Z)))"
  unfolding calm_def
proof (intro allI impI)
  fix s :: "('a option, 'b) serving"
  assume ok: "serving_ok a s"
  then have "sv_stops (fst s) = 0" by (simp add: serving_ok_def server_inv_def)
  with ok show "fst (on_server (endpoint_property (box_native Z)) s) \<noteq> Blocked \<and>
      serving_ok a (snd (on_server (endpoint_property (box_native Z)) s))"
    by (auto simp: serving_ok_def on_server_def endpoint_property_def raise_if_failed_def native_state_def native_state_call_def
        pbind_def server_call_running native_outcome_def box_native_def ret_def throw_def gets_def server_inv_def
        box_running_def split: option.splits prod.splits)
qed

lemma calm_serve: "calm (serving_ok a) (serve_body (box_native Z) R nt me p)"
proof -
  have pr: "calm (serving_ok a) (print_serving vs)" for vs by (simp add: calm_def print_serving_def serving_ok_def)
  have cl: "calm (serving_ok a) (run_client R nt me p endpoint)" for endpoint
    by (auto simp: calm_def run_client_def serving_ok_def dest: with_remote_client
        split: sum.splits plan.splits prod.splits)
  show ?thesis unfolding serve_body_def by (intro calm_bind calm_endpoint pr cl)
qed

lemma server_exit_closes:
  assumes "serving_ok a s"
  shows "\<exists>r sv. r \<noteq> Blocked \<and> on_server (pbind (server_exit (box_native Z)) (\<lambda>_. ret ())) s = (r, sv, snd s) \<and>
    sv_native sv = None \<and> sv_stops sv = 1"
proof -
  have inv: "server_inv box_running a (fst s)" "\<not> sv_closed (fst s)" using assms by (simp_all add: serving_ok_def)
  obtain c f n sv where c: "server_close (box_native Z) (fst s) = (close_outcome (close_failure (c, f)), sv)"
    "stopped sv" "server_inv box_running a sv"
    by (rule box.close_open_server [OF inv])
  then have "sv_native sv = None \<and> sv_stops sv = 1" by (auto simp: server_inv_def stopped_def box_running_def)
  with c(1) show ?thesis
    by (auto simp: on_server_def server_exit_def pbind_def ret_def close_outcome_def split: option.splits)
qed

text \<open>
  The server example stops what it started: whatever the cluster member and the client's pool answer,
  the program comes to an end; if a server object came into being its native handle is released and its
  worker stopped exactly once, and the client connection, if it was opened, is closed before.
\<close>

lemma server_example_closes:
  "case server_main (box_native Z) R nt me scratch sn p of
     (r, None) \<Rightarrow> \<exists>e. r = Raise e
   | (r, Some (sv, client, out)) \<Rightarrow> r \<noteq> Blocked \<and> sv_native sv = None \<and> sv_stops sv = 1 \<and>
       (case client of None \<Rightarrow> True | Some w \<Rightarrow> k_closed (conn w))"
proof -
  let ?a = "example_server_args scratch"
  obtain r0 sv0 where st: "start_server (box_native Z) nt ?a sn = (r0, sv0)" by fastforce
  note ends = start_server_ends [where Z = Z and nt = nt and a = ?a and n = sn, unfolded st]
  show ?thesis
  proof (cases "\<exists>sv. sv0 = Some sv \<and> r0 = Return ()")
    case False
    with st ends show ?thesis by (cases r0; cases sv0) (auto simp: server_main_def)
  next
    case True
    then obtain sv where sv: "sv0 = Some sv" "r0 = Return ()" by blast
    have inv: "server_inv box_running ?a sv"
      by (rule server.inv_start [where Z = Z and nt = nt]) (use st sv in \<open>auto simp: server_start_def\<close>)
    have "\<not> sv_closed sv"
      using st sv by (auto elim!: start_server_opened simp: server_init_def)
    with inv have ok: "serving_ok ?a (sv, None, [])" by (simp add: serving_ok_def)
    obtain r1 s1 where b: "serve_body (box_native Z) R nt me p (sv, None, []) = (r1, s1)" by (metis surj_pair)
    from calmD [OF calm_serve ok b] have s1: "r1 \<noteq> Blocked" "serving_ok ?a s1" by simp_all
    obtain r2 sv2 where e: "r2 \<noteq> Blocked" "sv_native sv2 = None" "sv_stops sv2 = 1"
      "on_server (pbind (server_exit (box_native Z)) (\<lambda>_. ret ())) s1 = (r2, sv2, snd s1)"
      using server_exit_closes [OF s1(2), of Z] by blast
    obtain sv1 client out where s1': "s1 = (sv1, client, out)" by (metis surj_pair)
    from s1(2) have "\<forall>w. client = Some w \<longrightarrow> k_closed (conn w)" by (simp add: serving_ok_def s1')
    with st sv b s1(1) e show ?thesis
      by (auto simp: server_main_def pbind_def finally_do_def print_serving_def s1' split: outcome.splits option.splits)
  qed
qed

section \<open>A served endpoint can be connected to\<close>

lemma served_unix_connects:
  assumes "start_server (box_native Z) nt a n = (Return (), Some sv)" and "startswith (sv_endpoint sv) ''unix:''"
  shows "\<exists>plan. connect nt (TStr (sv_endpoint sv)) connect_defaults = Inr (PlanRemote plan) \<and>
    r_seeds plan = [sv_endpoint sv] \<and> r_read_level plan = ''linearizable'' \<and>
    r_tls_ca plan = None \<and> r_auth_file plan = None \<and> \<not> r_allow_psk plan"
proof -
  obtain own oa n' where p: "start_plan nt a = Inr (own, oa)" "cl_open (box_native Z) oa n = (Inr (), n')"
    "sv = server_init own a 0 n'"
    by (rule start_server_opened [OF assms(1)])
  from p(1) obtain m t where m: "m \<in> set (sa_members a)" "member_endpoint m = own"
    "oa = open_args_of a (sa_members a) t" "unix_ok nt a"
    by (auto simp: start_plan_iff)
  have unix: "startswith own ''unix:''" using assms(2) p(3) by (simp add: server_init_def)
  with m have ok: "\<not> nt" "startswith own ''unix:/''" by (auto simp: unix_ok_def unix_member_def)
  have "nul_free own"
  proof -
    from p(2) have "\<exists>ca. parse_open oa = Inr ca" by (auto simp: box_native_def split: sum.splits)
    with m show ?thesis
      by (fastforce simp: parse_open_def raise_if_Inr_iff open_args_of_def native_member_def list_all_iff)
  qed
  with unix ok have "validate_unix_endpoint nt own = Inr own"
    by (auto simp: validate_unix_endpoint_iff unix_seed_def nul_free_def startswith_iff_prefix prefix_def)
  with unix ok p(3) show ?thesis
    by (simp add: server_init_def connect_def connect_remote_def parse_target_def bare_dsn_def merge_option_def
        connect_defaults_def check_read_options_def check_transport_def decode_identity_def or_default_def
        remote_read_levels_def remote_plan_of_def Let_def raise_if_def)
qed

section \<open>The retry example on replicated sessions\<close>

text \<open>
  The documented behaviour of the other functions the example calls, on a node with sessions: opening
  a directory recovers a consistent store, and statements outside a session leave it consistent.
\<close>

definition store_safe :: "'d store native \<Rightarrow> bool" where
  "store_safe B \<longleftrightarrow>
     (\<forall>path st. store_inv (snd (nv_open B path st))) \<and>
     (\<forall>sql st. store_inv st \<longrightarrow> store_inv (snd (nv_describe B sql st))) \<and>
     (\<forall>sql i st. store_inv st \<longrightarrow> store_inv (snd (nv_parameter_name B sql i st))) \<and>
     (\<forall>sql ps st. store_inv st \<longrightarrow> store_inv (snd (nv_query B sql ps st))) \<and>
     (\<forall>sql ps st. store_inv st \<longrightarrow> store_inv (snd (nv_exec B sql ps st)))"

definition gate_s :: "nat \<Rightarrow> 'd store node lworld \<Rightarrow> bool" where
  "gate_s me w \<longleftrightarrow> gate_a me w \<and> store_inv (nd_core (k_native (conn w)))"

lemma calm_call_store:
  assumes "\<And>nd. store_inv (nd_core nd) \<Longrightarrow> store_inv (nd_core (snd (f nd)))"
  shows "calm (gate_s me) (call_native f)"
  using assms by (auto simp: calm_def gate_s_def gate_a_def running_def call_native_running)

lemma session_node_fields:
  "nv_open (session_node Q C B) = nv_open (node_native (session_core Q C) B)"
  "nv_describe (session_node Q C B) = (\<lambda>sql. lift_core (nv_describe B sql))"
  "nv_parameter_name (session_node Q C B) = (\<lambda>sql i. lift_core (nv_parameter_name B sql i))"
  "nv_query (session_node Q C B) = (\<lambda>sql ps. lift_core (nv_query B sql ps))"
  "nv_exec (session_node Q C B) = (\<lambda>sql ps. lift_write (session_core Q C) (nv_exec B sql ps))"
  by (simp_all add: session_node_def node_native_def session_base_def)

lemma lift_core_nd [simp]: "nd_core (snd (lift_core f nd)) = snd (f (nd_core nd))"
  by (simp add: lift_core_def split: prod.splits)

lemma lift_write_nd: "nd_core (snd (lift_write C f nd)) = (if nd_live_transaction nd then nd_core nd else snd (f (nd_core nd)))"
  by (simp add: lift_write_def)

lemma session_open_core: "nd_core (snd (nv_open (session_node Q C B) path nd)) = snd (nv_open B path (nd_core nd))"
  by (simp add: session_node_fields node_native_def lift_core_def split: prod.splits)

lemma calm_store_calls:
  assumes "store_safe B"
  shows "calm (gate_s me) (call_native (nv_describe (session_node Q C B) sql))"
    and "calm (gate_s me) (call_native (nv_parameter_name (session_node Q C B) sql i))"
    and "calm (gate_s me) (call_native (nv_query (session_node Q C B) sql ps))"
    and "calm (gate_s me) (call_native (nv_exec (session_node Q C B) sql ps))"
  using assms by (auto simp: session_node_fields store_safe_def lift_write_nd intro!: calm_call_store)

lemma calm_store_state:
  "calm (gate_s me) (set_cur g)" "calm (gate_s me) (add_changes n)"
  by (simp_all add: calm_def gate_s_def gate_a_def running_def set_cur_def add_changes_def set_conn_def modify_s_def)

lemma calm_autocommit:
  assumes "calm (gate_s me) m'"
  shows "calm (gate_s me) (\<lambda>w. if k_transactional (conn w) \<and> c w then m w else m' w)"
  using assms by (auto simp: calm_def gate_s_def gate_a_def)

lemma calm_store_execute:
  assumes "store_safe B"
  shows "calm (gate_s me) (base_execute (local_execute (session_node Q C B) alone) me' (PStr sql) ps)"
proof -
  note calls = calm_store_calls [OF assms]
  have res: "calm (gate_s me) (resolve_parameters (session_node Q C B) sql n ps)" for sql n ps
    unfolding resolve_parameters_def named_parameter_def by (cases ps) (simp, intro calm_intros calls)+
  have ins: "calm (gate_s me) (install_write v)" for v :: write_result
    unfolding install_write_def by (intro calm_intros calm_store_state)
  show ?thesis
    unfolding base_execute_def base_cursor_def cursor_execute_def cursor_prologue_def local_execute_def execute_section_def
    by simp (intro calm_intros calm_autocommit calls res ins calm_store_state)
qed

text \<open>A session that was just opened permits sequence 1.\<close>

lemma open_session_fresh:
  assumes "gate_s me w" and "open_session (session_node Q C B) me alone w = (Return i, w')"
  shows "gate_s me w' \<and> 1 \<le> i \<and> i < 2 ^ 63 \<and> (\<exists>row. map_of (im_sessions (wjournal w')) i = Some row \<and>
    session_verdict row 1 = Inr ExecuteSession)"
proof -
  let ?nd = "k_native (conn w)"
  have g: "running w" "base_check me (conn w) = Inr ()" "\<not> k_transactional (conn w)" "store_inv (nd_core ?nd)"
    using assms(1) by (simp_all add: gate_s_def gate_a_def)
  obtain r nd where o: "nv_session_open (session_node Q C B) ?nd = (r, nd)" by fastforce
  have r: "r = Inr i" and w': "conn w' = (conn w)\<lparr>k_native := nd\<rparr>"
    using assms(2) o g open_check [of me w]
    by (auto simp: open_session_def lane_call_def pbind_def with_lane_def alone_def running_def call_native_running
        native_outcome_Return)
  from o r have "openSession Q (nd_core ?nd) = (Inr i, nd_core nd)"
    by (auto simp: session_node_simps lift_write_def lift_core_def store_call_def split: if_splits prod.splits sum.splits)
  from open_inv [OF this g(4)] g w' show ?thesis
    by (auto simp: gate_s_def gate_a_def running_def store_inv_def image_inv_def)
qed

lemma bind_on_conn_Return: "m w = (Return a, w') \<Longrightarrow> pbind (on_conn m) f (w, out) = f a (w', out)"
  by (simp add: pbind_def on_conn_def)

lemma bind_on_conn_Raise: "m w = (Raise e, w') \<Longrightarrow> pbind (on_conn m) f (w, out) = (Raise e, w', out)"
  by (simp add: pbind_def on_conn_def)

lemma bind_print: "pbind (print_values vs) f (w, out) = f () (w, out @ [vs])"
  by (simp add: pbind_def print_values_def)

text \<open>The line the example prints last.\<close>

lemma count_line:
  "\<exists>ls. length ls \<le> 1 \<and> snd (snd (pbind (on_conn m) (\<lambda>_. pbind (on_conn f) (\<lambda>row.
     pbind (lift_res (first_value row)) (\<lambda>count. print_values [count]))) (w, out))) = out @ map (\<lambda>v. [v]) ls"
proof -
  have "snd (snd (pbind (on_conn m) (\<lambda>_. pbind (on_conn f) (\<lambda>row.
     pbind (lift_res (first_value row)) (\<lambda>count. print_values [count]))) (w, out))) \<in> {out} \<union> range (\<lambda>v. out @ [[v]])"
    by (auto simp: pbind_def on_conn_def lift_res_def print_values_def split: prod.splits outcome.splits sum.splits)
  then consider "snd (snd (pbind (on_conn m) (\<lambda>_. pbind (on_conn f) (\<lambda>row.
     pbind (lift_res (first_value row)) (\<lambda>count. print_values [count]))) (w, out))) = out"
    | v where "snd (snd (pbind (on_conn m) (\<lambda>_. pbind (on_conn f) (\<lambda>row.
     pbind (lift_res (first_value row)) (\<lambda>count. print_values [count]))) (w, out))) = out @ [[v]]"
    by blast
  then show ?thesis
  proof cases
    case 1
    then show ?thesis by (intro exI [of _ "[]"]) simp
  next
    case (2 v)
    then show ?thesis by (intro exI [of _ "[v]"]) simp
  qed
qed

lemma alone_fun: "alone = (\<lambda>w. (True, w))"
  by (simp add: fun_eq_iff alone_def)

text \<open>A first attempt that returns has executed the statement.\<close>

lemma first_answer:
  fixes w :: "'d store node lworld"
  assumes "ready me w" "s < 2 ^ 63" "q < 2 ^ 63"
    and "map_of (im_sessions (wjournal w)) (int s) = Some row" "session_verdict row q = Inr ExecuteSession"
    and "execute_idempotent (session_node Q C B) me (\<lambda>w. (True, w)) (int s) (int q) sql w = (Return v, w')"
  shows "\<exists>c d. sq_exec Q sql (im_app (wjournal w)) = (Inr c, d)"
proof -
  obtain r nd where run: "zx_exec_idempotent (session_core Q C) (int s) (int q) sql (k_native (conn w)) = (r, nd)"
    by fastforce
  have ok: "base_check me (conn w) = Inr ()" "running w" "consistent (nd_core (k_native (conn w)))"
    using assms(1) by (simp_all add: ready_def)
  from execute_idempotent_open [OF ok(1,2), of "session_node Q C B" "int s" "int q" sql r nd] run assms(6)
  have "native_outcome map_native_error r = Return v" by (simp add: session_node_simps)
  then have "r = Inr v" by (simp add: native_outcome_Return)
  with run u64_of_nat [OF assms(2)] u64_of_nat [OF assms(3)]
  have "execIdempotent (session_core Q C) s q sql (k_native (conn w)) = (Inr v, nd)"
    by (auto simp: zx_exec_idempotent_def to_native_def split: if_splits prod.splits sum.splits)
  from this ok(3) show ?thesis
    by (cases rule: exec_cases) (use assms(4,5) in auto)
qed

lemma idempotent_body_screen:
  fixes w :: "'d store node lworld"
  assumes safe: "store_safe B" and start: "gate_s me w"
  shows "\<exists>c count. prefix (snd (snd (idempotent_body (session_node Q C B) me (w, []))))
    [[PInt c, PBool False], [PInt c, PBool True], [count]]"
proof -
  let ?N = "session_node Q C B"
  obtain r1 w1 where s1: "base_execute (local_execute ?N alone) me (PStr ''create table payments(amount integer)'') (PTuple []) w = (r1, w1)"
    by fastforce
  have g1: "gate_s me w1" using calmD [OF calm_store_execute [OF safe] start s1] by simp
  obtain r2 w2 where s2: "open_session ?N me alone w1 = (r2, w2)" by fastforce
  obtain r3 w3 where s3: "execute_idempotent ?N me alone (case r2 of Return i \<Rightarrow> i | _ \<Rightarrow> 0) 1 payment w2 = (r3, w3)" by fastforce
  obtain r4 w4 where s4: "execute_idempotent ?N me alone (case r2 of Return i \<Rightarrow> i | _ \<Rightarrow> 0) 1 payment w3 = (r4, w4)" by fastforce
  show ?thesis
  proof (cases "\<exists>u i v. r1 = Return u \<and> r2 = Return i \<and> r3 = Return v")
    case False
    with s1 s2 s3 have "snd (snd (idempotent_body ?N me (w, []))) = []"
      by (auto simp: idempotent_body_def pbind_def on_conn_def split: outcome.splits)
    then show ?thesis by simp
  next
    case True
    then obtain u i v where rs: "r1 = Return u" "r2 = Return i" "r3 = Return v" by blast
    from open_session_fresh [OF g1, of Q C B i w2] s2 rs(2) obtain row where
      g2: "gate_s me w2" "1 \<le> i" "i < 2 ^ 63" "map_of (im_sessions (wjournal w2)) i = Some row"
      "session_verdict row 1 = Inr ExecuteSession" by auto
    let ?s = "nat i"
    have i: "int ?s = i" "?s < 2 ^ 63" using g2(2,3) by auto
    have rd: "ready me w2" using g2(1) by (simp add: ready_def gate_s_def gate_a_def store_inv_alt)
    have row: "map_of (im_sessions (wjournal w2)) (int ?s) = Some row" using g2(4) i by simp
    have e3: "execute_idempotent ?N me (\<lambda>w. (True, w)) (int ?s) (int 1) payment w2 = (Return v, w3)"
      and e4: "execute_idempotent ?N me (\<lambda>w. (True, w)) (int ?s) (int 1) payment w3 = (r4, w4)"
      using s3 s4 rs i by (simp_all add: alone_fun)
    obtain c d where sql: "sq_exec Q payment (im_app (wjournal w2)) = (Inr c, d)"
      using first_answer [OF rd i(2) _ row g2(5) e3] by auto
    have one: "(1::nat) < 2 ^ 63" by simp
    from attempt(1) [OF rd i(2) one row g2(5) sql e3 refl] have v: "v = (c, False)" "ready me w3"
      "wjournal w3 = once_applied ?s 1 c d (wjournal w2)" by auto
    from attempt(2) [OF v(2) i(2) one row g2(5) sql e4 v(3)] have r4: "(\<exists>e. r4 = Raise e) \<or> r4 = Return (c, True)" by simp
    let ?first = "[PInt c, PBool False]" and ?again = "[PInt c, PBool True]"
    let ?rest = "pbind (on_conn (base_execute (local_execute ?N alone) me (PStr ''select count(*) from payments'') (PTuple []))) (\<lambda>_.
      pbind (on_conn (fetch fetchone me)) (\<lambda>row. pbind (lift_res (first_value row)) (\<lambda>count. print_values [count])))"
    have run: "snd (snd (idempotent_body ?N me (w, []))) =
      (case r4 of Return _ \<Rightarrow> snd (snd (?rest (w4, [?first, ?again]))) | _ \<Rightarrow> [?first])"
      using r4 s1 s2 s3 s4 rs v(1)
      by (auto simp: idempotent_body_def print_attempt_def bind_print bind_on_conn_Return bind_on_conn_Raise)
    from r4 show ?thesis
    proof
      assume "r4 = Return (c, True)"
      with run obtain ls where ls: "length ls \<le> 1"
        "snd (snd (idempotent_body ?N me (w, []))) = [?first, ?again] @ map (\<lambda>v. [v]) ls"
        using count_line [of _ _ w4 "[?first, ?again]"] by fastforce
      then have "prefix (snd (snd (idempotent_body ?N me (w, [])))) [?first, ?again, [hd ls]]"
        by (cases ls) auto
      then show ?thesis by blast
    next
      assume "\<exists>e. r4 = Raise e"
      with run show ?thesis by auto
    qed
  qed
qed

text \<open>
  C32. The retry example shows what it claims: on a node with replicated sessions, whatever faults occur, the
  screen of \<open>idempotent.py\<close> is a prefix of a first attempt that executed, a retry that was answered from
  the session table with the same number of changes, and the row count. A retry that executed again
  is never shown.
\<close>

theorem example_retry_replays:
  assumes "store_safe B"
  shows "\<exists>r w out c count. idempotent_main (session_node Q C B) nt me scratch nd = (r, Some (w, out)) \<and>
    prefix out [[PInt c, PBool False], [PInt c, PBool True], [count]]"
proof -
  let ?N = "session_node Q C B"
  let ?plan = "\<lparr>l_path = ''/'' @ scratch @ ''/node'', l_timeout = 5, l_check_same_thread = True, l_transactional = False\<rparr>"
  obtain r w out where run: "with_local ?N me ?plan nd (idempotent_body ?N me) [] = (r, w, out)" by (metis surj_pair)
  obtain r0 w0 where o: "conn_open ?N ?plan me nd = (r0, w0)" by fastforce
  have "\<exists>c count. prefix out [[PInt c, PBool False], [PInt c, PBool True], [count]]"
  proof (cases r0)
    case (Return u)
    with o have w0: "conn_open ?N ?plan me nd = (Return (), w0)" by simp
    have "gate_s me w0"
      using conn_open_Return [OF w0] assms
      by (simp add: gate_s_def gate_a_def running_def base_check_def raise_if_def session_open_core store_safe_def)
    from idempotent_body_screen [OF assms this, of Q C] obtain c count where
      "prefix (snd (snd (idempotent_body ?N me (w0, [])))) [[PInt c, PBool False], [PInt c, PBool True], [count]]" by blast
    moreover have "out = snd (snd (idempotent_body ?N me (w0, [])))"
      using run w0 by (auto simp: with_local_def finally_do_def on_conn_def split: prod.splits outcome.splits)
    ultimately show ?thesis by auto
  qed (use run o in \<open>auto simp: with_local_def\<close>)
  with run show ?thesis by (auto simp: idempotent_main_def run_scratch_def absolute_is_local default_plan)
qed

definition ledger_store :: "int list store" where
  "ledger_store = \<lparr>st_image = bootstrap_image [], st_journal = bootstrap_image [], st_needs_resync = False,
     st_fatal = False, st_serves_writes = True, st_faults = []\<rparr>"

definition ledger_base :: "int list store native" where
  "ledger_base =
    \<lparr>nv_open = (\<lambda>path st. (Inr (), ledger_store)), nv_close = (\<lambda>st. (Inr (), st)),
     nv_describe = (\<lambda>sql st. (Inr (0, 0, \<not> guess_is_write sql, False), st)),
     nv_parameter_name = (\<lambda>sql i st. (Inr '':a'', st)),
     nv_query = (\<lambda>sql ps st. (Inr ([''count(*)''], [[PInt (int (length (im_app (st_image st))))]]), st)),
     nv_exec = (\<lambda>sql ps st. (Inr (0, None, False, None), st)),
     nv_exec_script = (\<lambda>sql st. (Inr 0, st)), nv_begin = (\<lambda>st. (Inr 0, st)),
     nv_tx_exec = (\<lambda>tx sql ps st. (Inr (), st)), nv_tx_commit = (\<lambda>tx st. (Inr 0, st)),
     nv_tx_close = (\<lambda>tx st. (Inr (), st)), nv_live_begin = (\<lambda>st. (Inr (), st)),
     nv_live_exec = (\<lambda>sql ps st. (Inr (0, None, False, None), st)), nv_live_commit = (\<lambda>st. (Inr 0, st)),
     nv_live_rollback = (\<lambda>st. (Inr (), st)), nv_live_savepoint = (\<lambda>i st. (Inr (), st)),
     nv_live_release_savepoint = (\<lambda>i st. (Inr (), st)), nv_live_rollback_to_savepoint = (\<lambda>i st. (Inr (), st)),
     nv_snapshot = (\<lambda>st. (Inr (), st)), nv_backup = (\<lambda>path st. (Inr (), st)), nv_integrity_check = (\<lambda>st. (Inr (), st)),
     nv_session_open = (\<lambda>st. (Inr 0, st)), nv_exec_idempotent = (\<lambda>s q sql st. (Inr (0, False), st)),
     nv_expire_sessions = (\<lambda>i st. (Inr 0, st)), nv_search = (\<lambda>q st. (Inr ([], []), st))\<rparr>"

lemma ledger_safe: "store_safe ledger_base"
  by (simp add: store_safe_def ledger_base_def ledger_store_def store_inv_def bootstrap_image_def image_inv_def)

text \<open>Which statements write, for the three statements of the example.\<close>

lemma ledger_keywords:
  "guess_is_write ''create table payments(amount integer)''" "\<not> guess_is_write ''select count(*) from payments''"
  by code_simp+

lemma ledger_screen:
  "\<exists>r w. idempotent_main (session_node ledger C ledger_base) False 1 ''tmp'' ledger_node =
    (r, Some (w, [[PInt 1, PBool False], [PInt 1, PBool True], [PInt 1]]))"
  by (simp add: idempotent_main_def run_scratch_def absolute_is_local default_plan with_local_def conn_open_def Let_def catch_def
      call_native_def session_node_def node_native_def session_base_def session_core_def lift_core_def ledger_base_def native_outcome_def
      ledger_node_def ledger_store_def bootstrap_image_def finally_do_def idempotent_body_def base_execute_def base_cursor_def
      conn_check_def base_check_def raise_if_def lift_res_def pbind_def on_conn_def set_cur_def modify_s_def
      cursor_execute_def cursor_prologue_def cursor_check_def view_of_def cursor_init_def cursor_reset_def ret_def
      local_execute_def with_lane_def alone_def execute_section_def ledger_keywords guard_not_def resolve_parameters_def
      normalize_parameters_def lift_write_def install_write_def add_changes_def set_conn_def
      open_session_def lane_call_def store_call_def openSession_def take_fault_def no_fault_def resync_if_needed_def and_then_def
      fails_def writeRequest_def insert_session_def sealCapturedTransaction_def execute_idempotent_def idempotent_section_def
      zx_exec_idempotent_def nul_free_def payment_def to_native_def execIdempotent_def on_core_def checkSession_def
      session_verdict_def session_write_def app_statements_def record_session_def ledger_def print_attempt_def print_values_def
      load_read_result_def fetch_def fetchone_def cursor_wrap_def row_factory_get_def first_value_def py_index_def
      conn_close_def close_section_def if_in_tx_def)

theorem example_retry_replays_witness:
  "store_safe ledger_base \<and> (\<forall>C. \<exists>r w c count.
    idempotent_main (session_node ledger C ledger_base) False 1 ''tmp'' ledger_node =
      (r, Some (w, [[PInt 1, PBool False], [PInt 1, PBool True], [PInt 1]])) \<and>
    prefix [[PInt 1, PBool False], [PInt 1, PBool True], [PInt 1]] [[PInt c, PBool False], [PInt c, PBool True], [count]])"
proof (intro conjI allI ledger_safe)
  fix C :: "int list store core"
  obtain r w where run: "idempotent_main (session_node ledger C ledger_base) False 1 ''tmp'' ledger_node =
      (r, Some (w, [[PInt 1, PBool False], [PInt 1, PBool True], [PInt 1]]))" using ledger_screen by blast
  with example_retry_replays [OF ledger_safe, of ledger C False 1 "''tmp''" ledger_node]
  show "\<exists>r w c count. idempotent_main (session_node ledger C ledger_base) False 1 ''tmp'' ledger_node =
      (r, Some (w, [[PInt 1, PBool False], [PInt 1, PBool True], [PInt 1]])) \<and>
    prefix [[PInt 1, PBool False], [PInt 1, PBool True], [PInt 1]] [[PInt c, PBool False], [PInt c, PBool True], [count]]"
    by fastforce
qed

end
