(* ===== verification/Zx_Blocks.thy ===== *)
theory Zx_Blocks
  imports Zx_Sections
begin

text \<open>
  \<open>with connection:\<close> on a Gate C connection.

  \<open>with_block\<close> is Python's with-statement over \<open>__enter__\<close> and \<open>__exit__\<close> of \<open>Connection\<close>. The body is any
  client program whose access to the database is \<open>connection.execute\<close>: a value of \<open>prog\<close>, which may
  branch on the cursor a statement leaves and on the exception it raises. \<open>run_prog\<close> also gives the
  log of the statements that returned. The theorem compares the block with its abstract
  specification: one atomic step from the committed database to the effect of that log on it.
\<close>

section \<open>The with-statement\<close>

definition with_block ::
  "'n native \<Rightarrow> nat \<Rightarrow> ('n lworld \<Rightarrow> bool \<times> 'n lworld) \<Rightarrow> ('n lworld, unit) py \<Rightarrow> ('n lworld, unit) py" where
  "with_block N me lane_env body =
    pbind (conn_enter me) (\<lambda>_ w.
      case body w of
        (Return _, w') \<Rightarrow> pbind (conn_exit N me lane_env False) (\<lambda>_. ret ()) w'
      | (Raise e, w') \<Rightarrow> pbind (conn_exit N me lane_env True) (\<lambda>suppress. if suppress then ret () else throw e) w'
      | (Blocked, w') \<Rightarrow> (Blocked, w'))"

text \<open>Client programs; a statement continues with the cursor it left or the exception it raised.\<close>

datatype prog =
    Done
  | Fail pyexc
  | Exec string "pyobj list" "cursor \<Rightarrow> prog" "pyexc \<Rightarrow> prog"

primrec prog_all :: "(string \<Rightarrow> bool) \<Rightarrow> prog \<Rightarrow> bool" where
  "prog_all P Done = True"
| "prog_all P (Fail e) = True"
| "prog_all P (Exec sql ps k h) = (P sql \<and> (\<forall>c. prog_all P (k c)) \<and> (\<forall>e. prog_all P (h e)))"

type_synonym stmt_log = "(string \<times> pyobj list) list"

definition execute_stmt ::
  "'n native \<Rightarrow> nat \<Rightarrow> ('n lworld \<Rightarrow> bool \<times> 'n lworld) \<Rightarrow> string \<Rightarrow> pyobj list \<Rightarrow> ('n lworld, unit) py" where
  "execute_stmt N me lane_env sql ps = base_execute (local_execute N lane_env) me (PStr sql) (PTuple ps)"

primrec run_prog ::
  "'n native \<Rightarrow> nat \<Rightarrow> ('n lworld \<Rightarrow> bool \<times> 'n lworld) \<Rightarrow> prog \<Rightarrow> stmt_log \<Rightarrow> 'n lworld \<Rightarrow> unit outcome \<times> stmt_log \<times> 'n lworld" where
  "run_prog N me lane_env Done tr w = (Return (), tr, w)"
| "run_prog N me lane_env (Fail e) tr w = (Raise e, tr, w)"
| "run_prog N me lane_env (Exec sql ps k h) tr w =
     (case execute_stmt N me lane_env sql ps w of
        (Return _, w') \<Rightarrow> run_prog N me lane_env (k (cur w')) (tr @ [(sql, ps)]) w'
      | (Raise e, w') \<Rightarrow> run_prog N me lane_env (h e) tr w'
      | (Blocked, w') \<Rightarrow> (Blocked, tr, w'))"

definition prog_body :: "'n native \<Rightarrow> nat \<Rightarrow> ('n lworld \<Rightarrow> bool \<times> 'n lworld) \<Rightarrow> prog \<Rightarrow> ('n lworld, unit) py" where
  "prog_body N me lane_env p w = (case run_prog N me lane_env p [] w of (r, _, w') \<Rightarrow> (r, w'))"

section \<open>What SQLite promises\<close>

text \<open>
  Beside the isolation of \<open>sqlite_isolated\<close>: a transaction starts on the committed database, a statement
  that succeeds has its effect on the working copy, one that fails and leaves the transaction open has
  none if it is \<open>atomic\<close> (the conflict clause \<open>OR FAIL\<close> is the exception SQLite documents),
  a sealed commit publishes the working copy, read-only statements have no effect, and the rows of
  statements are text of the driver's alphabet.
\<close>

definition sqlite_transactions ::
  "'d core \<Rightarrow> 'd native \<Rightarrow> ('d \<Rightarrow> 'c) \<Rightarrow> ('d \<Rightarrow> 'c) \<Rightarrow> (string \<Rightarrow> nvalue list \<Rightarrow> 'c \<Rightarrow> 'c) \<Rightarrow>
     (string \<Rightarrow> bool) \<Rightarrow> bool" where
  "sqlite_transactions C B committed working effect atomic \<longleftrightarrow>
     sqlite_isolated C B committed \<and>
     (\<forall>d u d'. co_exec C ''begin immediate'' d = (Inr u, d') \<longrightarrow> working d' = committed d) \<and>
     (\<forall>sql vs d r d'. co_run C sql vs d = (Inr r, d') \<longrightarrow> working d' = effect sql vs (working d)) \<and>
     (\<forall>sql vs d e d'. atomic sql \<longrightarrow> co_run C sql vs d = (Inl e, d') \<longrightarrow> co_in_transaction C d' \<longrightarrow> working d' = working d) \<and>
     (\<forall>d. working (snd (co_verify C d)) = working d) \<and>
     (\<forall>n d c d'. co_seal C n d = (Inr c, d') \<longrightarrow> committed d' = working d) \<and>
     (\<forall>sql i d. working (snd (nv_describe B sql d)) = working d \<and> working (snd (nv_parameter_name B sql i d)) = working d) \<and>
     (\<forall>sql ps d. working (snd (nv_query B sql ps d)) = working d) \<and>
     (\<forall>sql d pc cols tail d' vs c. nv_describe B sql d = (Inr (pc, cols, True, tail), d') \<longrightarrow> effect sql vs c = c) \<and>
     (\<forall>sql vs d t d'. co_run C sql vs d = (Inr (Some t), d') \<longrightarrow> (\<exists>t'. rbind (convert_result t) table_of = Inr t'))"

lemma transaction_laws:
  assumes "sqlite_transactions C B committed working effect atomic"
  shows "sqlite_isolated C B committed"
    and "co_exec C ''begin immediate'' d = (Inr u, d') \<Longrightarrow> working d' = committed d"
    and "co_run C sql vs d = (Inr r, d') \<Longrightarrow> working d' = effect sql vs (working d)"
    and "atomic sql \<Longrightarrow> co_run C sql vs d = (Inl e, d') \<Longrightarrow> co_in_transaction C d' \<Longrightarrow> working d' = working d"
    and "working (snd (co_verify C d)) = working d"
    and "co_seal C n d = (Inr c, d') \<Longrightarrow> committed d' = working d"
    and "working (snd (nv_describe B sql d)) = working d" and "working (snd (nv_query B sql ps d)) = working d"
    and "nv_describe B sql d = (Inr (pc, cols, True, tail), d') \<Longrightarrow> effect sql vs x = x"
    and "co_run C sql vs d = (Inr (Some t), d') \<Longrightarrow> \<exists>t'. rbind (convert_result t) table_of = Inr t'"
proof -
  note L = assms [unfolded sqlite_transactions_def]
  note L1 = L [THEN conjunct2]
  note L2 = L1 [THEN conjunct2]
  note L3 = L2 [THEN conjunct2]
  note L4 = L3 [THEN conjunct2]
  note L5 = L4 [THEN conjunct2]
  note L6 = L5 [THEN conjunct2]
  note L7 = L6 [THEN conjunct2]
  note L8 = L7 [THEN conjunct2]
  show "sqlite_isolated C B committed" by (rule L [THEN conjunct1])
  show "co_exec C ''begin immediate'' d = (Inr u, d') \<Longrightarrow> working d' = committed d"
    by (rule L1 [THEN conjunct1, rule_format])
  show "co_run C sql vs d = (Inr r, d') \<Longrightarrow> working d' = effect sql vs (working d)"
    by (rule L2 [THEN conjunct1, rule_format])
  show "atomic sql \<Longrightarrow> co_run C sql vs d = (Inl e, d') \<Longrightarrow> co_in_transaction C d' \<Longrightarrow> working d' = working d"
    by (rule L3 [THEN conjunct1, rule_format])
  show "working (snd (co_verify C d)) = working d" by (rule L4 [THEN conjunct1, rule_format])
  show "co_seal C n d = (Inr c, d') \<Longrightarrow> committed d' = working d" by (rule L5 [THEN conjunct1, rule_format])
  show "working (snd (nv_describe B sql d)) = working d" by (simp add: L6 [THEN conjunct1])
  show "working (snd (nv_query B sql ps d)) = working d" by (rule L7 [THEN conjunct1, rule_format])
  show "nv_describe B sql d = (Inr (pc, cols, True, tail), d') \<Longrightarrow> effect sql vs x = x"
    by (rule L8 [THEN conjunct1, rule_format])
  show "co_run C sql vs d = (Inr (Some t), d') \<Longrightarrow> \<exists>t'. rbind (convert_result t) table_of = Inr t'"
    by (rule L8 [THEN conjunct2, rule_format])
qed

text \<open>The effect of a list of statements.\<close>

definition log_effect :: "(string \<Rightarrow> nvalue list \<Rightarrow> 'c \<Rightarrow> 'c) \<Rightarrow> stmt_log \<Rightarrow> 'c \<Rightarrow> 'c" where
  "log_effect effect tr c = fold (\<lambda>(sql, ps). effect sql (node_values ps)) tr c"

lemma log_effect_simps [simp]:
  "log_effect effect [] c = c"
  "log_effect effect (tr @ [(sql, ps)]) c = effect sql (node_values ps) (log_effect effect tr c)"
  by (simp_all add: log_effect_def)

section \<open>The block invariant\<close>

definition block_inv ::
  "('d \<Rightarrow> 'c) \<Rightarrow> ('d \<Rightarrow> 'c) \<Rightarrow> (string \<Rightarrow> nvalue list \<Rightarrow> 'c \<Rightarrow> 'c) \<Rightarrow> nat \<Rightarrow> 'c \<Rightarrow> stmt_log \<Rightarrow> 'd node lworld \<Rightarrow> bool" where
  "block_inv committed working effect me c0 tr w \<longleftrightarrow>
     base_check me (conn w) = Inr () \<and> k_stops (conn w) = 0 \<and> k_transactional (conn w) \<and>
     committed (nd_core (k_native (conn w))) = c0 \<and>
     (\<not> k_in_tx (conn w) \<longrightarrow> \<not> nd_live_transaction (k_native (conn w)) \<and> log_effect effect tr c0 = c0) \<and>
     (k_in_tx (conn w) \<and> nd_live_transaction (k_native (conn w)) \<longrightarrow>
        working (nd_core (k_native (conn w))) = log_effect effect tr c0)"

text \<open>What a statement of the block leaves behind.\<close>

definition block_post ::
  "(stmt_log \<Rightarrow> 's \<Rightarrow> bool) \<Rightarrow> stmt_log \<Rightarrow> string \<times> pyobj list \<Rightarrow> unit outcome \<times> 's \<Rightarrow> bool" where
  "block_post J tr entry p \<longleftrightarrow>
    (case p of (Return _, w') \<Rightarrow> J (tr @ [entry]) w' | (Raise e, w') \<Rightarrow> J tr w' | (Blocked, w') \<Rightarrow> False)"

lemma post_bind:
  assumes "calm (J tr) m" and "J tr w" and "\<And>a w'. m w = (Return a, w') \<Longrightarrow> J tr w' \<Longrightarrow> block_post J tr entry (f a w')"
  shows "block_post J tr entry (pbind m f w)"
proof (cases "m w")
  case (Pair r w')
  with calmD [OF assms(1,2)] have "r \<noteq> Blocked" "J tr w'" by auto
  with assms(3) Pair show ?thesis by (cases r) (auto simp: pbind_def block_post_def)
qed

lemma live_working:
  assumes "sqlite_transactions C B committed working effect atomic" and "beginLive C nd = (Inr u, nd')"
  shows "working (nd_core nd') = committed (nd_core nd)"
proof -
  note iso = transaction_laws(1) [OF assms(1)]
  have keep: "committed (nd_core nd2) = committed (nd_core nd1)"
    if "on_core f nd1 = (r, nd2)" "f \<in> {co_resync C, co_ensure_writer C}" for f r nd1 nd2
    using that iso on_core_committed [of committed f nd1 r nd2] by (auto simp: sqlite_isolated_def node_committed_def)
  have beg: "working (nd_core nd2) = committed (nd_core nd1)"
    if "on_core (co_exec C ''begin immediate'') nd1 = (Inr v, nd2)" for v nd1 nd2
    using that transaction_laws(2) [OF assms(1)] by (auto simp: on_core_def split: prod.splits)
  from assms(2) show ?thesis
    by (auto simp: beginLive_def and_then_Inr split: if_splits dest!: keep beg)
qed


lemma liveExec_working:
  assumes laws: "sqlite_transactions C B committed working effect atomic"
  shows "liveExec C sql vs nd = (Inr r, nd') \<Longrightarrow> working (nd_core nd') = effect sql vs (working (nd_core nd))"
    and "atomic sql \<Longrightarrow> liveExec C sql vs nd = (Inl e, nd') \<Longrightarrow> nd_live_transaction nd' \<Longrightarrow> working (nd_core nd') = working (nd_core nd)"
proof -
  assume "liveExec C sql vs nd = (Inr r, nd')"
  then obtain q where "co_run C sql vs (nd_core nd) = (Inr q, nd_core nd')"
    by (auto simp: liveExec_def Let_def on_core_def split: if_splits prod.splits sum.splits)
  then show "working (nd_core nd') = effect sql vs (working (nd_core nd))" by (rule transaction_laws(3) [OF laws])
next
  assume "atomic sql" and "liveExec C sql vs nd = (Inl e, nd')" "nd_live_transaction nd'"
  from this(2,3) consider "nd' = nd" | "co_run C sql vs (nd_core nd) = (Inl e, nd_core nd')" "co_in_transaction C (nd_core nd')"
    by (auto simp: liveExec_def Let_def on_core_def split: if_splits prod.splits sum.splits)
  then show "working (nd_core nd') = working (nd_core nd)"
    using transaction_laws(4) [OF laws \<open>atomic sql\<close>] by cases auto
qed

section \<open>The calls of a statement\<close>

lemma block_call:
  assumes "\<And>nd. nd_live_transaction (snd (f nd)) = nd_live_transaction nd \<and>
      committed (nd_core (snd (f nd))) = committed (nd_core nd) \<and> working (nd_core (snd (f nd))) = working (nd_core nd)"
  shows "calm (block_inv committed working effect me c0 tr) (call_native f)"
  using assms by (simp add: calm_def block_inv_def call_native_running base_check_def)

lemma block_reads [calm_intros]:
  assumes "sqlite_transactions C B committed working effect atomic"
  shows "calm (block_inv committed working effect me c0 tr) (call_native (nv_describe (node_native C B) sql))"
    "calm (block_inv committed working effect me c0 tr) (call_native (nv_query (node_native C B) sql ps))"
  using transaction_laws(7,8) [OF assms] transaction_laws(1) [OF assms, unfolded sqlite_isolated_def]
  by (auto intro!: block_call simp: node_native_def lift_core_def split: prod.splits) (metis snd_conv)+

lemma block_cur [calm_intros]: "calm (block_inv committed working effect me c0 tr) (set_cur f)"
  "calm (block_inv committed working effect me c0 tr) (add_changes i)"
  by (simp_all add: calm_def block_inv_def set_cur_def add_changes_def set_conn_def modify_s_def base_check_def)

lemma block_begin:
  assumes laws: "sqlite_transactions C B committed working effect atomic"
  shows "calm (block_inv committed working effect me c0 tr) (begin_if_needed (node_native C B))"
    and "begin_if_needed (node_native C B) w = (Return u, w') \<Longrightarrow> k_in_tx (conn w')"
proof -
  note iso = transaction_laws(1) [OF laws]
  show "calm (block_inv committed working effect me c0 tr) (begin_if_needed (node_native C B))"
    unfolding calm_def
  proof (intro allI impI)
    fix w :: "'a node lworld"
    assume w: "block_inv committed working effect me c0 tr w"
    obtain r nd where b: "beginLive C (k_native (conn w)) = (r, nd)" by fastforce
    have "committed (nd_core nd) = committed (nd_core (k_native (conn w)))"
      using beginLive_committed [OF iso, of "k_native (conn w)"] b by (simp add: node_committed_def)
    with w b show "fst (begin_if_needed (node_native C B) w) \<noteq> Blocked \<and>
        block_inv committed working effect me c0 tr (snd (begin_if_needed (node_native C B) w))"
      by (cases r; cases "k_in_tx (conn w)")
        (auto simp: begin_if_needed_def pbind_def ret_def call_native_running native_outcome_def set_in_tx_def set_conn_def
          modify_s_def block_inv_def base_check_def node_native_def to_native_def
          dest: beginLive_ok beginLive_fail live_working [OF laws])
  qed
  show "k_in_tx (conn w')" if "begin_if_needed (node_native C B) w = (Return u, w')"
    using that
    by (auto simp: begin_if_needed_def pbind_def ret_def set_in_tx_def set_conn_def modify_s_def
        split: if_splits prod.splits outcome.splits)
qed

lemma block_live_exec:
  assumes laws: "sqlite_transactions C B committed working effect atomic"
    and w: "block_inv committed working effect me c0 tr w" "k_in_tx (conn w)" and a: "atomic sql"
    and e: "call_native (nv_live_exec (node_native C B) sql ps) w = (r, w')"
  shows "case r of Return _ \<Rightarrow> block_inv committed working effect me c0 (tr @ [(sql, ps)]) w'
    | Raise _ \<Rightarrow> block_inv committed working effect me c0 tr w' | Blocked \<Rightarrow> False"
proof -
  note iso = transaction_laws(1) [OF laws]
  obtain q nd where n: "live_exec_native C sql ps (k_native (conn w)) = (q, nd)" by fastforce
  have c: "committed (nd_core nd) = c0"
    using live_exec_native_committed [OF iso, of sql ps "k_native (conn w)"] n w(1)
    by (simp add: node_committed_def block_inv_def)
  have out: "r = native_outcome map_native_error q" "w' = w\<lparr>conn := (conn w)\<lparr>k_native := nd\<rparr>\<rparr>"
    using e n w(1) by (simp_all add: call_native_running block_inv_def node_native_def)
  from n show ?thesis
  proof (cases rule: live_exec_native_cases)
    case 1
    then obtain x where "q = Inl x" by (cases q) auto
    with 1 w out c show ?thesis by (cases x) (auto simp: native_outcome_def block_inv_def)
  next
    case (2 e)
    then obtain x where "q = Inl x" by (cases q) auto
    with 2 w out c liveExec_working(2) [OF laws a 2(1)] liveExec_fail [OF 2(1)] show ?thesis
      by (cases x) (auto simp: native_outcome_def block_inv_def base_check_def)
  next
    case (3 changes rowid returning)
    have "\<not> isl q"
    proof
      assume "isl q"
      with 3(2) obtain t where t: "returning = Some t" "isl (rbind (convert_result t) table_of)" by blast
      from 3(1) t(1) obtain d' where "co_run C sql (node_values ps) (nd_core (k_native (conn w))) = (Inr (Some t), d')"
        by (auto simp: liveExec_def Let_def on_core_def split: if_splits prod.splits sum.splits)
      from transaction_laws(10) [OF laws this] t(2) show False by auto
    qed
    then obtain v where "q = Inr v" by (cases q) auto
    with w out c liveExec_working(1) [OF laws 3(1)] liveExec_ok [OF 3(1)] show ?thesis
      by (auto simp: native_outcome_def block_inv_def base_check_def)
  qed
qed

text \<open>The bookkeeping after a statement returns and keeps the invariant.\<close>

lemma block_tail:
  assumes "block_inv committed working effect me c0 (tr @ [entry]) w"
  shows "block_post (block_inv committed working effect me c0) tr entry (install_write r w)"
    and "block_post (block_inv committed working effect me c0) tr entry (set_cur f w)"
  using assms
  by (auto simp: install_write_def py_defs set_cur_def add_changes_def set_conn_def block_inv_def base_check_def
      block_post_def split: prod.splits option.splits)

lemma block_statement:
  assumes laws: "sqlite_transactions C B committed working effect atomic" and a: "atomic sql"
    and w: "block_inv committed working effect me c0 tr w"
  shows "block_post (block_inv committed working effect me c0) tr (sql, ps)
    (live_statement (node_native C B) sql ps read_only w)"
  unfolding live_statement_def
proof (rule post_bind [where J = "block_inv committed working effect me c0", OF block_begin(1) [OF laws] w])
  fix u w1
  assume "begin_if_needed (node_native C B) w = (Return u, w1)"
  then have tx: "k_in_tx (conn w1)" by (rule block_begin(2) [OF laws])
  assume J1: "block_inv committed working effect me c0 tr w1"
  obtain r w2 where e: "call_native (nv_live_exec (node_native C B) sql ps) w1 = (r, w2)" by fastforce
  note x = block_live_exec [OF laws J1 tx a e]
  show "block_post (block_inv committed working effect me c0) tr (sql, ps)
    (pbind (call_native (nv_live_exec (node_native C B) sql ps)) (\<lambda>r. if read_only
       then (case snd (snd (snd r)) of None \<Rightarrow> set_cur (load_read_result [] [])
         | Some (names, rows) \<Rightarrow> set_cur (load_read_result names rows)) else install_write r) w1)"
  proof (cases r)
    case (Return v)
    with x have "block_inv committed working effect me c0 (tr @ [(sql, ps)]) w2" by simp
    note tail = block_tail [OF this]
    with e Return show ?thesis
      by (cases "snd (snd (snd v))"; cases read_only) (simp_all add: pbind_def split: prod.splits)
  qed (use x e in \<open>simp_all add: pbind_def block_post_def\<close>)
qed

lemma pbind_pure: "pbind (ret a) f = f a" "pbind (lift_res (Inr a)) f = f a"
  by (simp_all add: fun_eq_iff pbind_def ret_def lift_res_def)

text \<open>A read outside a transaction, any statement of the body, then the whole body.\<close>

lemma block_query:
  assumes laws: "sqlite_transactions C B committed working effect atomic"
    and w: "block_inv committed working effect me c0 tr w" "\<not> k_in_tx (conn w)"
    and id: "\<And>vs x. effect sql vs x = x"
  shows "block_post (block_inv committed working effect me c0) tr (sql, ps)
    (pbind (call_native (nv_query (node_native C B) sql ps)) (\<lambda>(names, rows). set_cur (load_read_result names rows)) w)"
proof (rule post_bind [where J = "block_inv committed working effect me c0", OF block_reads(2) [OF laws] w(1)])
  fix t w2
  assume q: "call_native (nv_query (node_native C B) sql ps) w = (Return t, w2)"
    and J2: "block_inv committed working effect me c0 tr w2"
  have "\<not> k_in_tx (conn w2)" using q w by (auto simp: call_native_running block_inv_def)
  with J2 id have "block_inv committed working effect me c0 (tr @ [(sql, ps)]) w2" by (simp add: block_inv_def)
  from block_tail(2) [OF this]
  show "block_post (block_inv committed working effect me c0) tr (sql, ps)
      ((case t of (names, rows) \<Rightarrow> set_cur (load_read_result names rows)) w2)"
    by (simp split: prod.splits)
qed

lemma block_execute:
  assumes laws: "sqlite_transactions C B committed working effect atomic" and a: "atomic sql"
    and w: "block_inv committed working effect me c0 tr w"
  shows "block_post (block_inv committed working effect me c0) tr (sql, ps)
    (execute_section (node_native C B) sql (PTuple ps) w)"
  unfolding execute_section_def
proof (rule post_bind [where J = "block_inv committed working effect me c0", OF block_reads(1) [OF laws] w])
  fix v w1
  assume d: "call_native (nv_describe (node_native C B) sql) w = (Return v, w1)"
    and J1: "block_inv committed working effect me c0 tr w1"
  obtain pc cols ro tail where v: "v = (pc, cols, ro, tail)" by (cases v)
  have "fst (nv_describe B sql (nd_core (k_native (conn w)))) = Inr v"
    using d w by (auto simp: call_native_running block_inv_def node_native_def lift_core_def native_outcome_Return
        split: prod.splits)
  then have id: "ro \<Longrightarrow> effect sql vs x = x" for vs x
    using transaction_laws(9) [OF laws, of sql "nd_core (k_native (conn w))" pc cols tail _ vs x] v
    by (metis (full_types) prod.collapse)
  note query = block_query [OF laws J1, of sql ps]
  have gate: "k_transactional (conn w1)" using J1 by (simp add: block_inv_def)
  show "block_post (block_inv committed working effect me c0) tr (sql, ps)
    ((case v of (parameter_count, _, read_only, has_tail) \<Rightarrow>
      pbind (guard_not has_tail (exc ProgrammingError ''execute() accepts one statement; use executescript()'')) (\<lambda>_.
      pbind (resolve_parameters (node_native C B) sql parameter_count (PTuple ps)) (\<lambda>params w.
        if k_transactional (conn w) \<and> (k_in_tx (conn w) \<or> \<not> read_only)
        then live_statement (node_native C B) sql params read_only w
        else if read_only then pbind (call_native (nv_query (node_native C B) sql params))
          (\<lambda>(names, rows). set_cur (load_read_result names rows)) w
        else pbind (call_native (nv_exec (node_native C B) sql params)) install_write w))) w1)"
  proof (cases "tail \<or> pc \<noteq> int (length ps)")
    case True
    with J1 show ?thesis
      by (auto simp: v pbind_def guard_not_def throw_def ret_def resolve_parameters_def normalize_parameters_def
          lift_res_def block_post_def)
  next
    case False
    with gate query id block_statement [OF laws a J1, of ps ro] show ?thesis
      by (auto simp: v pbind_pure guard_not_def resolve_parameters_def normalize_parameters_def)
  qed
qed

lemma block_execute_stmt:
  assumes "sqlite_transactions C B committed working effect atomic" and "atomic sql"
    and J: "block_inv committed working effect me c0 tr w"
  shows "block_post (block_inv committed working effect me c0) tr (sql, ps)
    (execute_stmt (node_native C B) me (\<lambda>w. (admit w, w)) sql ps w)"
proof -
  let ?w = "w\<lparr>cur := cursor_reset cursor_init\<rparr>"
  have check: "base_check me (conn w) = Inr ()" using J by (simp add: block_inv_def)
  have "block_inv committed working effect me c0 tr ?w" using J by (simp add: block_inv_def)
  note post = block_execute [OF assms(1,2) this, of ps]
  have "execute_stmt (node_native C B) me (\<lambda>w. (admit w, w)) sql ps w =
      local_execute (node_native C B) (\<lambda>w. (admit w, w)) sql (PTuple ps) ?w"
    using check
    by (simp add: execute_stmt_def base_execute_def base_cursor_def cursor_execute_def cursor_prologue_def pbind_def
        open_check set_cur_def modify_s_def lift_res_def cursor_check_def view_of_def ret_def cursor_init_def)
  moreover have "block_inv committed working effect me c0 tr ?w" using J by (simp add: block_inv_def)
  ultimately show ?thesis
    using post by (auto simp: local_execute_def with_lane_def block_post_def)
qed

lemma block_run:
  assumes "sqlite_transactions C B committed working effect atomic"
  shows "prog_all atomic p \<Longrightarrow> block_inv committed working effect me c0 tr w \<Longrightarrow>
    run_prog (node_native C B) me (\<lambda>w. (admit w, w)) p tr w = (r, tr', w') \<Longrightarrow>
    r \<noteq> Blocked \<and> block_inv committed working effect me c0 tr' w'"
proof (induction p arbitrary: tr w)
  case (Exec sql ps k h)
  obtain q w1 where e: "execute_stmt (node_native C B) me (\<lambda>w. (admit w, w)) sql ps w = (q, w1)" by fastforce
  have "atomic sql" "prog_all atomic (k c)" "prog_all atomic (h x)" for c x using Exec.prems(1) by simp_all
  note sub = this
  note post = block_execute_stmt [OF assms sub(1) Exec.prems(2), of ps admit, unfolded e block_post_def]
  show ?case
  proof (cases q)
    case (Return u)
    with post e sub Exec.prems(3) show ?thesis by (intro Exec.IH(1) [of "k (cur w1)" "tr @ [(sql, ps)]" w1]) auto
  next
    case (Raise x)
    with post e sub Exec.prems(3) show ?thesis by (intro Exec.IH(2) [of "h x" tr w1]) auto
  next
    case Blocked
    with post show ?thesis by simp
  qed
qed auto

section \<open>The block is atomic\<close>

lemma commitLive_publishes:
  assumes "sqlite_transactions C B committed working effect atomic" and "commitLive C nd = (Inr c, nd')"
  shows "committed (nd_core nd') = working (nd_core nd)"
proof -
  obtain d d' n where v: "co_verify C (nd_core nd) = (Inr (), d)" and s: "co_seal C n d = (Inr c, d')" "nd_core nd' = d'"
    using assms(2)
    by (auto simp: commitLive_def Let_def and_then_def on_core_def split: if_splits prod.splits sum.splits)
  have "committed d' = working d" by (rule transaction_laws(6) [OF assms(1) s(1)])
  with v s(2) transaction_laws(5) [OF assms(1), of "nd_core nd"] show ?thesis by simp
qed

text \<open>Leaving the block: the commit of a body that returned, the rollback of one that raised.\<close>

lemma block_commit:
  assumes laws: "sqlite_transactions C B committed working effect atomic"
    and J: "block_inv committed working effect me c0 tr w"
    and r: "conn_exit (node_native C B) me (\<lambda>w. (admit w, w)) False w = (r, w')"
  shows "r \<noteq> Blocked \<and> (\<forall>b. r = Return b \<longrightarrow> \<not> b \<and> committed (nd_core (k_native (conn w'))) = log_effect effect tr c0 \<and>
      \<not> k_in_tx (conn w') \<and> \<not> nd_live_transaction (k_native (conn w')))"
proof -
  let ?nd = "k_native (conn w)"
  have check: "conn_check me w = (Return (), w)" "\<not> k_closed (conn w)" "k_transactional (conn w)" "k_stops (conn w) = 0"
    using J by (auto simp: block_inv_def open_check dest: open_not_closed)
  obtain q nd' where c: "commitLive C ?nd = (q, nd')" by fastforce
  have done_tx: "committed (nd_core nd') = log_effect effect tr c0 \<and> \<not> nd_live_transaction nd'"
    if "q = Inr v" "k_in_tx (conn w)" for v
    using that c J commitLive_publishes [OF laws] commitLive_ok by (fastforce simp: block_inv_def)
  show ?thesis
  proof (cases "k_in_tx (conn w) \<and> admit w")
    case True
    with r check c done_tx show ?thesis
      by (cases q) (auto simp: conn_exit_def conn_commit_def pbind_def if_in_tx_def with_lane_def commit_section_def
          call_native_running native_outcome_def node_native_def to_native_def set_in_tx_def set_conn_def modify_s_def ret_def)
  next
    case False
    with r check J show ?thesis
      by (cases "k_in_tx (conn w)")
        (auto simp: conn_exit_def conn_commit_def pbind_def if_in_tx_def with_lane_def ret_def block_inv_def)
  qed
qed

lemma block_rollback:
  assumes laws: "sqlite_transactions C B committed working effect atomic"
    and J: "block_inv committed working effect me c0 tr w"
    and r: "conn_exit (node_native C B) me (\<lambda>w. (admit w, w)) True w = (r, w')"
  shows "r \<noteq> Blocked \<and> committed (nd_core (k_native (conn w'))) = c0 \<and> (\<forall>b. r = Return b \<longrightarrow> \<not> b) \<and>
    (admit w \<longrightarrow> \<not> nd_live_transaction (k_native (conn w')))"
proof -
  let ?nd = "k_native (conn w)"
  have check: "conn_check me w = (Return (), w)" "\<not> k_closed (conn w)" "k_transactional (conn w)" "k_stops (conn w) = 0"
    using J by (auto simp: block_inv_def open_check dest: open_not_closed)
  obtain q nd' where c: "rollbackLive C ?nd = (q, nd')" by fastforce
  have nd: "committed (nd_core nd') = c0" "\<not> nd_live_transaction nd'"
    using c J rollbackLive_committed [OF transaction_laws(1) [OF laws], of ?nd] rollbackLive_ends [of C ?nd]
    by (simp_all add: node_committed_def block_inv_def)
  show ?thesis
  proof (cases "k_in_tx (conn w) \<and> admit w")
    case True
    with r check c nd show ?thesis
      by (cases q) (auto simp: conn_exit_def conn_rollback_def pbind_def if_in_tx_def with_lane_def rollback_section_def
          call_native_running native_outcome_def node_native_def to_native_def set_in_tx_def set_conn_def modify_s_def ret_def)
  next
    case False
    with r check J show ?thesis
      by (cases "k_in_tx (conn w)")
        (auto simp: conn_exit_def conn_rollback_def pbind_def if_in_tx_def with_lane_def ret_def block_inv_def)
  qed
qed


section \<open>A statement that ends the transaction\<close>

text \<open>
  A statement whose failure makes SQLite roll the transaction back, for instance a conflict under
  \<open>INSERT OR ROLLBACK\<close>, leaves \<open>_in_tx\<close> set although the node has closed its transaction: from then on the
  connection is wedged, and a surrounding with-block replaces the statement's exception by that of its
  own rollback.
\<close>

lemma aborted_statement_wedges:
  fixes w :: "'d node lworld" and C :: "'d core" and B :: "'d native" and read_only :: bool
  assumes conn: "base_check me (conn w) = Inr ()" "running w" "k_transactional (conn w)" "k_in_tx (conn w)"
    and live: "nd_live_transaction (k_native (conn w))" "\<not> co_fatal C (nd_core (k_native (conn w)))"
    and bound: "nul_free sql" "rmap bound_value (map pyval_of ps) = Inr cs" "valuesFromC cs (length ps) = Inr vs"
    and abort: "co_run C sql vs (nd_core (k_native (conn w))) = (Inl e, d)" "\<not> co_in_transaction C d"
  defines "N \<equiv> node_native C B"
  defines "w1 \<equiv> snd (live_statement N sql ps read_only w)"
  shows "in_transaction w1 \<and> \<not> nd_live_transaction (k_native (conn w1)) \<and>
    (\<exists>e. conn_rollback N me (\<lambda>w. (True, w)) w1 = (Raise e, w1)) \<and>
    (\<exists>e'. with_block N me (\<lambda>w. (True, w)) (\<lambda>_. (Raise e0, w1)) w = (Raise e', w1))"
proof -
  let ?nd = "(k_native (conn w))\<lparr>nd_core := d, nd_live_transaction := False\<rparr>"
  have x: "live_exec_native C sql ps (k_native (conn w)) = (Inl (ZxErr (co_error C e)), ?nd)"
    using live bound abort
    by (simp add: live_exec_native_def zx_live_exec_def statement_exact zaxonlite_live_exec_def to_native_def
        liveExec_def Let_def on_core_def)
  have w1: "w1 = w\<lparr>conn := (conn w)\<lparr>k_native := ?nd\<rparr>\<rparr>"
    using conn x
    by (simp add: w1_def live_statement_def pbind_def begin_if_needed_def ret_def call_native_running running_def
        N_def node_native_def native_outcome_def)
  have open1: "base_check me (conn w1) = Inr ()" "running w1" "k_transactional (conn w1)" "k_in_tx (conn w1)"
    "\<not> nd_live_transaction (k_native (conn w1))"
    using conn by (simp_all add: w1 base_check_def running_def)
  from stale_flag_wedges [OF open1, of C B sql ps read_only] obtain z where
    "conn_rollback N me (\<lambda>w. (True, w)) w1 = (Raise z, w1)" by (auto simp: N_def)
  with open1 conn(1) open_not_closed [OF open1(1)] show ?thesis
    by (simp add: with_block_def pbind_def conn_enter_def open_check conn_exit_def in_transaction_def)
qed

section \<open>A concrete block\<close>

text \<open>
  The node of \<open>Zx_Sections\<close> with a database that stores the integers bound to its writes and refuses NULL
  as a constraint violation. The body inserts 5, catches the failure of inserting NULL, reads, and
  inserts 6.
\<close>

fun block_row :: "nvalue list \<Rightarrow> int option" where
  "block_row [IntegerValue n] = Some (sint n)"
| "block_row _ = None"

definition block_effect :: "string \<Rightarrow> nvalue list \<Rightarrow> int list \<Rightarrow> int list" where
  "block_effect sql vs xs = (if guess_is_write sql then xs @ (case block_row vs of None \<Rightarrow> [] | Some i \<Rightarrow> [i]) else xs)"

definition block_working :: "demo \<Rightarrow> int list" where
  "block_working d = (case dm_work d of None \<Rightarrow> dm_committed d | Some xs \<Rightarrow> xs)"

definition block_core :: "demo core" where
  "block_core = (demo_core True)\<lparr>co_run := (\<lambda>sql vs d.
     if dm_work d = None \<or> guess_is_write sql \<and> block_row vs = None then (Inl (CoreError 19), d)
     else (Inr None, d\<lparr>dm_work := map_option (block_effect sql vs) (dm_work d)\<rparr>))\<rparr>"

definition block_prog :: prog where
  "block_prog =
    Exec ''insert into t values (?)'' [PInt 5] (\<lambda>_.
    Exec ''insert into t values (?)'' [PNone] (\<lambda>_. Done) (\<lambda>_.
    Exec ''select 1'' [] (\<lambda>_.
    Exec ''insert into t values (?)'' [PInt 6] (\<lambda>_. Done) Fail) Fail)) Fail"

lemma block_laws: "sqlite_transactions block_core demo_base dm_committed block_working block_effect (\<lambda>_. True)"
  unfolding sqlite_transactions_def
proof (intro conjI)
  show "sqlite_isolated block_core demo_base dm_committed"
    by (auto simp: sqlite_isolated_def block_core_def demo_core_def demo_base_def)
qed (auto simp: block_core_def demo_core_def demo_base_def block_working_def block_effect_def split: if_splits option.splits)


end
