(* ===== verification/Zx_Stack.thy ===== *)
theory Zx_Stack
  imports Zx_Native
begin

text \<open>
  \<open>_NativeWorker.__init__\<close> of \<open>dbapi.py\<close>: the thread of a worker is started with a 32 MiB stack by changing
  the process-wide \<open>threading.stack_size\<close>, starting the thread and changing it back, all under
  \<open>_STACK_SIZE_LOCK\<close>.

  Any number of threads construct workers at the same time. \<open>spawn_do\<close> is one atomic action of one of
  them: taking the lock, the first call of \<open>stack_size\<close>, starting the thread, the call in the \<open>finally\<close>
  clause, leaving the \<open>with\<close> block. The environment decides whether \<open>stack_size\<close> accepts the value and
  whether the operating system can start a thread. A thread started by other code meanwhile
  (\<open>foreign_start\<close>) takes the own in force at that moment.
\<close>

section \<open>The constructor\<close>

definition native_stack_bytes :: int where
  "native_stack_bytes = 32 * 1024 * 1024"

text \<open>Where a constructor is: the saved own, and the exception that is on its way out.\<close>

datatype spawn_pc =
    Outside | Locked | Swapped int | Restoring int "pyexc option" | Leaving "pyexc option" | Finished "pyexc option"

record spawner =
  sp_size :: int
  sp_lock :: "nat option"
  sp_pc :: "nat \<Rightarrow> spawn_pc"
  sp_workers :: "(nat \<times> int) list"
  sp_foreign :: "int list"

definition spawn_init :: "int \<Rightarrow> spawner" where
  "spawn_init own = \<lparr>sp_size = own, sp_lock = None, sp_pc = (\<lambda>_. Outside), sp_workers = [], sp_foreign = []\<rparr>"

text \<open>What the runtime answers: the errors of \<open>stack_size\<close> and of \<open>Thread.start\<close>.\<close>

record runtime =
  rt_set :: "pyexc option"
  rt_start :: "pyexc option"

definition goto_pc :: "nat \<Rightarrow> spawn_pc \<Rightarrow> spawner \<Rightarrow> spawner" where
  "goto_pc t pc s = s\<lparr>sp_pc := (sp_pc s)(t := pc)\<rparr>"

text \<open>One action of thread \<open>t\<close>; \<open>None\<close> when it has to wait for the lock or is finished.\<close>

definition spawn_do :: "runtime \<Rightarrow> nat \<Rightarrow> spawner \<Rightarrow> spawner option" where
  "spawn_do rt t s =
    (case sp_pc s t of
       Outside \<Rightarrow> if sp_lock s = None then Some (goto_pc t Locked (s\<lparr>sp_lock := Some t\<rparr>)) else None
     | Locked \<Rightarrow>
         (case rt_set rt of
            Some e \<Rightarrow> Some (goto_pc t (Leaving (Some e)) s)
          | None \<Rightarrow> Some (goto_pc t (Swapped (sp_size s)) (s\<lparr>sp_size := native_stack_bytes\<rparr>)))
     | Swapped previous \<Rightarrow>
         (case rt_start rt of
            Some e \<Rightarrow> Some (goto_pc t (Restoring previous (Some e)) s)
          | None \<Rightarrow> Some (goto_pc t (Restoring previous None) (s\<lparr>sp_workers := sp_workers s @ [(t, sp_size s)]\<rparr>)))
     | Restoring previous e \<Rightarrow> Some (goto_pc t (Leaving e) (s\<lparr>sp_size := previous\<rparr>))
     | Leaving e \<Rightarrow> Some (goto_pc t (Finished e) (s\<lparr>sp_lock := None\<rparr>))
     | Finished e \<Rightarrow> None)"

definition foreign_start :: "spawner \<Rightarrow> spawner" where
  "foreign_start s = s\<lparr>sp_foreign := sp_foreign s @ [sp_size s]\<rparr>"

inductive spawn_step :: "spawner \<Rightarrow> spawner \<Rightarrow> bool" where
  step_own: "spawn_do rt t s = Some s' \<Longrightarrow> spawn_step s s'"
| step_foreign: "spawn_step s (foreign_start s)"

inductive_cases spawn_stepE: "spawn_step s s'"

section \<open>The invariant\<close>

text \<open>The own a constructor has saved and not yet put back.\<close>

fun saved_size :: "spawn_pc \<Rightarrow> int option" where
  "saved_size (Swapped previous) = Some previous"
| "saved_size (Restoring previous e) = Some previous"
| "saved_size _ = None"

definition in_section :: "spawn_pc \<Rightarrow> bool" where
  "in_section pc \<longleftrightarrow> (case pc of Outside \<Rightarrow> False | Finished _ \<Rightarrow> False | _ \<Rightarrow> True)"

text \<open>The constructor has started its thread.\<close>

fun started :: "spawn_pc \<Rightarrow> bool" where
  "started (Restoring previous e) = (e = None)"
| "started (Leaving e) = (e = None)"
| "started (Finished e) = (e = None)"
| "started _ = False"

text \<open>
  Exactly the holder of the lock is between its first and last action; the stack size is the process's own
  except while the holder has it saved, and then it is the enlarged one; the workers are those of
  the constructors that got past the start, one each.
\<close>

definition spawn_inv :: "int \<Rightarrow> spawner \<Rightarrow> bool" where
  "spawn_inv own s \<longleftrightarrow>
     (\<forall>t. in_section (sp_pc s t) \<longleftrightarrow> sp_lock s = Some t) \<and>
     (case sp_lock s of
        None \<Rightarrow> sp_size s = own
      | Some t \<Rightarrow> (case saved_size (sp_pc s t) of
          None \<Rightarrow> sp_size s = own
        | Some previous \<Rightarrow> previous = own \<and> sp_size s = native_stack_bytes)) \<and>
     distinct (map fst (sp_workers s)) \<and>
     (\<forall>t n. (t, n) \<in> set (sp_workers s) \<longleftrightarrow> started (sp_pc s t) \<and> n = native_stack_bytes) \<and>
     set (sp_foreign s) \<subseteq> {own, native_stack_bytes}"

lemma spawn_inv_init: "spawn_inv own (spawn_init own)"
  by (simp add: spawn_inv_def spawn_init_def in_section_def)

lemma spawn_do_inv:
  assumes "spawn_inv own s" and "spawn_do rt t s = Some s'"
  shows "spawn_inv own s'"
proof -
  have holder: "in_section (sp_pc s u) \<longleftrightarrow> sp_lock s = Some u" for u using assms(1) by (simp add: spawn_inv_def)
  have new: "\<not> started (sp_pc s t) \<Longrightarrow> t \<notin> fst ` set (sp_workers s)"
    using assms(1) by (auto simp: spawn_inv_def)
  show ?thesis
    using assms holder [of t] new
    by (cases "sp_pc s t") (auto simp: spawn_inv_def spawn_do_def goto_pc_def in_section_def split: option.splits if_splits)
qed

interpretation spawn: state_machine "\<lambda>s. s = spawn_init own" spawn_step "spawn_inv own" for own
proof unfold_locales
  show "s = spawn_init own \<Longrightarrow> spawn_inv own s" for s by (simp add: spawn_inv_init)
  show "spawn_inv own s \<Longrightarrow> spawn_step s s' \<Longrightarrow> spawn_inv own s'" for s s'
  proof (erule spawn_stepE)
    assume "spawn_inv own s" "s' = foreign_start s"
    then show "spawn_inv own s'"
      by (auto simp: spawn_inv_def foreign_start_def split: option.splits)
  qed (rule spawn_do_inv)
qed

text \<open>The holder of the lock needs no other thread to get out, whatever the runtime answers.\<close>

fun spawn_rank :: "spawn_pc \<Rightarrow> nat" where
  "spawn_rank Outside = 5"
| "spawn_rank Locked = 4"
| "spawn_rank (Swapped _) = 3"
| "spawn_rank (Restoring _ _) = 2"
| "spawn_rank (Leaving _) = 1"
| "spawn_rank (Finished _) = 0"

lemma holder_moves:
  assumes "in_section (sp_pc s t)"
  shows "\<exists>s'. spawn_do rt t s = Some s' \<and> spawn_rank (sp_pc s' t) < spawn_rank (sp_pc s t)"
  using assms by (cases "sp_pc s t") (auto simp: spawn_do_def goto_pc_def in_section_def split: option.splits)

fun spawn_run :: "(nat \<Rightarrow> runtime) \<Rightarrow> nat \<Rightarrow> nat \<Rightarrow> spawner \<Rightarrow> spawner" where
  "spawn_run rts t 0 s = s"
| "spawn_run rts t (Suc n) s = (case spawn_do (rts n) t s of None \<Rightarrow> s | Some s' \<Rightarrow> spawn_run rts t n s')"

lemma spawn_run_inv: "spawn_inv own s \<Longrightarrow> spawn_inv own (spawn_run rts t n s)"
  by (induction n arbitrary: s) (auto split: option.splits intro: spawn_do_inv)

lemma holder_leaves:
  assumes "spawn_inv own s" and "sp_lock s = Some t" and "spawn_rank (sp_pc s t) \<le> n"
  shows "sp_lock (spawn_run rts t n s) = None"
  using assms
proof (induction n arbitrary: s)
  case 0
  then have "in_section (sp_pc s t)" by (simp add: spawn_inv_def)
  with 0 show ?case by (cases "sp_pc s t") (simp_all add: in_section_def)
next
  case (Suc n)
  then have "in_section (sp_pc s t)" by (simp add: spawn_inv_def)
  from holder_moves [OF this, of "rts n"] obtain s' where
    s': "spawn_do (rts n) t s = Some s'" "spawn_rank (sp_pc s' t) < spawn_rank (sp_pc s t)" by blast
  have inv: "spawn_inv own s'" by (rule spawn_do_inv [OF Suc.prems(1) s'(1)])
  show ?case
  proof (cases "sp_lock s'")
    case None
    with inv have "\<not> in_section (sp_pc s' t)" by (simp add: spawn_inv_def)
    with None s'(2) have "spawn_do rt t s' = None" for rt
      using Suc.prems(1,2) s'(1) \<open>in_section (sp_pc s t)\<close>
      by (cases "sp_pc s t") (auto simp: spawn_do_def goto_pc_def in_section_def split: option.splits)
    then have "spawn_run rts t n s' = s'" by (cases n) simp_all
    with s'(1) None show ?thesis by simp
  next
    case (Some u)
    with Suc.prems(1,2) s'(1) have "u = t"
      by (cases "sp_pc s t") (auto simp: spawn_do_def goto_pc_def split: option.splits if_splits)
    with Suc.IH [OF inv] Some s' Suc.prems(3) show ?thesis by simp
  qed
qed

lemma filter_key:
  "distinct (map fst xs) \<Longrightarrow> filter (\<lambda>w. fst w = k) xs = (case map_of xs k of None \<Rightarrow> [] | Some v \<Rightarrow> [(k, v)])"
  by (induction xs) (force simp: filter_empty_conv map_of_eq_None_iff split: option.splits)+

lemma worker_of:
  assumes "spawn_inv own s"
  shows "map_of (sp_workers s) t = (if started (sp_pc s t) then Some native_stack_bytes else None)"
  using assms by (auto simp: spawn_inv_def map_of_eq_None_iff)

text \<open>
  C31. However many threads construct workers at once, and whether or not the runtime refuses the
  stack size or the thread: every worker thread that exists has the 32 MiB stack, a constructor that
  returned has exactly one worker and one that raised has none, the process-wide stack size is the
  original one whenever no constructor holds the lock, and a constructor that holds it releases it
  by its own next four actions.
\<close>

theorem stack_size_restored:
  assumes "spawn_step\<^sup>*\<^sup>* (spawn_init own) s"
  shows "(\<forall>t e. sp_pc s t = Finished e \<longrightarrow>
      filter (\<lambda>w. fst w = t) (sp_workers s) = (if e = None then [(t, native_stack_bytes)] else [])) \<and>
    (\<forall>n \<in> snd ` set (sp_workers s). n = native_stack_bytes) \<and>
    (sp_lock s = None \<longrightarrow> sp_size s = own) \<and>
    (\<forall>t rts. sp_lock s = Some t \<longrightarrow>
       sp_lock (spawn_run rts t 4 s) = None \<and> sp_size (spawn_run rts t 4 s) = own)"
proof -
  have inv: "spawn_inv own s" by (rule spawn.reachable_inv [OF refl assms])
  have rank: "sp_lock s = Some t \<Longrightarrow> spawn_rank (sp_pc s t) \<le> 4" for t
  proof -
    assume "sp_lock s = Some t"
    with inv have "in_section (sp_pc s t)" by (simp add: spawn_inv_def)
    then show "spawn_rank (sp_pc s t) \<le> 4" by (cases "sp_pc s t") (simp_all add: in_section_def)
  qed
  have "sp_lock s = Some t \<Longrightarrow> sp_lock (spawn_run rts t 4 s) = None \<and> sp_size (spawn_run rts t 4 s) = own" for t rts
    using holder_leaves [OF inv _ rank, of t rts] spawn_run_inv [OF inv, of rts t 4] by (simp add: spawn_inv_def)
  moreover have "filter (\<lambda>w. fst w = t) (sp_workers s) = (if e = None then [(t, native_stack_bytes)] else [])"
    if "sp_pc s t = Finished e" for t e
    using inv worker_of [OF inv, of t] that by (simp add: spawn_inv_def filter_key)
  ultimately show ?thesis using inv by (auto simp: spawn_inv_def)
qed

section \<open>A concrete history\<close>

lemma spawn_run_reach: "spawn_step\<^sup>*\<^sup>* s (spawn_run rts t n s)"
  by (induction n arbitrary: s) (auto split: option.splits intro: converse_rtranclp_into_rtranclp step_own)

text \<open>Thread 1 gets its worker; thread 2 cannot start one; thread 3 is between the two calls of \<open>stack_size\<close>.\<close>

definition spawn_demo :: spawner where
  "spawn_demo =
    (let fine = \<lparr>rt_set = None, rt_start = None\<rparr>;
         full = \<lparr>rt_set = None, rt_start = Some (exc PyRuntimeError ''can't start new thread'')\<rparr> in
     spawn_run (\<lambda>_. fine) 3 2 (spawn_run (\<lambda>_. full) 2 5 (spawn_run (\<lambda>_. fine) 1 5 (spawn_init 0))))"

lemma spawn_demo_eval:
  "sp_pc spawn_demo 1 = Finished None" "sp_lock spawn_demo = Some 3" "sp_size spawn_demo = native_stack_bytes"
  "sp_pc spawn_demo 2 = Finished (Some (exc PyRuntimeError ''can't start new thread''))"
  by (simp_all add: spawn_demo_def Let_def spawn_init_def spawn_do_def goto_pc_def eval_nat_numeral)

theorem stack_size_restored_witness:
  "spawn_step\<^sup>*\<^sup>* (spawn_init 0) spawn_demo \<and>
    filter (\<lambda>w. fst w = 1) (sp_workers spawn_demo) = [(1, native_stack_bytes)] \<and>
    filter (\<lambda>w. fst w = 2) (sp_workers spawn_demo) = [] \<and>
    sp_size spawn_demo = native_stack_bytes \<and>
    (\<forall>rts. sp_size (spawn_run rts 3 4 spawn_demo) = 0)"
proof -
  have reach: "spawn_step\<^sup>*\<^sup>* (spawn_init 0) spawn_demo"
    unfolding spawn_demo_def Let_def by (meson spawn_run_reach rtranclp_trans)
  from stack_size_restored [OF reach] reach spawn_demo_eval show ?thesis by auto
qed

end
