(* ===== verification/Zx_Version.thy ===== *)
theory Zx_Version
  imports Zx_Node
begin

text \<open>
  Version numbers: \<open>int(...)\<close> of an arbitrary text as the interpreter parses it, the version gate
  \<open>_check_native_version\<close> that \<open>__init__.py\<close> runs on import, and \<open>_get_server_version_info\<close> of the
  SQLAlchemy dialect, which reads SQLite's version the same way. The text itself comes from the native
  module (\<open>_zxlite.version()\<close>) or from a query and is the argument of both.
\<close>

section \<open>Integers in text\<close>

text \<open>
  \<open>int(s)\<close> strips white space: C's \<open>isspace\<close> in a pure ASCII text, Python's otherwise. Then come an
  optional sign and decimal digits, with single underscores allowed between two digits.
\<close>

definition c_isspace :: "char \<Rightarrow> bool" where
  "c_isspace c = (let n = ord_of c in (9 \<le> n \<and> n \<le> 13) \<or> n = 32)"

definition strip_by :: "(char \<Rightarrow> bool) \<Rightarrow> string \<Rightarrow> string" where
  "strip_by p s = rev (dropWhile p (rev (dropWhile p s)))"

definition int_strip :: "string \<Rightarrow> string" where
  "int_strip s = strip_by (if list_all (\<lambda>c. ord_of c < 128) s then c_isspace else py_isspace) s"

text \<open>The digits without their underscores, \<open>None\<close> if one is misplaced.\<close>

fun drop_underscores :: "string \<Rightarrow> string option" where
  "drop_underscores [] = None"
| "drop_underscores [c] = (if c = CHR ''_'' then None else Some [c])"
| "drop_underscores (c # d # s) =
    (if c = CHR ''_'' then None
     else if d = CHR ''_'' then map_option (\<lambda>t. c # t) (drop_underscores s)
     else map_option (\<lambda>t. c # t) (drop_underscores (d # s)))"

definition py_int_text :: "string \<Rightarrow> int option" where
  "py_int_text s =
    (let t = int_strip s;
         negative = startswith t ''-'';
         u = (if negative \<or> startswith t ''+'' then tl t else t)
     in case drop_underscores u of None \<Rightarrow> None
        | Some ds \<Rightarrow> map_option (\<lambda>n. if negative then - n else n) (py_int ds))"

definition version_parts :: "string list \<Rightarrow> int list option" where
  "version_parts parts =
    (if list_all (\<lambda>p. py_int_text p \<noteq> None) parts then Some (map (\<lambda>p. the (py_int_text p)) parts) else None)"

section \<open>The version gate\<close>

definition expected_native_version :: "int list" where
  "expected_native_version = [0, 7]"

definition check_native_version :: "string \<Rightarrow> unit pyres" where
  "check_native_version text =
    (let found = (case version_parts (take 2 (py_split (CHR ''.'') text)) of None \<Rightarrow> [] | Some ns \<Rightarrow> ns)
     in raise_if (found \<noteq> expected_native_version) (exc PyImportError ''zxlite 0.7.0 expects native zaxonlite 0.7.x, but the loaded library reports '')
       (Inr ()))"

text \<open>\<open>_get_server_version_info\<close>, given the scalar of \<open>select sqlite_version()\<close>.\<close>

definition get_server_version_info :: "string \<Rightarrow> int list pyres" where
  "get_server_version_info text =
    (case version_parts (py_split (CHR ''.'') text) of
       None \<Rightarrow> Inl (exc PyValueError ''invalid literal for int() with base 10: '')
     | Some ns \<Rightarrow> Inr ns)"

text \<open>The SQLite version the driver announces, and the tuple SQLAlchemy reads for feature gating.\<close>

definition sqlite_version :: string where
  "sqlite_version = ''3.50.4''"

definition sqlite_version_info :: "int list" where
  "sqlite_version_info = [3, 50, 4]"

lemma announced_version_consistent: "get_server_version_info sqlite_version = Inr sqlite_version_info"
  by code_simp

section \<open>Printing and parsing\<close>

definition version_text :: "nat list \<Rightarrow> string" where
  "version_text ns = py_join (CHR ''.'') (map digits_of ns)"

lemma digits_of_ascii: "list_all ascii_digit (digits_of n)"
proof (induction n rule: digits_of.induct)
  case (1 n)
  have "ascii_digit (char_of (m + 48))" if "m < 10" for m :: nat using that by (simp add: ascii_digit_def)
  with 1 show ?case by (subst digits_of.simps) auto
qed

lemma digits_of_nonempty [simp]: "digits_of n \<noteq> []"
  by (subst digits_of.simps) simp

lemma decimal_value_append:
  "decimal_value acc (s @ t) = (case decimal_value acc s of None \<Rightarrow> None | Some n \<Rightarrow> decimal_value n t)"
  by (induction s arbitrary: acc) auto

lemma decimal_value_digits: "decimal_value 0 (digits_of n) = Some (int n)"
proof (induction n rule: digits_of.induct)
  case (1 n)
  then show ?case
    by (subst digits_of.simps) (auto simp: decimal_value_append ascii_digit_def of_nat_div of_nat_mod)
qed

lemma digits_of_inj: "digits_of m = digits_of n \<longleftrightarrow> m = n"
  by (metis decimal_value_digits of_nat_eq_iff option.inject)

lemma digits_of_length: "n < 10 ^ k \<Longrightarrow> 0 < k \<Longrightarrow> length (digits_of n) \<le> k"
proof (induction k arbitrary: n)
  case (Suc k)
  show ?case
  proof (cases "n < 10")
    case False
    with Suc.prems have "n div 10 < 10 ^ k" and "0 < k" by (auto simp: less_mult_imp_div_less mult.commute intro: gr0I)
    with Suc.IH False show ?thesis by (subst digits_of.simps) simp
  qed (subst digits_of.simps, simp)
qed simp

lemma digit_classes:
  "ascii_digit c \<Longrightarrow> \<not> c_isspace c \<and> c \<noteq> CHR ''_'' \<and> c \<noteq> CHR ''-'' \<and> c \<noteq> CHR ''+'' \<and> c \<noteq> CHR ''.'' \<and> ord_of c < 128"
  by (auto simp: ascii_digit_def c_isspace_def Let_def ord_of_def)

lemma drop_underscores_digits: "s \<noteq> [] \<Longrightarrow> list_all ascii_digit s \<Longrightarrow> drop_underscores s = Some s"
  by (induction s rule: drop_underscores.induct) (auto dest: digit_classes)

lemma dropWhile_head: "s \<noteq> [] \<Longrightarrow> \<not> p (hd s) \<Longrightarrow> dropWhile p s = s"
  by (cases s) auto

lemma strip_by_id: "s \<noteq> [] \<Longrightarrow> \<not> p (hd s) \<Longrightarrow> \<not> p (last s) \<Longrightarrow> strip_by p s = s"
  by (simp only: strip_by_def dropWhile_head rev_is_Nil_conv hd_rev rev_rev_ident not_False_eq_True)

lemma int_strip_digits:
  assumes "s \<noteq> []" and "list_all ascii_digit s"
  shows "int_strip s = s"
proof -
  from assms(2) have "list_all (\<lambda>c. ord_of c < 128) s" by (auto simp: list_all_iff dest: digit_classes)
  moreover from assms have "\<not> c_isspace (hd s)" "\<not> c_isspace (last s)"
    by (simp_all add: list_all_iff digit_classes)
  ultimately show ?thesis using assms(1) by (simp add: int_strip_def strip_by_id)
qed

lemma py_int_text_digits:
  assumes "length (digits_of n) \<le> 4300"
  shows "py_int_text (digits_of n) = Some (int n)"
proof -
  let ?s = "digits_of n"
  have "ascii_digit (hd ?s)" using digits_of_ascii [of n] by (simp add: list_all_iff)
  then have sign: "\<not> startswith ?s ''-''" "\<not> startswith ?s ''+''"
    by (cases ?s; auto dest: digit_classes)+
  from assms sign show ?thesis
    by (simp add: py_int_text_def int_strip_digits digits_of_ascii drop_underscores_digits py_int_def
        decimal_value_digits)
qed

lemma digits_of_no_dot: "CHR ''.'' \<notin> set (digits_of n)"
  using digits_of_ascii [of n] digit_classes by (auto simp: list_all_iff)

lemma version_split: "ns \<noteq> [] \<Longrightarrow> py_split (CHR ''.'') (version_text ns) = map digits_of ns"
  unfolding version_text_def by (rule py_split_join) (auto simp: digits_of_no_dot)

lemma version_parts_digits:
  "(\<And>n. n \<in> set ns \<Longrightarrow> length (digits_of n) \<le> 4300) \<Longrightarrow> version_parts (map digits_of ns) = Some (map int ns)"
  by (simp add: version_parts_def list_all_iff py_int_text_digits)

text \<open>
  Version texts are read back: for components of at most 4300 digits the dialect returns
  exactly the numbers that were printed, and the import gate accepts a native version exactly when its major
  and minor numbers are 0 and 7, whatever follows.
\<close>

lemma version_roundtrip:
  assumes "\<forall>n \<in> set ns. length (digits_of n) \<le> 4300" and "ns \<noteq> []"
  shows "get_server_version_info (version_text ns) = Inr (map int ns) \<and>
    (check_native_version (version_text ns) = Inr () \<longleftrightarrow> take 2 ns = [0, 7])"
proof -
  have "version_parts (map digits_of ns) = Some (map int ns)"
    "version_parts (map digits_of (take 2 ns)) = Some (map int (take 2 ns))"
    using assms(1) by (auto intro!: version_parts_digits dest: in_set_takeD)
  moreover have "map int (take 2 ns) = [0, 7] \<longleftrightarrow> take 2 ns = [0, 7]"
    by (auto simp: map_eq_Cons_conv)
  ultimately show ?thesis
    using assms(2)
    by (simp add: get_server_version_info_def check_native_version_def version_split take_map Let_def
        expected_native_version_def raise_if_Inr_iff)
qed

lemma version_roundtrip_example:
  "get_server_version_info ''3.51.0'' = Inr [3, 51, 0] \<and>
   check_native_version ''0.7.3'' = Inr () \<and> check_native_version ''0.70.3'' \<noteq> Inr ()"
proof -
  have t: "version_text [3, 51, 0] = ''3.51.0''" "version_text [0, 7, 3] = ''0.7.3''"
    "version_text [0, 70, 3] = ''0.70.3''" and
    l: "\<forall>n \<in> set [3, 51, 0 :: nat]. length (digits_of n) \<le> 4300"
    "\<forall>n \<in> set [0, 7, 3 :: nat]. length (digits_of n) \<le> 4300"
    "\<forall>n \<in> set [0, 70, 3 :: nat]. length (digits_of n) \<le> 4300"
    by code_simp+
  from version_roundtrip [OF l(1)] version_roundtrip [OF l(2)] version_roundtrip [OF l(3)]
  show ?thesis unfolding t by simp
qed

end
