(* ===== verification/Zx_Dialect.thy ===== *)
theory Zx_Dialect
  imports Zx_Local Zx_Version
begin

text \<open>
  The SQLAlchemy dialect \<open>sqlalchemy.py\<close>: pool choice, the translation of a URL into the arguments of
  \<open>zxlite.connect\<close>, the isolation hooks and the savepoint hooks.

  A \<open>sa_url\<close> holds the attributes of SQLAlchemy's \<open>URL\<close> the dialect reads; \<open>u_query\<close> is
  \<open>normalized_query\<close>, an ordered dictionary from keys to lists of values. \<open>urllib.parse.quote\<close> is
  modelled as the standard library implements it. The two attributes the savepoint hooks keep in
  the \<open>__dict__\<close> of the raw connection are fields of \<open>sa_conn\<close> next to the connection itself; \<open>Zx_Savepoints\<close> relates them to SQLite's
  savepoint stack.
\<close>

section \<open>URLs\<close>

record sa_url =
  u_username :: "string option"
  u_password :: "string option"
  u_host :: "string option"
  u_database :: "string option"
  u_query :: "(string \<times> string list) list"

definition truthy :: "string option \<Rightarrow> bool" where
  "truthy v = (case v of None \<Rightarrow> False | Some s \<Rightarrow> s \<noteq> [])"

definition is_remote_url :: "sa_url \<Rightarrow> bool" where
  "is_remote_url url = (''seed'' \<in> fst ` set (u_query url))"

datatype pool_class = StaticPool | NullPool

definition get_pool_class :: "sa_url \<Rightarrow> pool_class" where
  "get_pool_class url = (if is_remote_url url then StaticPool else NullPool)"

text \<open>The isolation settings of a dialect object: \<open>_on_connect_isolation_level\<close> and \<open>isolation_level\<close>.\<close>

record dialect =
  di_on_connect :: "string option"
  di_isolation_level :: "string option"

definition requested_level :: "dialect \<Rightarrow> string option" where
  "requested_level d = (if truthy (di_on_connect d) then di_on_connect d else di_isolation_level d)"

text \<open>\<open>urllib.parse.quote(value, safe="")\<close>: the UTF-8 bytes, escaped unless unreserved.\<close>

definition unreserved :: "nat \<Rightarrow> bool" where
  "unreserved b = ((48 \<le> b \<and> b \<le> 57) \<or> (65 \<le> b \<and> b \<le> 90) \<or> (97 \<le> b \<and> b \<le> 122) \<or> b \<in> {45, 46, 95, 126})"

definition upper_hex :: "nat \<Rightarrow> char" where
  "upper_hex n = char_of (if n < 10 then n + 48 else n + 55)"

definition quote_byte :: "nat \<Rightarrow> string" where
  "quote_byte b = (if unreserved b then [char_of b] else [CHR ''%'', upper_hex (b div 16), upper_hex (b mod 16)])"

definition quote :: "string \<Rightarrow> string" where
  "quote s = concat (map quote_byte (concat (map utf8_encode_char s)))"

type_synonym kwargs = "(string \<times> pyobj) list"

definition create_local_connect_args :: "dialect \<Rightarrow> sa_url \<Rightarrow> (string \<times> kwargs) pyres" where
  "create_local_connect_args d url =
    raise_if (truthy (u_host url))
      (exc SAArgumentError ''remote zxlite SQLAlchemy URLs use the zxlite:///?seed=... query form, not a host'')
    (raise_if (u_query url \<noteq> []) (exc SAArgumentError ''local zxlite URLs accept no query options'')
    (let database = (case u_database url of None \<Rightarrow> [] | Some p \<Rightarrow> p) in
     raise_if (database = [])
       (exc SAArgumentError ''local zxlite URLs need a data directory path: zxlite:///relative or zxlite:////absolute'')
     (Inr (database,
        if requested_level d = Some ''AUTOCOMMIT'' then []
        else [(''isolation_level'', PStr ''DEFERRED''), (''autocommit'', PBool False)]))))"

definition query_pairs :: "(string \<times> string list) list \<Rightarrow> (string \<times> string) list" where
  "query_pairs q = concat (map (\<lambda>(key, vals). map (\<lambda>v. (key, v)) vals) q)"

definition dsn_pair :: "string \<times> string \<Rightarrow> string" where
  "dsn_pair kv = fst kv @ ''='' @ quote (snd kv)"

definition create_remote_connect_args :: "dialect \<Rightarrow> sa_url \<Rightarrow> (string \<times> kwargs) pyres" where
  "create_remote_connect_args d url =
    raise_if (truthy (u_host url) \<or> truthy (u_database url))
      (exc SAArgumentError ''remote zxlite URLs must keep seeds in the query string: zxlite:///?seed=host%3Aport&...'')
    (raise_if (requested_level d \<noteq> Some ''AUTOCOMMIT'')
      (exc SAArgumentError ''remote zxlite engines require isolation_level='AUTOCOMMIT'; transactions need a local Gate C connection'')
    (Inr (''zxlite:///?'' @ py_join (CHR ''&'') (map dsn_pair (query_pairs (u_query url))), [])))"

definition create_connect_args :: "dialect \<Rightarrow> sa_url \<Rightarrow> (string \<times> kwargs) pyres" where
  "create_connect_args d url =
    raise_if (truthy (u_username url) \<or> truthy (u_password url))
      (exc SAArgumentError ''zxlite URLs carry no credentials; use connect_args for auth_file and TLS paths'')
    (if is_remote_url url then create_remote_connect_args d url else create_local_connect_args d url)"

text \<open>The keyword arguments the dialect passes on to \<open>zxlite.connect\<close>.\<close>

definition with_kwargs :: "kwargs \<Rightarrow> connect_args" where
  "with_kwargs kw = connect_defaults
    \<lparr>a_isolation_level := (case map_of kw ''isolation_level'' of Some (PStr s) \<Rightarrow> Some s | _ \<Rightarrow> None),
     a_autocommit := (case map_of kw ''autocommit'' of Some (PBool b) \<Rightarrow> b | _ \<Rightarrow> True)\<rparr>"

section \<open>Isolation hooks\<close>

definition get_isolation_level :: "plan \<Rightarrow> string" where
  "get_isolation_level p = (case p of PlanRemote _ \<Rightarrow> ''AUTOCOMMIT'' | PlanLocal _ \<Rightarrow> ''SERIALIZABLE'')"

definition get_isolation_level_values :: "string list" where
  "get_isolation_level_values = [''AUTOCOMMIT'', ''SERIALIZABLE'']"

text \<open>\<open>set_isolation_level\<close> does nothing: the mode is the one the connection was opened with.\<close>

definition set_isolation_level :: "plan \<Rightarrow> string \<Rightarrow> plan" where
  "set_isolation_level p level = p"

section \<open>Savepoint hooks\<close>

record 'n sa_conn =
  sa_raw :: "'n lworld"
  sa_counter :: int
  sa_ids :: "(string \<times> int) list"

definition on_raw :: "('n lworld, 'a) py \<Rightarrow> ('n sa_conn, 'a) py" where
  "on_raw m w = (case m (sa_raw w) of (r, x) \<Rightarrow> (r, w\<lparr>sa_raw := x\<rparr>))"

definition dict_set :: "'k \<Rightarrow> 'v \<Rightarrow> ('k \<times> 'v) list \<Rightarrow> ('k \<times> 'v) list" where
  "dict_set k v d = (k, v) # filter (\<lambda>(k', _). k' \<noteq> k) d"

definition dict_del :: "'k \<Rightarrow> ('k \<times> 'v) list \<Rightarrow> ('k \<times> 'v) list" where
  "dict_del k d = filter (\<lambda>(k', _). k' \<noteq> k) d"

definition do_savepoint ::
  "'n native \<Rightarrow> nat \<Rightarrow> ('n lworld \<Rightarrow> bool \<times> 'n lworld) \<Rightarrow> string \<Rightarrow> ('n sa_conn, unit) py" where
  "do_savepoint N me lane_env name w =
    (let counter = sa_counter w + 1 in
     pbind (modify_s (\<lambda>w. w\<lparr>sa_counter := counter, sa_ids := dict_set name counter (sa_ids w)\<rparr>)) (\<lambda>_.
       on_raw (savepoint N me lane_env counter)) w)"

definition unknown_savepoint :: pyexc where
  "unknown_savepoint = exc SAInvalidRequestError ''unknown savepoint ''"

definition do_release_savepoint ::
  "'n native \<Rightarrow> nat \<Rightarrow> ('n lworld \<Rightarrow> bool \<times> 'n lworld) \<Rightarrow> string \<Rightarrow> ('n sa_conn, unit) py" where
  "do_release_savepoint N me lane_env name w =
    (case map_of (sa_ids w) name of
       None \<Rightarrow> throw unknown_savepoint w
     | Some index \<Rightarrow>
         pbind (modify_s (\<lambda>w. w\<lparr>sa_ids := dict_del name (sa_ids w)\<rparr>)) (\<lambda>_.
           on_raw (release_savepoint N me lane_env index)) w)"

definition do_rollback_to_savepoint ::
  "'n native \<Rightarrow> nat \<Rightarrow> ('n lworld \<Rightarrow> bool \<times> 'n lworld) \<Rightarrow> string \<Rightarrow> ('n sa_conn, unit) py" where
  "do_rollback_to_savepoint N me lane_env name w =
    (case map_of (sa_ids w) name of
       None \<Rightarrow> throw unknown_savepoint w
     | Some index \<Rightarrow> on_raw (rollback_to_savepoint N me lane_env index) w)"

section \<open>Quoting\<close>

lemma hex_value_upper_hex: "n < 16 \<Longrightarrow> hex_value (upper_hex n) = Some n"
  by (auto simp: hex_value_def upper_hex_def Let_def)

lemma upper_hex_ord: "n < 16 \<Longrightarrow> 48 \<le> ord_of (upper_hex n) \<and> ord_of (upper_hex n) \<le> 70 \<and> ord_of (upper_hex n) \<noteq> 61"
  by (auto simp: upper_hex_def)

lemma percent_ord: "c = CHR ''%'' \<longleftrightarrow> ord_of c = 37"
  by (simp add: ord_of_inj [symmetric]) (simp add: ord_of_def)

lemma byte_split: "b < 256 \<Longrightarrow> b div 16 < 16 \<and> b mod 16 < (16::nat)"
  by auto

lemma unreserved_char: "unreserved b \<Longrightarrow> b < 128 \<and> char_of b \<noteq> CHR ''%''"
  by (auto simp: unreserved_def percent_ord)

lemma quote_byte_cases:
  assumes "b < 256"
  obtains "quote_byte b = [char_of b]" and "unreserved b"
  | x y where "quote_byte b = [CHR ''%'', x, y]" and "hex_value x = Some (b div 16)" and "hex_value y = Some (b mod 16)"
      and "ord_of x < 128" and "ord_of y < 128" and "x \<noteq> CHR ''%''" and "y \<noteq> CHR ''%''"
proof (cases "unreserved b")
  case False
  note s = byte_split [OF assms]
  show ?thesis
    by (rule that(2) [of "upper_hex (b div 16)" "upper_hex (b mod 16)"])
      (use False s upper_hex_ord [of "b div 16"] upper_hex_ord [of "b mod 16"] in
        \<open>auto simp: quote_byte_def hex_value_upper_hex percent_ord\<close>)
qed (simp add: that(1) quote_byte_def)

lemma quote_bytes_facts:
  "list_all (\<lambda>b. b < 256) bs \<Longrightarrow>
     unquote_bytes (concat (map quote_byte bs)) = bs \<and> \<not> has_bad_escape (concat (map quote_byte bs)) \<and>
     list_all ascii_char (concat (map quote_byte bs))"
proof (induction bs)
  case (Cons b bs)
  then have b: "b < 256" by simp
  then show ?case
  proof (cases rule: quote_byte_cases)
    case 1
    with Cons b unreserved_char [of b] show ?thesis by (auto simp: ascii_char_def)
  next
    case (2 x y)
    with Cons b show ?thesis
      by (auto simp: two_hex_def is_hex_def ascii_char_def percent_ord ord_of_def [of "CHR ''%''"])
  qed
qed simp

lemma utf8_encode_bytes: "list_all (\<lambda>b. b < 256) (utf8_encode_char c)"
proof -
  have "ord_of c < 2048" "ord_of c div 64 < 4" using ord_of_less [of c] by linarith+
  then show ?thesis by (auto simp: utf8_encode_char_def utf8_encode_point_def)
qed

lemma utf8_roundtrip: "utf8_decode (utf8_encode_char c @ bs) = map_option (\<lambda>ps. ord_of c # ps) (utf8_decode bs)"
proof -
  have "ord_of c < 1114112" "\<not> surrogate (ord_of c)" using ord_of_less [of c] unfolding surrogate_def by linarith+
  then show ?thesis unfolding utf8_encode_char_def by (rule utf8_point_roundtrip)
qed

lemma utf8_decode_encode: "utf8_decode (concat (map utf8_encode_char s)) = Some (map ord_of s)"
  by (induction s) (auto simp: utf8_roundtrip)

lemma unquote_points_ascii:
  assumes "list_all ascii_char s"
  shows "unquote_points s = utf8_decode (unquote_bytes s)"
proof (cases s)
  case (Cons c t)
  with assms have "takeWhile ascii_char t = t" "dropWhile ascii_char t = []" "ascii_char c"
    by (auto simp: list_all_iff)
  then show ?thesis
    unfolding Cons unquote_points.simps by (simp del: utf8_decode.simps unquote_bytes.simps takeWhile_eq_all_conv dropWhile_eq_Nil_conv split: option.splits)
qed simp

lemma quote_facts: "list_all ascii_char (quote s) \<and> \<not> has_bad_escape (quote s) \<and>
    unquote_bytes (quote s) = concat (map utf8_encode_char s)"
proof -
  have "list_all (\<lambda>b. b < 256) (concat (map utf8_encode_char s))"
    using utf8_encode_bytes by (induction s) auto
  from quote_bytes_facts [OF this] show ?thesis by (simp add: quote_def)
qed

lemma strict_unquote_quote: "strict_unquote (quote s) = Inr s"
proof -
  have "unquote_points (quote s) = Some (map ord_of s)"
    using quote_facts [of s] utf8_decode_encode [of s] by (auto simp: unquote_points_ascii)
  then show ?thesis
    using quote_facts [of s] by (simp add: strict_unquote_def list_all_iff comp_def)
qed

section \<open>From URLs to DSNs\<close>

definition url_key :: "string \<Rightarrow> bool" where
  "url_key k \<longleftrightarrow> k = ''seed'' \<or> k \<in> set singleton_options"

lemma url_key_chars: "url_key k \<Longrightarrow> CHR ''&'' \<notin> set k \<and> CHR ''='' \<notin> set k \<and> CHR ''#'' \<notin> set k"
  by (auto simp: url_key_def singleton_options_def)

lemma quote_byte_ords:
  assumes "b < 256" and "c \<in> set (quote_byte b)"
  shows "ord_of c \<noteq> 35 \<and> ord_of c \<noteq> 38"
proof (cases "unreserved b")
  case True
  with assms have "ord_of c = b" by (simp add: quote_byte_def)
  with True show ?thesis by (auto simp: unreserved_def)
next
  case False
  note h = byte_split [OF assms(1)]
  have "ord_of (CHR ''%'') = 37" by (simp add: ord_of_def)
  moreover from False assms(2) have "c \<in> {CHR ''%'', upper_hex (b div 16), upper_hex (b mod 16)}"
    by (simp add: quote_byte_def)
  ultimately show ?thesis
    using upper_hex_ord [of "b div 16"] upper_hex_ord [of "b mod 16"] h by (elim insertE) auto
qed

lemma quote_chars: "CHR ''&'' \<notin> set (quote s) \<and> CHR ''#'' \<notin> set (quote s)"
proof -
  have "ord_of c \<noteq> 35 \<and> ord_of c \<noteq> 38" if "c \<in> set (quote s)" for c
    using that utf8_encode_bytes quote_byte_ords by (fastforce simp: quote_def list_all_iff)
  from this [of "CHR ''&''"] this [of "CHR ''#''"] show ?thesis by (auto simp: ord_of_def)
qed

lemma dsn_pair_split: "url_key (fst kv) \<Longrightarrow> py_partition (CHR ''='') (dsn_pair kv) = (fst kv, True, quote (snd kv))"
  by (simp add: dsn_pair_def url_key_chars)

lemma dsn_pair_chars: "url_key (fst kv) \<Longrightarrow> CHR ''&'' \<notin> set (dsn_pair kv) \<and> CHR ''#'' \<notin> set (dsn_pair kv)"
  by (simp add: dsn_pair_def url_key_chars quote_chars)

lemma seed_not_singleton: "''seed'' \<notin> set singleton_options"
  by (simp add: singleton_options_def)

text \<open>The options and the seeds among the pairs of a query.\<close>

definition option_pairs :: "(string \<times> string) list \<Rightarrow> (string \<times> string) list" where
  "option_pairs kvs = filter (\<lambda>kv. fst kv \<noteq> ''seed'') kvs"

definition seed_values :: "(string \<times> string) list \<Rightarrow> string list" where
  "seed_values kvs = map snd (filter (\<lambda>kv. fst kv = ''seed'') kvs)"

lemma parse_pairs_built:
  "(\<And>kv. kv \<in> set kvs \<Longrightarrow> url_key (fst kv)) \<Longrightarrow>
   distinct (map fst (option_pairs kvs)) \<Longrightarrow> set (map fst (option_pairs kvs)) \<inter> fst ` set options = {} \<Longrightarrow>
     parse_pairs [] (map dsn_pair kvs) options seeds =
       Inr (rev (option_pairs kvs) @ options, seeds @ seed_values kvs)"
proof (induction kvs arbitrary: options seeds)
  case Nil
  then show ?case by (simp add: option_pairs_def seed_values_def)
next
  case (Cons kv kvs)
  obtain k v where kv: "kv = (k, v)" by fastforce
  have key: "url_key k" using Cons.prems(1) [of kv] kv by simp
  then have p: "dsn_pair kv \<noteq> []" "py_partition (CHR ''='') (dsn_pair kv) = (k, True, quote v)"
    using dsn_pair_split [of kv] kv by (simp_all add: dsn_pair_def)
  show ?case
  proof (cases "k = ''seed''")
    case True
    with Cons.IH [of options "seeds @ [v]"] Cons.prems kv p show ?thesis
      by (simp add: strict_unquote_quote option_pairs_def seed_values_def)
  next
    case False
    with key have "k \<in> set singleton_options" by (simp add: url_key_def)
    moreover have "map_of options k = None"
      using Cons.prems(3) False kv by (auto simp: option_pairs_def map_of_eq_None_iff)
    moreover have "parse_pairs [] (map dsn_pair kvs) ((k, v) # options) seeds =
        Inr (rev (option_pairs kvs) @ (k, v) # options, seeds @ seed_values kvs)"
      by (rule Cons.IH) (use Cons.prems False kv in \<open>auto simp: option_pairs_def\<close>)
    ultimately show ?thesis
      using False kv p by (simp add: strict_unquote_quote option_pairs_def seed_values_def)
  qed
qed

lemma parse_built_dsn:
  assumes keys: "\<And>kv. kv \<in> set kvs \<Longrightarrow> url_key (fst kv)" and "distinct (map fst (option_pairs kvs))"
  shows "parse_remote_dsn nt (''zxlite:///?'' @ py_join (CHR ''&'') (map dsn_pair kvs)) =
    rbind (check_seeds nt [] (seed_values kvs)) (\<lambda>seeds. parse_options seeds (rev (option_pairs kvs)))"
proof -
  let ?q = "py_join (CHR ''&'') (map dsn_pair kvs)"
  have nohash: "CHR ''#'' \<notin> set ?q"
    using keys by (induction kvs rule: induct_list012) (auto simp: dsn_pair_chars)
  have split: "(if ?q = [] then Inr ([], []) else parse_pairs [] (py_split (CHR ''&'') ?q) [] []) =
      Inr (rev (option_pairs kvs), seed_values kvs)"
  proof (cases kvs)
    case Nil
    then show ?thesis by (simp add: option_pairs_def seed_values_def)
  next
    case (Cons kv rest)
    then have "?q \<noteq> []" by (cases rest) (auto simp: dsn_pair_def)
    moreover have "py_split (CHR ''&'') ?q = map dsn_pair kvs"
      by (rule py_split_join) (simp add: Cons, metis dsn_pair_chars imageE keys list.set_map)
    ultimately show ?thesis using parse_pairs_built [OF keys assms(2), of "[]" "[]"] by simp
  qed
  have slash: "strip_slash ''/'' = []" by (simp add: strip_slash_def)
  show ?thesis
    using nohash split by (auto simp: parse_remote_dsn_def slash Let_def split: if_splits)
qed

text \<open>A remote URL whose keys are those of a DSN, each option once.\<close>

definition well_keyed :: "sa_url \<Rightarrow> bool" where
  "well_keyed url \<longleftrightarrow> (\<forall>kv \<in> set (query_pairs (u_query url)). url_key (fst kv)) \<and>
     distinct (map fst (option_pairs (query_pairs (u_query url))))"


definition demo_url :: sa_url where
  "demo_url = \<lparr>u_username = None, u_password = None, u_host = None, u_database = None,
     u_query = [(''read_level'', [''any'']), (''seed'', [''db&1:9901'', ''[::1]:9902''])]\<rparr>"


section \<open>Local URLs\<close>

text \<open>
  C38. A local engine URL opens the directory it names: on the driver's side a path becomes a local
  connection, transactional (Gate C) unless the engine asks for \<open>AUTOCOMMIT\<close>; a path that
  the driver would take for a remote target is refused in Gate C.
\<close>

theorem local_url_gate:
  assumes "create_connect_args d url = Inr (path, kw)" and "\<not> is_remote_url url"
  shows "u_database url = Some path \<and> path \<noteq> [] \<and> get_pool_class url = NullPool \<and>
    (if startswith path ''zxlite://'' \<or> startswith path ''unix:'' then
       (requested_level d \<noteq> Some ''AUTOCOMMIT'' \<longrightarrow> (\<exists>e. connect nt (TStr path) (with_kwargs kw) = Inl e))
     else connect nt (TStr path) (with_kwargs kw) =
       Inr (PlanLocal \<lparr>l_path = path, l_timeout = 5, l_check_same_thread = True,
         l_transactional = (requested_level d \<noteq> Some ''AUTOCOMMIT'')\<rparr>))"
proof -
  from assms have path: "u_database url = Some path" "path \<noteq> []" and
    kw: "kw = (if requested_level d = Some ''AUTOCOMMIT'' then []
        else [(''isolation_level'', PStr ''DEFERRED''), (''autocommit'', PBool False)])"
    by (auto simp: create_connect_args_def create_local_connect_args_def raise_if_Inr_iff Let_def
        split: option.splits if_splits)
  show ?thesis
  proof (cases "requested_level d = Some ''AUTOCOMMIT''")
    case True
    with path kw assms(2) show ?thesis
      by (auto simp: get_pool_class_def connect_def connect_local_def reject_remote_only_def with_kwargs_def connect_defaults_def)
  next
    case False
    with path kw assms(2) show ?thesis
      by (auto simp: get_pool_class_def connect_def connect_local_def connect_remote_def reject_remote_only_def
          with_kwargs_def connect_defaults_def)
  qed
qed

theorem local_url_gate_witness:
  "connect False (TStr ''/var/lib/zx'') (with_kwargs [(''isolation_level'', PStr ''DEFERRED''), (''autocommit'', PBool False)]) =
     Inr (PlanLocal \<lparr>l_path = ''/var/lib/zx'', l_timeout = 5, l_check_same_thread = True, l_transactional = True\<rparr>)"
proof -
  let ?d = "\<lparr>di_on_connect = None, di_isolation_level = Some ''SERIALIZABLE''\<rparr>"
  let ?url = "demo_url\<lparr>u_query := [], u_database := Some ''/var/lib/zx''\<rparr>"
  have "create_connect_args ?d ?url = Inr (''/var/lib/zx'', [(''isolation_level'', PStr ''DEFERRED''), (''autocommit'', PBool False)])"
    "\<not> is_remote_url ?url" by code_simp+
  from local_url_gate [OF this, of False] show ?thesis by (simp add: requested_level_def truthy_def)
qed

text \<open>A database path of the form \<open>unix:...\<close> passes as a local URL and is served remotely, unpooled.\<close>

lemma local_url_serves_unix:
  "create_connect_args \<lparr>di_on_connect = Some ''AUTOCOMMIT'', di_isolation_level = None\<rparr>
     (demo_url\<lparr>u_query := [], u_database := Some ''unix:/run/zx.sock''\<rparr>) = Inr (''unix:/run/zx.sock'', []) \<and>
   get_pool_class (demo_url\<lparr>u_query := [], u_database := Some ''unix:/run/zx.sock''\<rparr>) = NullPool \<and>
   (case connect False (TStr ''unix:/run/zx.sock'') (with_kwargs []) of Inr (PlanRemote p) \<Rightarrow> True | _ \<Rightarrow> False)"
  by code_simp

text \<open>An \<open>AUTOCOMMIT\<close> engine on a directory opens an autocommit connection that reports \<open>SERIALIZABLE\<close>.\<close>

lemma autocommit_reported_serializable:
  "create_connect_args \<lparr>di_on_connect = Some ''AUTOCOMMIT'', di_isolation_level = None\<rparr>
     (demo_url\<lparr>u_query := [], u_database := Some ''/var/lib/zx''\<rparr>) = Inr (''/var/lib/zx'', []) \<and>
   (case connect False (TStr ''/var/lib/zx'') (with_kwargs []) of
      Inr (PlanLocal p) \<Rightarrow> \<not> l_transactional p \<and> get_isolation_level (PlanLocal p) = ''SERIALIZABLE'' | _ \<Rightarrow> False)"
  by code_simp

text \<open>A key is copied into the DSN as it is: one that holds \<open>=\<close> and \<open>&\<close> smuggles in options.\<close>

lemma url_key_injection:
  "\<exists>dsn p. create_connect_args \<lparr>di_on_connect = Some ''AUTOCOMMIT'', di_isolation_level = None\<rparr>
       (demo_url\<lparr>u_query := [(''seed'', [''db1:9901'']), (''read_level=any&pool_size'', [''5''])]\<rparr>) = Inr (dsn, []) \<and>
     parse_remote_dsn False dsn = Inr p \<and> d_read_level p = Some ''any'' \<and> d_pool_size p = Some 5"
proof -
  let ?r = "create_connect_args \<lparr>di_on_connect = Some ''AUTOCOMMIT'', di_isolation_level = None\<rparr>
       (demo_url\<lparr>u_query := [(''seed'', [''db1:9901'']), (''read_level=any&pool_size'', [''5''])]\<rparr>)"
  have "case ?r of Inr (dsn, kw) \<Rightarrow> kw = [] \<and> (case parse_remote_dsn False dsn of
      Inr p \<Rightarrow> d_read_level p = Some ''any'' \<and> d_pool_size p = Some 5 | Inl _ \<Rightarrow> False) | Inl _ \<Rightarrow> False"
    by code_simp
  then show ?thesis by (auto split: sum.splits)
qed

end
