(* ===== verification/Zx_Savepoints.thy ===== *)
theory Zx_Savepoints
  imports Zx_Dialect
begin

text \<open>
  The savepoint hooks of the SQLAlchemy dialect down to SQLite: dialect, raw connection, extension
  module, node. The specification is a stack of names with SQLite's documented operations.
  \<open>sqlite_savepoints\<close> is the hypothesis on SQLite, reached through the core parameter of the node;
  \<open>savepoint_refine\<close> is the abstraction: the names on the stack, translated through the dialect's
  dictionary into ordinals, are SQLite's stack.
\<close>

section \<open>Savepoints refine a stack of names\<close>

text \<open>The specification, SQLite's documented semantics: the innermost savepoint comes first.\<close>

datatype sp_op = Save | Release | RollbackTo

fun stack_effect :: "sp_op \<Rightarrow> 'a \<Rightarrow> 'a list \<Rightarrow> 'a list option" where
  "stack_effect Save x st = Some (x # st)"
| "stack_effect Release x st = (if x \<in> set st then Some (tl (dropWhile (\<lambda>y. y \<noteq> x) st)) else None)"
| "stack_effect RollbackTo x st = (if x \<in> set st then Some (dropWhile (\<lambda>y. y \<noteq> x) st) else None)"

fun sp_verb :: "sp_op \<Rightarrow> string" where
  "sp_verb Save = ''savepoint''"
| "sp_verb Release = ''release''"
| "sp_verb RollbackTo = ''rollback to''"

definition sp_name :: "int \<Rightarrow> string" where
  "sp_name i = ''zx_sp_'' @ digits_of (nat i)"

text \<open>
  What the node relies on of SQLite, whose savepoint stack is \<open>stack\<close>: a savepoint statement has its
  documented effect or fails without one; opening a transaction does not touch the stack.
\<close>

definition sqlite_savepoints :: "'d core \<Rightarrow> ('d \<Rightarrow> string list) \<Rightarrow> bool" where
  "sqlite_savepoints C stack \<longleftrightarrow>
     (\<forall>op i d. case co_exec C (savepoint_sql (sp_verb op) i) d of
        (Inr _, d') \<Rightarrow> stack_effect op (sp_name i) (stack d) = Some (stack d')
      | (Inl _, d') \<Rightarrow> stack d' = stack d) \<and>
     (\<forall>d. stack (snd (co_exec C ''begin immediate'' d)) = stack d \<and>
        stack (snd (co_resync C d)) = stack d \<and> stack (snd (co_ensure_writer C d)) = stack d)"

fun run_sp :: "'n native \<Rightarrow> nat \<Rightarrow> bool \<Rightarrow> sp_op \<Rightarrow> string \<Rightarrow> ('n sa_conn, unit) py" where
  "run_sp N me entered Save name = do_savepoint N me (\<lambda>x. (entered, x)) name"
| "run_sp N me entered Release name = do_release_savepoint N me (\<lambda>x. (entered, x)) name"
| "run_sp N me entered RollbackTo name = do_rollback_to_savepoint N me (\<lambda>x. (entered, x)) name"

definition stack_of :: "('d \<Rightarrow> string list) \<Rightarrow> 'd node lworld \<Rightarrow> string list" where
  "stack_of stack x = stack (nd_core (k_native (conn x)))"

definition ordinal_name :: "(string \<times> int) list \<Rightarrow> string \<Rightarrow> string" where
  "ordinal_name ids n = sp_name (the (map_of ids n))"

definition savepoint_refine :: "('d \<Rightarrow> string list) \<Rightarrow> 'd node sa_conn \<Rightarrow> string list \<Rightarrow> bool" where
  "savepoint_refine stack w ns \<longleftrightarrow>
     stack_of stack (sa_raw w) = map (ordinal_name (sa_ids w)) ns \<and>
     distinct ns \<and> set ns \<subseteq> dom (map_of (sa_ids w)) \<and> inj_on (map_of (sa_ids w)) (dom (map_of (sa_ids w))) \<and>
     (\<forall>n i. map_of (sa_ids w) n = Some i \<longrightarrow> 1 \<le> i \<and> i \<le> sa_counter w) \<and>
     0 \<le> sa_counter w \<and> sa_counter w < 2 ^ 32"

lemma map_of_filter_key: "map_of (filter (\<lambda>(k', _). k' \<noteq> k) d) x = (if x = k then None else map_of d x)"
  by (induction d) auto

lemma map_of_dict [simp]:
  "map_of (dict_set k v d) = (map_of d)(k \<mapsto> v)" "map_of (dict_del k d) = (map_of d)(k := None)"
  by (rule ext, simp add: dict_set_def dict_del_def map_of_filter_key)+

lemma sp_name_inj: "0 \<le> i \<Longrightarrow> 0 \<le> j \<Longrightarrow> sp_name i = sp_name j \<longleftrightarrow> i = j"
  by (simp add: sp_name_def digits_of_inj eq_nat_nat_iff)

lemma dropWhile_map_inj:
  "inj_on f (insert x (set st)) \<Longrightarrow> dropWhile (\<lambda>y. y \<noteq> f x) (map f st) = map f (dropWhile (\<lambda>y. y \<noteq> x) st)"
  by (induction st) (auto simp: inj_on_def)

lemma stack_effect_map:
  assumes "inj_on f (insert x (set st))"
  shows "stack_effect op (f x) (map f st) = map_option (map f) (stack_effect op x st)"
proof -
  have "f x \<in> f ` set st \<longleftrightarrow> x \<in> set st" using assms by (auto simp: inj_on_def)
  then show ?thesis by (cases op) (auto simp: dropWhile_map_inj [OF assms] map_tl)
qed

lemma dropWhile_subset: "set (dropWhile p st) \<subseteq> set st"
  by (auto dest: set_dropWhileD)

lemma tl_dropWhile_distinct: "distinct st \<Longrightarrow> x \<notin> set (tl (dropWhile (\<lambda>y. y \<noteq> x) st))"
  by (induction st) auto

lemma tl_subset: "set (tl xs) \<subseteq> set xs"
  by (cases xs) auto

lemma stack_effect_keeps:
  "distinct st \<Longrightarrow> stack_effect Release x st = Some st' \<Longrightarrow> distinct st' \<and> set st' \<subseteq> set st - {x}"
  "distinct st \<Longrightarrow> stack_effect RollbackTo x st = Some st' \<Longrightarrow> distinct st' \<and> set st' \<subseteq> set st"
  using dropWhile_subset [of "\<lambda>y. y \<noteq> x" st] tl_dropWhile_distinct [of st x] tl_subset [of "dropWhile (\<lambda>y. y \<noteq> x) st"]
  by (auto simp: distinct_tl split: if_splits)

subsection \<open>The raw connection\<close>

definition has_stack :: "('d \<Rightarrow> string list) \<Rightarrow> string list \<Rightarrow> 'a zres \<times> 'd node \<Rightarrow> bool" where
  "has_stack stack s p \<longleftrightarrow> stack (nd_core (snd p)) = s"

lemma has_stack_core: "stack (snd (f (nd_core nd))) = s \<Longrightarrow> has_stack stack s (on_core f nd)"
  by (auto simp: has_stack_def on_core_def split: prod.splits)

lemma has_stack_if: "(b \<Longrightarrow> has_stack stack s p) \<Longrightarrow> (\<not> b \<Longrightarrow> has_stack stack s q) \<Longrightarrow> has_stack stack s (if b then p else q)"
  by simp

lemma has_stack_pair: "stack (nd_core nd) = s \<Longrightarrow> has_stack stack s (r, nd)"
  by (simp add: has_stack_def)

lemma has_stack_and_then:
  "has_stack stack s p \<Longrightarrow> (\<And>a nd. stack (nd_core nd) = s \<Longrightarrow> has_stack stack s (k a nd)) \<Longrightarrow> has_stack stack s (and_then p k)"
  by (auto simp: has_stack_def and_then_def split: prod.splits sum.splits)

lemma beginLive_stack:
  assumes "sqlite_savepoints C stack" and "stack (nd_core nd) = s"
  shows "has_stack stack s (beginLive C nd)"
proof -
  have keep: "stack (snd (co_exec C ''begin immediate'' d)) = stack d"
    "stack (snd (co_resync C d)) = stack d" "stack (snd (co_ensure_writer C d)) = stack d" for d
    using assms(1) by (simp_all add: sqlite_savepoints_def)
  show ?thesis
    unfolding beginLive_def
    by (intro has_stack_if has_stack_and_then has_stack_pair has_stack_core) (simp_all add: keep assms(2))
qed

lemma savepoint_effect:
  assumes "sqlite_savepoints C stack" and "0 \<le> i" "i < 2 ^ 32"
    and "savepoint_native C (sp_verb op) i nd = (r, nd')"
  shows "case r of Inr _ \<Rightarrow> stack_effect op (sp_name i) (stack (nd_core nd)) = Some (stack (nd_core nd'))
    | Inl _ \<Rightarrow> stack (nd_core nd') = stack (nd_core nd)"
proof -
  have "case co_exec C (savepoint_sql (sp_verb op) i) (nd_core nd) of
        (Inr _, d') \<Rightarrow> stack_effect op (sp_name i) (stack (nd_core nd)) = Some (stack d')
      | (Inl _, d') \<Rightarrow> stack d' = stack (nd_core nd)"
    using assms(1) by (simp add: sqlite_savepoints_def)
  with assms show ?thesis
    by (auto simp: savepoint_native_def to_native_def liveSavepointControl_def on_core_def
        split: prod.splits sum.splits if_splits)
qed

lemma begin_stack:
  assumes "sqlite_savepoints C stack"
  shows "keeps (\<lambda>x. stack_of stack x = s) (begin_if_needed (node_native C B))"
  unfolding keeps_def
proof (intro allI impI)
  fix x assume s: "stack_of stack x = s"
  show "stack_of stack (snd (begin_if_needed (node_native C B) x)) = s"
  proof (cases "k_in_tx (conn x) \<or> k_stops (conn x) > 0")
    case True
    with s show ?thesis by (auto simp: begin_if_needed_def ret_def pbind_def call_native_stopped)
  next
    case False
    have "has_stack stack s (beginLive C (k_native (conn x)))"
      by (rule beginLive_stack [OF assms]) (use s in \<open>simp add: stack_of_def\<close>)
    with False show ?thesis
      by (auto simp: begin_if_needed_def pbind_def call_native_running node_native_def to_native_def
          set_in_tx_def set_conn_def modify_s_def stack_of_def has_stack_def native_outcome_def
          split: prod.splits sum.splits)
  qed
qed

text \<open>A savepoint statement returned with its effect, or did not return and had none.\<close>

definition sp_result :: "('d \<Rightarrow> string list) \<Rightarrow> sp_op \<Rightarrow> int \<Rightarrow> 'd node lworld \<Rightarrow> unit outcome \<Rightarrow> 'd node lworld \<Rightarrow> bool" where
  "sp_result stack op i x r x' \<longleftrightarrow>
    (case r of Return _ \<Rightarrow> stack_effect op (sp_name i) (stack_of stack x) = Some (stack_of stack x')
     | _ \<Rightarrow> stack_of stack x' = stack_of stack x)"

lemma call_effect:
  assumes "sqlite_savepoints C stack" and "0 \<le> i" "i < 2 ^ 32"
    and "call_native (savepoint_native C (sp_verb op) i) x = (r, x')"
  shows "sp_result stack op i x r x'"
proof (cases "k_stops (conn x) = 0")
  case True
  obtain z nd' where z: "savepoint_native C (sp_verb op) i (k_native (conn x)) = (z, nd')" by fastforce
  from savepoint_effect [OF assms(1-3) z] True z assms(4) show ?thesis
    by (auto simp: sp_result_def call_native_running native_outcome_def stack_of_def
        split: sum.splits native_exc.splits)
next
  case False
  with assms(4) show ?thesis by (auto simp: sp_result_def call_native_stopped)
qed

lemma lane_call_effect:
  assumes "sqlite_savepoints C stack" and "0 \<le> i" "i < 2 ^ 32"
    and "lane_call me (\<lambda>x. (b, x)) True (savepoint_native C (sp_verb op) i) x = (r, x')"
  shows "sp_result stack op i x r x'"
proof -
  from assms(4) have "x' = x \<and> (\<exists>e. r = Raise e) \<or> call_native (savepoint_native C (sp_verb op) i) x = (r, x')"
    by (auto simp: lane_call_def conn_check_def with_lane_def py_defs split: sum.splits if_splits)
  with call_effect [OF assms(1-3)] show ?thesis by (auto simp: sp_result_def)
qed

lemma save_effect:
  assumes "sqlite_savepoints C stack" and "0 \<le> i" "i < 2 ^ 32"
    and "savepoint (node_native C B) me (\<lambda>x. (b, x)) i x = (r, x')"
  shows "sp_result stack Save i x r x'"
proof -
  obtain rb xb where beg: "begin_if_needed (node_native C B) x = (rb, xb)" by fastforce
  have same: "stack_of stack xb = stack_of stack x"
    using keepsD [OF begin_stack [OF assms(1), of "stack_of stack x" B], of x] beg by simp
  from assms(4) beg have "x' = x \<and> (\<exists>e. r = Raise e) \<or> x' = xb \<and> r \<noteq> Return () \<or>
      call_native (savepoint_native C (sp_verb Save) i) xb = (r, x')"
    by (auto simp: savepoint_def conn_check_def with_lane_def savepoint_section_def node_native_def py_defs
        split: sum.splits if_splits outcome.splits)
  with call_effect [OF assms(1-3), of Save xb r x'] same show ?thesis
    by (auto simp: sp_result_def split: outcome.splits)
qed

subsection \<open>The simulation\<close>

lemma refine_inj:
  assumes "savepoint_refine stack w ns" and "map_of (sa_ids w) n = Some i"
  shows "inj_on (ordinal_name (sa_ids w)) (insert n (set ns))"
proof (rule inj_onI)
  fix a b assume "a \<in> insert n (set ns)" "b \<in> insert n (set ns)"
    and eq: "ordinal_name (sa_ids w) a = ordinal_name (sa_ids w) b"
  with assms obtain j k where jk: "map_of (sa_ids w) a = Some j" "map_of (sa_ids w) b = Some k"
    unfolding savepoint_refine_def by (metis domD insertE subsetD)
  with assms(1) have "1 \<le> j" "1 \<le> k" by (auto simp: savepoint_refine_def)
  with eq jk have "j = k" using sp_name_inj [of j k] by (simp add: ordinal_name_def)
  with assms(1) jk show "a = b" by (auto simp: savepoint_refine_def inj_on_def dom_def)
qed

lemma refine_unchanged:
  "savepoint_refine stack w ns \<Longrightarrow> stack_of stack x = stack_of stack (sa_raw w) \<Longrightarrow> savepoint_refine stack (w\<lparr>sa_raw := x\<rparr>) ns"
  by (simp add: savepoint_refine_def)

lemma save_simulates:
  assumes "sqlite_savepoints C stack" and R: "savepoint_refine stack w ns"
    and fresh: "n \<notin> set ns" "sa_counter w + 1 < 2 ^ 32"
    and "do_savepoint (node_native C B) me (\<lambda>x. (b, x)) n w = (r, w')"
  shows "savepoint_refine stack w' (if r = Return () then n # ns else ns)"
proof -
  let ?k = "sa_counter w + 1"
  obtain x where x: "savepoint (node_native C B) me (\<lambda>x. (b, x)) ?k (sa_raw w) = (r, x)"
    and w': "w' = w\<lparr>sa_counter := ?k, sa_ids := dict_set n ?k (sa_ids w), sa_raw := x\<rparr>"
    using assms(5) by (auto simp: do_savepoint_def on_raw_def py_defs Let_def split: prod.splits)
  have "0 \<le> ?k" using R by (simp add: savepoint_refine_def)
  from save_effect [OF assms(1) this fresh(2) x] have res: "sp_result stack Save ?k (sa_raw w) r x" .
  have names: "map (ordinal_name (sa_ids w')) ns = map (ordinal_name (sa_ids w)) ns" "ordinal_name (sa_ids w') n = sp_name ?k"
    using fresh(1) by (auto simp: ordinal_name_def w')
  have st: "stack_of stack x = (if r = Return () then sp_name ?k # stack_of stack (sa_raw w) else stack_of stack (sa_raw w))"
    using res by (auto simp: sp_result_def split: outcome.splits)
  have "inj_on (map_of (sa_ids w')) (dom (map_of (sa_ids w')))"
    using R by (fastforce simp: savepoint_refine_def w' inj_on_def dom_def)
  moreover have "\<forall>m i. map_of (sa_ids w') m = Some i \<longrightarrow> 1 \<le> i \<and> i \<le> sa_counter w'"
  proof (intro allI impI)
    fix m i assume "map_of (sa_ids w') m = Some i"
    then have "i = ?k \<or> map_of (sa_ids w) m = Some i" by (auto simp: w' split: if_splits)
    moreover have "0 \<le> sa_counter w" using R by (simp add: savepoint_refine_def)
    moreover have "1 \<le> i \<and> i \<le> sa_counter w" if "map_of (sa_ids w) m = Some i"
      using R that by (simp add: savepoint_refine_def)
    ultimately show "1 \<le> i \<and> i \<le> sa_counter w'" by (auto simp: w')
  qed
  ultimately show ?thesis
    using R names st fresh by (auto simp: savepoint_refine_def w')
qed

lemma effect_simulates:
  assumes R: "savepoint_refine stack w ns" and i: "map_of (sa_ids w) n = Some i" and "op \<noteq> Save"
    and res: "sp_result stack op i (sa_raw w) (Return ()) x"
  obtains ns' where "stack_effect op n ns = Some ns'" "stack_of stack x = map (ordinal_name (sa_ids w)) ns'"
proof -
  have "stack_effect op (ordinal_name (sa_ids w) n) (map (ordinal_name (sa_ids w)) ns) = Some (stack_of stack x)"
    using res R i by (simp add: sp_result_def savepoint_refine_def ordinal_name_def)
  then show ?thesis
    using stack_effect_map [OF refine_inj [OF R i], of op] that by auto
qed

lemma ordinal_range:
  "savepoint_refine stack w ns \<Longrightarrow> map_of (sa_ids w) n = Some i \<Longrightarrow> 0 \<le> i \<and> i < 2 ^ 32"
  by (fastforce simp: savepoint_refine_def)

lemma rollback_simulates:
  assumes "sqlite_savepoints C stack" and R: "savepoint_refine stack w ns"
    and "do_rollback_to_savepoint (node_native C B) me (\<lambda>x. (b, x)) n w = (r, w')"
  shows "if r = Return () then \<exists>ns'. stack_effect RollbackTo n ns = Some ns' \<and> savepoint_refine stack w' ns'
    else savepoint_refine stack w' ns"
proof (cases "map_of (sa_ids w) n")
  case None
  with assms(3) R show ?thesis by (auto simp: do_rollback_to_savepoint_def throw_def)
next
  case (Some i)
  then obtain x where x: "lane_call me (\<lambda>x. (b, x)) True (savepoint_native C (sp_verb RollbackTo) i) (sa_raw w) = (r, x)"
    and w': "w' = w\<lparr>sa_raw := x\<rparr>"
    using assms(3) by (auto simp: do_rollback_to_savepoint_def rollback_to_savepoint_def node_native_def on_raw_def
        split: prod.splits)
  from lane_call_effect [OF assms(1) _ _ x] ordinal_range [OF R Some]
  have res: "sp_result stack RollbackTo i (sa_raw w) r x" by simp
  show ?thesis
  proof (cases "r = Return ()")
    case True
    with res obtain ns' where ns': "stack_effect RollbackTo n ns = Some ns'" "stack_of stack x = map (ordinal_name (sa_ids w)) ns'"
      using effect_simulates [OF R Some, of RollbackTo x] by auto
    with R stack_effect_keeps(2) [of ns n ns'] True show ?thesis by (fastforce simp: savepoint_refine_def w')
  next
    case False
    with res R show ?thesis by (auto simp: w' sp_result_def intro!: refine_unchanged split: outcome.splits)
  qed
qed

lemma release_simulates:
  assumes "sqlite_savepoints C stack" and R: "savepoint_refine stack w ns"
    and "do_release_savepoint (node_native C B) me (\<lambda>x. (b, x)) n w = (Return (), w')"
  shows "\<exists>ns'. stack_effect Release n ns = Some ns' \<and> savepoint_refine stack w' ns'"
proof (cases "map_of (sa_ids w) n")
  case None
  with assms(3) show ?thesis by (auto simp: do_release_savepoint_def throw_def)
next
  case (Some i)
  then obtain x where x: "lane_call me (\<lambda>x. (b, x)) True (savepoint_native C (sp_verb Release) i) (sa_raw w) = (Return (), x)"
    and w': "w' = w\<lparr>sa_ids := dict_del n (sa_ids w), sa_raw := x\<rparr>"
    using assms(3) by (auto simp: do_release_savepoint_def release_savepoint_def node_native_def on_raw_def py_defs
        split: prod.splits)
  from lane_call_effect [OF assms(1) _ _ x] ordinal_range [OF R Some]
  have "sp_result stack Release i (sa_raw w) (Return ()) x" by simp
  then obtain ns' where ns': "stack_effect Release n ns = Some ns'" "stack_of stack x = map (ordinal_name (sa_ids w)) ns'"
    using effect_simulates [OF R Some, of Release x] by auto
  have keep: "distinct ns'" "set ns' \<subseteq> set ns - {n}" using R stack_effect_keeps(1) [OF _ ns'(1)] by (auto simp: savepoint_refine_def)
  then have "map (ordinal_name (sa_ids w')) ns' = map (ordinal_name (sa_ids w)) ns'"
    by (auto simp: ordinal_name_def w')
  moreover have "inj_on (map_of (sa_ids w')) (dom (map_of (sa_ids w')))"
    using R by (auto simp: savepoint_refine_def w' inj_on_def dom_def)
  ultimately have "savepoint_refine stack w' ns'"
    using R ns'(2) keep by (auto simp: savepoint_refine_def w' split: if_splits)
  with ns'(1) show ?thesis by blast
qed

text \<open>A program of savepoint operations, which ends with the first that does not return.\<close>

fun run_sps :: "'n native \<Rightarrow> nat \<Rightarrow> (sp_op \<times> string) list \<Rightarrow> ('n sa_conn, unit) py" where
  "run_sps N me [] = ret ()"
| "run_sps N me ((op, name) # ops) = pbind (run_sp N me True op name) (\<lambda>_. run_sps N me ops)"

text \<open>The same program on the stack of names; a savepoint name is not reused while it is open.\<close>

fun spec_sps :: "(sp_op \<times> string) list \<Rightarrow> string list \<Rightarrow> string list option" where
  "spec_sps [] ns = Some ns"
| "spec_sps ((op, name) # ops) ns =
    (case stack_effect op name ns of None \<Rightarrow> None | Some ns' \<Rightarrow> spec_sps ops ns')"

fun fresh_names :: "(sp_op \<times> string) list \<Rightarrow> string list \<Rightarrow> bool" where
  "fresh_names [] ns = True"
| "fresh_names ((op, name) # ops) ns =
    ((op = Save \<longrightarrow> name \<notin> set ns) \<and>
     (case stack_effect op name ns of None \<Rightarrow> True | Some ns' \<Rightarrow> fresh_names ops ns'))"

lemma run_sp_simulates:
  assumes "sqlite_savepoints C stack" and "savepoint_refine stack w ns"
    and "op = Save \<Longrightarrow> n \<notin> set ns" and "sa_counter w + 1 < 2 ^ 32"
    and "run_sp (node_native C B) me b op n w = (Return (), w')"
  shows "\<exists>ns'. stack_effect op n ns = Some ns' \<and> savepoint_refine stack w' ns' \<and> sa_counter w' \<le> sa_counter w + 1"
proof (cases op)
  case Save
  with assms save_simulates [OF assms(1,2), of n B me b "Return ()" w'] show ?thesis
    by (auto simp: do_savepoint_def on_raw_def py_defs Let_def split: prod.splits)
next
  case Release
  with assms release_simulates [OF assms(1,2), of B me b n w'] show ?thesis
    by (auto simp: do_release_savepoint_def on_raw_def py_defs split: prod.splits option.splits if_splits)
next
  case RollbackTo
  with assms rollback_simulates [OF assms(1,2), of B me b n "Return ()" w'] show ?thesis
    by (auto simp: do_rollback_to_savepoint_def on_raw_def throw_def split: prod.splits option.splits if_splits)
qed

lemma run_sps_simulates:
  assumes "sqlite_savepoints C stack"
  shows "savepoint_refine stack w ns \<Longrightarrow> fresh_names ops ns \<Longrightarrow> sa_counter w + int (length ops) < 2 ^ 32 \<Longrightarrow>
    run_sps (node_native C B) me ops w = (Return (), w') \<Longrightarrow>
    \<exists>ns'. spec_sps ops ns = Some ns' \<and> savepoint_refine stack w' ns'"
proof (induction ops arbitrary: w ns)
  case Nil
  then show ?case by (simp add: ret_def)
next
  case (Cons o1 ops)
  obtain op n where o1: "o1 = (op, n)" by fastforce
  from Cons.prems(4) o1 obtain w1 where r1: "run_sp (node_native C B) me True op n w = (Return (), w1)"
    and r2: "run_sps (node_native C B) me ops w1 = (Return (), w')"
    by (auto simp: pbind_def split: prod.splits outcome.splits)
  have fresh: "op = Save \<Longrightarrow> n \<notin> set ns" and bound: "sa_counter w + 1 < 2 ^ 32"
    using Cons.prems o1 by auto
  from run_sp_simulates [OF assms Cons.prems(1) fresh bound r1] obtain ns1 where
    ns1: "stack_effect op n ns = Some ns1" "savepoint_refine stack w1 ns1" "sa_counter w1 \<le> sa_counter w + 1" by auto
  with Cons.IH [OF ns1(2) _ _ r2] Cons.prems o1 show ?case by auto
qed

text \<open>A release that raises has forgotten the name, while the savepoint is still open.\<close>

lemma failed_release_forgets:
  assumes "sqlite_savepoints C stack" and "savepoint_refine stack w ns" and "n \<in> set ns"
    and "do_release_savepoint (node_native C B) me (\<lambda>x. (False, x)) n w = (r, w')"
  shows "(\<exists>e. r = Raise e) \<and> ordinal_name (sa_ids w) n \<in> set (stack_of stack (sa_raw w')) \<and>
    do_rollback_to_savepoint (node_native C B) me lane_env n w' = (Raise unknown_savepoint, w')"
proof -
  from assms(2,3) obtain i where i: "map_of (sa_ids w) n = Some i" by (auto simp: savepoint_refine_def)
  with assms(4) have "\<exists>e. r = Raise e" and w': "w' = w\<lparr>sa_ids := dict_del n (sa_ids w)\<rparr>"
    by (auto simp: do_release_savepoint_def release_savepoint_def lane_call_def conn_check_def with_lane_def
        on_raw_def py_defs split: sum.splits prod.splits)
  moreover have "ordinal_name (sa_ids w) n \<in> set (stack_of stack (sa_raw w))"
    using assms(2,3) by (simp add: savepoint_refine_def)
  ultimately show ?thesis by (simp add: do_rollback_to_savepoint_def throw_def)
qed

text \<open>A core that is nothing but a savepoint stack, for the example.\<close>

definition demo_exec :: "string \<Rightarrow> string list \<Rightarrow> unit zres \<times> string list" where
  "demo_exec sql st =
    (let run = (\<lambda>op k. case stack_effect op (drop k sql) st of None \<Rightarrow> (Inl (CoreError 1), st) | Some st' \<Rightarrow> (Inr (), st'))
     in if startswith sql ''savepoint '' then run Save 10
        else if startswith sql ''release '' then run Release 8
        else if startswith sql ''rollback to '' then run RollbackTo 12
        else (Inr (), st))"

definition stack_core :: "string list core" where
  "stack_core = \<lparr>co_single = (\<lambda>_. True), co_serves_writes = (\<lambda>_. True), co_fatal = (\<lambda>_. False),
     co_needs_resync = (\<lambda>_. False), co_membership_pending = (\<lambda>_. False), co_log_stopped = (\<lambda>_. False),
     co_capture_pending = (\<lambda>_. False), co_in_transaction = (\<lambda>_. True), co_total_changes = (\<lambda>_. 0),
     co_last_rowid = (\<lambda>_. 0), co_resync = (\<lambda>d. (Inr (), d)), co_ensure_writer = (\<lambda>d. (Inr (), d)),
     co_mark_resync = (\<lambda>d. d), co_exec = demo_exec, co_run = (\<lambda>_ _ d. (Inr None, d)),
     co_verify = (\<lambda>d. (Inr (), d)), co_seal = (\<lambda>c d. (Inr c, d)),
     co_check_session = (\<lambda>_ _ d. (Inl UnknownSession, d)), co_session_write = (\<lambda>_ _ _ d. (Inl UnknownSession, d)),
     co_error = (\<lambda>_. \<lparr>zx_code = Some 1, zx_category = Some 9, zx_message = None, zx_str = []\<rparr>)\<rparr>"

definition refuse :: "'d \<Rightarrow> 'a nres \<times> 'd" where
  "refuse n = (Inl (PyErr (exc ExceptionC [])), n)"

definition accept :: "'d \<Rightarrow> unit nres \<times> 'd" where
  "accept n = (Inr (), n)"

definition idle_native :: "'d native" where
  "idle_native = \<lparr>nv_open = (\<lambda>_. accept), nv_close = accept, nv_describe = (\<lambda>_. refuse), nv_parameter_name = (\<lambda>_ _. refuse),
     nv_query = (\<lambda>_ _. refuse), nv_exec = (\<lambda>_ _. refuse), nv_exec_script = (\<lambda>_. refuse),
     nv_begin = refuse, nv_tx_exec = (\<lambda>_ _ _. accept), nv_tx_commit = (\<lambda>_. refuse), nv_tx_close = (\<lambda>_. accept),
     nv_live_begin = accept, nv_live_exec = (\<lambda>_ _. refuse), nv_live_commit = refuse, nv_live_rollback = accept,
     nv_live_savepoint = (\<lambda>_. accept), nv_live_release_savepoint = (\<lambda>_. accept), nv_live_rollback_to_savepoint = (\<lambda>_. accept),
     nv_snapshot = accept, nv_backup = (\<lambda>_. accept), nv_integrity_check = accept, nv_session_open = refuse,
     nv_exec_idempotent = (\<lambda>_ _ _. refuse), nv_expire_sessions = (\<lambda>_. refuse), nv_search = (\<lambda>_. refuse)\<rparr>"

lemma stack_core_savepoints: "sqlite_savepoints stack_core (\<lambda>d. d)"
proof -
  have "case demo_exec (savepoint_sql (sp_verb op) i) d of
        (Inr _, d') \<Rightarrow> stack_effect op (sp_name i) d = Some d' | (Inl _, d') \<Rightarrow> d' = d" for op i d
    by (cases op) (simp_all add: demo_exec_def savepoint_sql_def sp_name_def)
  then show ?thesis by (simp add: sqlite_savepoints_def stack_core_def demo_exec_def)
qed

definition demo_sa_conn :: "string list node sa_conn" where
  "demo_sa_conn =
    \<lparr>sa_raw = snd (conn_open (node_native stack_core idle_native)
        \<lparr>l_path = ''d'', l_timeout = 5, l_check_same_thread = True, l_transactional = True\<rparr> 1
        \<lparr>nd_live_transaction = False, nd_changes_base = 0, nd_core = []\<rparr>),
     sa_counter = 0, sa_ids = []\<rparr>"

text \<open>
  C11. The savepoint hooks refine a stack of names: a sequence of savepoint, release and rollback-to
  operations that return, on names not reused while open and within \<open>2^32\<close> ordinals, has
  on SQLite's stack exactly the effect the specification gives the names; the abstraction still
  holds afterwards.
\<close>

theorem savepoints_refine_names:
  assumes "sqlite_savepoints C stack" and "savepoint_refine stack w ns" and "fresh_names ops ns"
    and "sa_counter w + int (length ops) < 2 ^ 32"
    and "run_sps (node_native C B) me ops w = (Return (), w')"
  shows "\<exists>ns'. spec_sps ops ns = Some ns' \<and> savepoint_refine stack w' ns'"
  using run_sps_simulates [OF assms(1-5)] .

theorem savepoints_refine_names_witness:
  "\<exists>w'. run_sps (node_native stack_core idle_native) 1 [(Save, ''a''), (Save, ''b''), (RollbackTo, ''a''), (Save, ''c'')] demo_sa_conn =
      (Return (), w') \<and> savepoint_refine (\<lambda>d. d) w' [''c'', ''a'']"
proof -
  let ?ops = "[(Save, ''a''), (Save, ''b''), (RollbackTo, ''a''), (Save, ''c'')]"
  obtain r w' where run: "run_sps (node_native stack_core idle_native) 1 ?ops demo_sa_conn = (r, w')" by fastforce
  have "fst (run_sps (node_native stack_core idle_native) 1 ?ops demo_sa_conn) = Return ()" by code_simp
  with run have "r = Return ()" by simp
  moreover have "savepoint_refine (\<lambda>d. d) demo_sa_conn []"
    by (simp add: savepoint_refine_def demo_sa_conn_def stack_of_def conn_open_def catch_def call_native_def
        node_native_def idle_native_def accept_def lift_core_def native_outcome_def Let_def)
  moreover have "spec_sps ?ops [] = Some [''c'', ''a'']" "fresh_names ?ops []"
    "sa_counter demo_sa_conn + int (length ?ops) < 2 ^ 32" by code_simp+
  ultimately show ?thesis
    using savepoints_refine_names [OF stack_core_savepoints, of demo_sa_conn "[]" ?ops idle_native 1 w'] run by auto
qed

end
