(* ===== verification/Zx_Build.thy ===== *)
theory Zx_Build
  imports Zx_Errors
begin

text \<open>
  The build script \<open>setup.py\<close>: which Zig target is built, where the source tree is found, which
  libraries are linked and how the linker command is rewritten; \<open>build_extension\<close> composes them.

  What the script reads of its surroundings is the record \<open>build_env\<close>: environment variables, platform,
  machine, the files that exist, and the interpreter's directories. A path is the list of its
  components; \<open>Path(text)\<close>, \<open>Path.resolve\<close>, \<open>str(path)\<close> and the ordering of paths depend on the
  platform and are fields too. Running \<open>zig build\<close> is the parameter \<open>zig_build\<close>: it fails, or yields the
  surroundings with the files it produced. A set of paths is given by the list of its iteration.
\<close>

type_synonym path = "string list"

record build_env =
  be_environ :: "string \<Rightarrow> string option"
  be_platform :: string
  be_machine :: string
  be_is_file :: "path \<Rightarrow> bool"
  be_is_dir :: "path \<Rightarrow> bool"
  be_path :: "string \<Rightarrow> path"
  be_resolve :: "path \<Rightarrow> path"
  be_str :: "path \<Rightarrow> string"
  be_sorted :: "path list \<Rightarrow> path list"
  be_python_roots :: "path list"
  be_include_dirs :: "path list"

abbreviation build_error :: "string \<Rightarrow> 'a pyres" where
  "build_error m \<equiv> Inl (exc PyRuntimeError m)"

section \<open>Targets\<close>

text \<open>A variable that is unset or empty does not override.\<close>

definition override :: "build_env \<Rightarrow> string \<Rightarrow> string option" where
  "override E name = (case be_environ E name of Some v \<Rightarrow> if v = [] then None else Some v | None \<Rightarrow> None)"

definition zig_target_args :: "build_env \<Rightarrow> string list pyres" where
  "zig_target_args E =
    (case override E ''ZXLITE_ZIG_TARGET'' of
       Some target \<Rightarrow> Inr [''-Dtarget='' @ target]
     | None \<Rightarrow>
         let machine = py_lower (be_machine E) in
         if be_platform E = ''win32'' then
           (if machine \<notin> {''amd64'', ''x86_64''}
            then build_error ''unsupported Windows wheel architecture: ''
            else Inr [''-Dtarget=x86_64-windows-msvc''])
         else if be_platform E \<noteq> ''darwin'' then Inr []
         else if machine \<in> {''arm64'', ''aarch64''} then Inr [''-Dtarget=aarch64-macos.11.0'']
         else if machine = ''x86_64'' then Inr [''-Dtarget=x86_64-macos.10.15'']
         else build_error ''unsupported macOS wheel architecture: '')"

definition zig_openssl_args :: "build_env \<Rightarrow> string list" where
  "zig_openssl_args E =
    (case override E ''ZXLITE_OPENSSL_PREFIX'' of Some sdk \<Rightarrow> [''-Dopenssl-prefix='' @ sdk] | None \<Rightarrow> [])"

section \<open>Locating files\<close>

definition is_root :: "build_env \<Rightarrow> path \<Rightarrow> bool" where
  "is_root E p = (be_is_file E (p @ [''build.zig'']) \<and> be_is_file E (p @ [''src'', ''capi.zig'']))"

text \<open>\<open>(PACKAGE_DIR, *PACKAGE_DIR.parents)\<close>: the directory and its ancestors, nearest first.\<close>

definition ancestors :: "path \<Rightarrow> path list" where
  "ancestors p = rev (prefixes p)"

definition root_candidates :: "path \<Rightarrow> path list" where
  "root_candidates p = concat (map (\<lambda>a. [a, a @ [''zaxonlite'']]) (ancestors p))"

definition find_zaxonlite_root :: "build_env \<Rightarrow> path \<Rightarrow> path pyres" where
  "find_zaxonlite_root E package_dir =
    (case override E ''ZAXONLITE_ROOT'' of
       Some text \<Rightarrow>
         let root = be_resolve E (be_path E text) in
         if is_root E root then Inr root else build_error ''ZAXONLITE_ROOT=''
     | None \<Rightarrow>
         (case find (is_root E) (root_candidates package_dir) of
            Some candidate \<Rightarrow> Inr candidate
          | None \<Rightarrow> build_error ''cannot locate the zaxonlite source tree (build.zig with src/capi.zig) above ''))"

definition openssl_link_args :: "build_env \<Rightarrow> string list pyres" where
  "openssl_link_args E =
    (let sdk = be_environ E ''ZXLITE_OPENSSL_PREFIX'' in
     if be_platform E = ''win32'' then
       (case sdk of
          None \<Rightarrow> build_error ''ZXLITE_OPENSSL_PREFIX must point to a static OpenSSL 3 SDK when building a Windows wheel''
        | Some p \<Rightarrow>
            let static = [be_path E p @ [''lib'', ''libssl.lib''], be_path E p @ [''lib'', ''libcrypto.lib'']] in
            raise_if (list_ex (\<lambda>a. \<not> be_is_file E a) static)
              (exc PyRuntimeError ''Windows OpenSSL SDK is missing static libraries: '')
            (Inr (map (be_str E) static @ [''-lws2_32'', ''-lcrypt32'', ''-ladvapi32'', ''-luser32''])))
     else
       let sdk = (if sdk = None \<and> be_platform E = ''darwin'' then Some ''/opt/homebrew/opt/openssl@3'' else sdk) in
       (case sdk of
          Some p \<Rightarrow>
            let lib_dir = be_path E p @ [''lib'']; static = [lib_dir @ [''libssl.a''], lib_dir @ [''libcrypto.a'']] in
            if p = [] then Inr [''-lssl'', ''-lcrypto'']
            else if list_all (be_is_file E) static then Inr (map (be_str E) static)
            else if be_is_dir E lib_dir then Inr [''-L'' @ be_str E lib_dir, ''-lssl'', ''-lcrypto'']
            else Inr [''-lssl'', ''-lcrypto'']
        | None \<Rightarrow> Inr [''-lssl'', ''-lcrypto'']))"

definition static_library :: "build_env \<Rightarrow> path \<Rightarrow> string \<Rightarrow> path" where
  "static_library E tree name =
    tree @ [''zig-out'', ''lib'', if be_platform E = ''win32'' then name @ ''.lib'' else ''lib'' @ name @ ''.a'']"

definition windows_python_library :: "build_env \<Rightarrow> path pyres" where
  "windows_python_library E =
    (case find (be_is_file E) (map (\<lambda>root. root @ [''libs'', ''python3.lib'']) (be_python_roots E)) of
       Some candidate \<Rightarrow> Inr candidate
     | None \<Rightarrow> build_error ''CPython Stable ABI import library python3.lib was not found under '')"

section \<open>The linker command\<close>

definition unsupported_zig_linker_flags :: "string list" where
  "unsupported_zig_linker_flags = [''-Wl,--exclude-libs,ALL'', ''-Wl,-Bsymbolic-functions'']"

text \<open>The loop over the flags, appending to the command.\<close>

fun rewrite_flags :: "string \<Rightarrow> string list \<Rightarrow> string list \<Rightarrow> string list" where
  "rewrite_flags platform_name [] rewritten = rewritten"
| "rewrite_flags platform_name (flag # flags) rewritten =
    (if startswith platform_name ''linux'' \<and> flag \<in> set unsupported_zig_linker_flags
     then rewrite_flags platform_name flags rewritten
     else rewrite_flags platform_name flags (rewritten @ [if flag = ''-bundle'' then ''-shared'' else flag]))"

definition zig_linker_command :: "string list \<Rightarrow> string \<Rightarrow> string option \<Rightarrow> string list pyres" where
  "zig_linker_command original platform_name macos_target =
    rbind
      (if platform_name = ''darwin'' then
         (case macos_target of
            None \<Rightarrow> build_error ''macOS Zig linking requires an explicit target''
          | Some target \<Rightarrow> Inr [''zig'', ''cc'', ''-target'', target])
       else Inr [''zig'', ''cc''])
      (\<lambda>start.
        let rewritten = rewrite_flags platform_name (drop 1 original) start in
        Inr (if ''-shared'' \<in> set rewritten then rewritten else rewritten @ [''-shared'']))"

section \<open>Building the extension\<close>

record extension =
  ex_sources :: "string list"
  ex_define_macros :: "(string \<times> string) list"
  ex_include_dirs :: "string list"
  ex_extra_objects :: "string list"
  ex_extra_link_args :: "string list"

text \<open>
  What a successful build did: the \<open>zig build\<close> command and its directory, the extension as it
  was completed, and either the direct Windows command or the linker command installed for
  setuptools' own \<open>build_extension\<close>, which is forced to relink.
\<close>

datatype link_step = WindowsCommand "string list" | LinkerSo "string list"

record build_result =
  br_build_command :: "string list"
  br_root :: path
  br_ext :: extension
  br_link :: link_step

definition removeprefix :: "string \<Rightarrow> string \<Rightarrow> string" where
  "removeprefix s p = (if startswith s p then drop (length p) s else s)"

text \<open>\<open>zig_target_args()[0].removeprefix("-Dtarget=")\<close>.\<close>

definition link_target :: "build_env \<Rightarrow> string pyres" where
  "link_target E = rbind (zig_target_args E) (\<lambda>args.
     case args of [] \<Rightarrow> Inl (exc PyIndexError ''list index out of range'') | a # _ \<Rightarrow> Inr (removeprefix a ''-Dtarget=''))"

definition link_with_zig_cc :: "build_env \<Rightarrow> string list \<Rightarrow> string list pyres" where
  "link_with_zig_cc E linker_so =
    rbind (if be_platform E = ''darwin'' then rbind (link_target E) (\<lambda>t. Inr (Some t)) else Inr None) (\<lambda>target.
    zig_linker_command linker_so (be_platform E) target)"

definition build_windows_extension :: "build_env \<Rightarrow> path \<Rightarrow> path \<Rightarrow> extension \<Rightarrow> string list pyres" where
  "build_windows_extension E package_dir output ext =
    (case ex_sources ext of
       [source] \<Rightarrow>
         rbind (link_target E) (\<lambda>target.
         rbind (windows_python_library E) (\<lambda>python_library.
         Inr ([''zig'', ''cc'', ''-target'', target, ''-shared'', ''-O2'', ''-std=c11'', ''-D_CRT_SECURE_NO_WARNINGS''] @
           map (\<lambda>(name, val). ''-D'' @ name @ ''='' @ val) (ex_define_macros ext) @
           map (\<lambda>p. ''-I'' @ be_str E p) (be_sorted E (map (be_path E) (ex_include_dirs ext) @ be_include_dirs E)) @
           [be_str E (package_dir @ [source])] @ ex_extra_objects ext @ [be_str E python_library] @
           ex_extra_link_args ext @ [''-o'', be_str E output])))
     | _ \<Rightarrow> build_error ''the Windows zxlite build expects one C source'')"

definition build_extension ::
  "(string list \<Rightarrow> path \<Rightarrow> build_env pyres) \<Rightarrow> build_env \<Rightarrow> path \<Rightarrow> path \<Rightarrow> string list \<Rightarrow> extension \<Rightarrow> build_result pyres" where
  "build_extension zig_build E package_dir output linker_so ext =
    rbind (find_zaxonlite_root E package_dir) (\<lambda>root.
    rbind (zig_target_args E) (\<lambda>target_args.
    let command = [''zig'', ''build'', ''install-cabi'', ''-Doptimize=ReleaseSafe''] @ target_args @ zig_openssl_args E in
    rbind (zig_build command root) (\<lambda>E'.
    let library = static_library E' root ''zaxonlite''; sqlite = static_library E' root ''sqlite3'' in
    raise_if (\<not> be_is_file E' library) (exc PyRuntimeError ''zig build did not produce '')
    (raise_if (\<not> be_is_file E' sqlite) (exc PyRuntimeError ''zig build did not produce '')
    (rbind (openssl_link_args E') (\<lambda>openssl_args.
     let ext' = ext\<lparr>ex_include_dirs := ex_include_dirs ext @ [be_str E' (root @ [''zig-out'', ''include''])],
                    ex_extra_objects := ex_extra_objects ext @ [be_str E' library, be_str E' sqlite],
                    ex_extra_link_args := ex_extra_link_args ext @ openssl_args\<rparr>
     in rbind
       (if be_platform E' = ''win32''
        then rbind (build_windows_extension E' package_dir output ext') (\<lambda>c. Inr (WindowsCommand c))
        else rbind (link_with_zig_cc E' linker_so) (\<lambda>c. Inr (LinkerSo c)))
       (\<lambda>link. Inr \<lparr>br_build_command = command, br_root = root, br_ext = ext', br_link = link\<rparr>)))))))"

section \<open>Properties\<close>

definition dropped_flag :: "string \<Rightarrow> string \<Rightarrow> bool" where
  "dropped_flag platform_name flag \<longleftrightarrow> startswith platform_name ''linux'' \<and> flag \<in> set unsupported_zig_linker_flags"

lemma rewrite_flags_eq:
  "rewrite_flags p flags acc =
     acc @ map (\<lambda>f. if f = ''-bundle'' then ''-shared'' else f) (filter (\<lambda>f. \<not> dropped_flag p f) flags)"
  by (induction flags arbitrary: acc) (auto simp: dropped_flag_def)

text \<open>The flags whose fate the rewriting does not decide.\<close>

definition plain_flag :: "string \<Rightarrow> string \<Rightarrow> bool" where
  "plain_flag p f \<longleftrightarrow> \<not> dropped_flag p f \<and> f \<noteq> ''-bundle'' \<and> f \<noteq> ''-shared''"

lemma filter_rewritten:
  "filter (plain_flag p) (map (\<lambda>f. if f = ''-bundle'' then ''-shared'' else f) (filter (\<lambda>f. \<not> dropped_flag p f) flags)) =
     filter (plain_flag p) flags"
  by (induction flags) (auto simp: plain_flag_def)

lemma kept_flags: "\<not> dropped_flag p ''-shared''"
  by (simp add: dropped_flag_def unsupported_zig_linker_flags_def)

lemma finish_command: "(if x \<in> set (a @ b) then a @ b else (a @ b) @ [x]) = a @ b @ (if x \<in> set (a @ b) then [] else [x])"
  by simp

text \<open>
  The linker command setuptools would run is adapted without losing a flag: it becomes a \<open>zig cc\<close>
  command, on macOS with an explicit target, that builds a shared object, holds neither \<open>-bundle\<close>
  nor, on Linux, a flag Zig rejects, and keeps every other flag in its order.
\<close>

lemma zig_linker_command_sound:
  assumes "zig_linker_command original p t = Inr cmd"
  shows "\<exists>flags. cmd = [''zig'', ''cc''] @ (if p = ''darwin'' then [''-target'', the t] else []) @ flags \<and>
    (p = ''darwin'' \<longrightarrow> t \<noteq> None) \<and> ''-shared'' \<in> set cmd \<and> ''-bundle'' \<notin> set flags \<and>
    (\<forall>f \<in> set flags. \<not> dropped_flag p f) \<and> filter (plain_flag p) flags = filter (plain_flag p) (drop 1 original)"
proof -
  let ?fs = "map (\<lambda>f. if f = ''-bundle'' then ''-shared'' else f) (filter (\<lambda>f. \<not> dropped_flag p f) (drop 1 original))"
  let ?start = "[''zig'', ''cc''] @ (if p = ''darwin'' then [''-target'', the t] else [])"
  let ?more = "if ''-shared'' \<in> set (?start @ ?fs) then [] else [''-shared'']"
  have t: "p = ''darwin'' \<longrightarrow> t \<noteq> None" and cmd: "cmd = ?start @ ?fs @ ?more"
  proof -
    let ?m = "if p = ''darwin'' then (case t of None \<Rightarrow> build_error ''macOS Zig linking requires an explicit target''
        | Some target \<Rightarrow> Inr [''zig'', ''cc'', ''-target'', target]) else Inr [''zig'', ''cc'']"
    from assms have m: "?m = Inr ?start"
      by (cases "p = ''darwin''"; cases t) (simp_all add: zig_linker_command_def)
    then show "p = ''darwin'' \<longrightarrow> t \<noteq> None" by (cases t) auto
    from assms show "cmd = ?start @ ?fs @ ?more"
      unfolding zig_linker_command_def m rbind_simps Let_def rewrite_flags_eq finish_command
      by (simp only: sum.inject)
  qed
  have more: "set ?more \<subseteq> {''-shared''}" by (simp split del: if_split add: if_split [of "\<lambda>x. set x \<subseteq> _"])
  have fs: "''-bundle'' \<notin> set ?fs" "\<forall>f \<in> set ?fs. \<not> dropped_flag p f" using kept_flags by auto
  have "''-shared'' \<noteq> ''-bundle''" by simp
  define flags where "flags = ?fs @ ?more"
  from more fs kept_flags \<open>''-shared'' \<noteq> _\<close> have "''-bundle'' \<notin> set flags" "\<forall>f \<in> set flags. \<not> dropped_flag p f"
    unfolding flags_def set_append by blast+
  moreover have "filter (plain_flag p) flags = filter (plain_flag p) (drop 1 original)"
    unfolding flags_def by (simp add: filter_rewritten) (simp add: plain_flag_def)
  moreover have "cmd = [''zig'', ''cc''] @ (if p = ''darwin'' then [''-target'', the t] else []) @ flags"
    unfolding cmd flags_def by (simp only: append_assoc)
  moreover have "''-shared'' \<in> set cmd" unfolding cmd by auto
  ultimately show ?thesis using t by blast
qed

lemma zig_linker_command_sound_example:
  "\<exists>cmd. zig_linker_command [''gcc'', ''-bundle'', ''-Wl,-Bsymbolic-functions'', ''-O2''] ''linux'' None = Inr cmd \<and>
     filter (plain_flag ''linux'') cmd = [''zig'', ''cc'', ''-O2''] \<and> ''-shared'' \<in> set cmd"
proof -
  let ?r = "zig_linker_command [''gcc'', ''-bundle'', ''-Wl,-Bsymbolic-functions'', ''-O2''] ''linux'' None"
  obtain cmd where r: "?r = Inr cmd" by (simp add: zig_linker_command_def Let_def)
  have p: "plain_flag ''linux'' ''zig''" "plain_flag ''linux'' ''cc''"
    "filter (plain_flag ''linux'') (drop 1 [''gcc'', ''-bundle'', ''-Wl,-Bsymbolic-functions'', ''-O2'']) = [''-O2'']"
    by code_simp+
  from zig_linker_command_sound [OF r] show ?thesis using r p by auto
qed

section \<open>The source tree\<close>

lemma root_candidates_snoc: "root_candidates (p @ [x]) = [p @ [x], (p @ [x]) @ [''zaxonlite'']] @ root_candidates p"
  by (simp add: root_candidates_def ancestors_def prefixes_snoc)

lemma root_candidates_Nil: "root_candidates [] = [[], [''zaxonlite'']]"
  by (simp add: root_candidates_def ancestors_def)

text \<open>\<open>r\<close> is the tree found at the ancestor \<open>a\<close> of \<open>p\<close>, and none is found nearer.\<close>

definition found_at :: "build_env \<Rightarrow> path \<Rightarrow> path \<Rightarrow> path \<Rightarrow> bool" where
  "found_at E p a r \<longleftrightarrow> prefix a p \<and> is_root E r \<and> (r = a \<or> r = a @ [''zaxonlite''] \<and> \<not> is_root E a) \<and>
     (\<forall>q. strict_prefix a q \<longrightarrow> prefix q p \<longrightarrow> \<not> is_root E q \<and> \<not> is_root E (q @ [''zaxonlite'']))"

definition no_tree :: "build_env \<Rightarrow> path \<Rightarrow> bool" where
  "no_tree E p \<longleftrightarrow> (\<forall>q. prefix q p \<longrightarrow> \<not> is_root E q \<and> \<not> is_root E (q @ [''zaxonlite'']))"

lemma longer_not_prefix: "strict_prefix (p @ [x]) q \<Longrightarrow> \<not> prefix q p"
  by (auto dest!: prefix_length_le prefix_length_less)

lemma find_candidates:
  "case find (is_root E) (root_candidates p) of Some r \<Rightarrow> \<exists>a. found_at E p a r | None \<Rightarrow> no_tree E p"
proof (induction p rule: rev_induct)
  case Nil
  then show ?case by (auto simp: root_candidates_Nil found_at_def no_tree_def)
next
  case (snoc x p)
  let ?p = "p @ [x]"
  consider "is_root E ?p" | "\<not> is_root E ?p" "is_root E (?p @ [''zaxonlite''])"
    | "\<not> is_root E ?p" "\<not> is_root E (?p @ [''zaxonlite''])" by blast
  then show ?case
  proof cases
    case 3
    then have step: "find (is_root E) (root_candidates ?p) = find (is_root E) (root_candidates p)"
      by (simp add: root_candidates_snoc)
    have up: "found_at E ?p a r" if "found_at E p a r" for a r
      using that 3 by (auto simp: found_at_def)
    show ?thesis
      using snoc up 3 by (auto simp: step no_tree_def split: option.splits)
  qed (auto simp: root_candidates_snoc found_at_def longer_not_prefix intro!: exI [of _ ?p])
qed

lemma find_root_cases:
  "case find_zaxonlite_root E p of
     Inr r \<Rightarrow> is_root E r \<and> (case override E ''ZAXONLITE_ROOT'' of
        Some text \<Rightarrow> r = be_resolve E (be_path E text)
      | None \<Rightarrow> (\<exists>a. found_at E p a r))
   | Inl e \<Rightarrow> exc_type e = PyRuntimeError \<and> (case override E ''ZAXONLITE_ROOT'' of
        Some text \<Rightarrow> \<not> is_root E (be_resolve E (be_path E text))
      | None \<Rightarrow> no_tree E p)"
  using find_candidates [of E p]
  by (auto simp: find_zaxonlite_root_def Let_def found_at_def split: option.splits)

text \<open>
  The source tree that is built is a genuine one, holding both marker files: the one the
  environment names, or else the nearest on the way up from the package, an ancestor before a sibling
  checkout beside it; the search fails only when there is none, with a \<open>RuntimeError\<close>.
\<close>

lemma find_root_nearest:
  "case find_zaxonlite_root E p of
     Inr r \<Rightarrow> is_root E r \<and> (case override E ''ZAXONLITE_ROOT'' of
        Some text \<Rightarrow> r = be_resolve E (be_path E text)
      | None \<Rightarrow> (\<exists>a. found_at E p a r))
   | Inl e \<Rightarrow> exc_type e = PyRuntimeError \<and> (case override E ''ZAXONLITE_ROOT'' of
        Some text \<Rightarrow> \<not> is_root E (be_resolve E (be_path E text))
      | None \<Rightarrow> no_tree E p)"
  by (rule find_root_cases)

section \<open>The whole build\<close>

lemma zig_target_shape: "zig_target_args E = Inr args \<Longrightarrow> args = [] \<or> (\<exists>t. args = [''-Dtarget='' @ t])"
  by (auto simp: zig_target_args_def Let_def split: option.splits if_splits)

lemma link_target_shape: "link_target E = Inr t \<Longrightarrow> zig_target_args E = Inr [''-Dtarget='' @ t]"
proof -
  assume "link_target E = Inr t"
  then obtain as where as: "zig_target_args E = Inr as"
    "(case as of [] \<Rightarrow> Inl (exc PyIndexError ''list index out of range'') | a # _ \<Rightarrow> Inr (removeprefix a ''-Dtarget='')) = Inr t"
    unfolding link_target_def rbind_Inr_iff by blast
  then obtain a args where "zig_target_args E = Inr (a # args)" "t = removeprefix a ''-Dtarget=''"
    by (cases as) auto
  with zig_target_shape [of E "a # args"] show ?thesis by (auto simp: removeprefix_def)
qed

lemma zig_target_cong:
  "be_platform E' = be_platform E \<Longrightarrow> be_environ E' = be_environ E \<Longrightarrow> be_machine E' = be_machine E \<Longrightarrow>
     zig_target_args E' = zig_target_args E"
  unfolding zig_target_args_def override_def by (simp only:)

text \<open>Running \<open>zig build\<close> adds files and changes nothing else the script reads.\<close>

definition only_adds_files :: "(string list \<Rightarrow> path \<Rightarrow> build_env pyres) \<Rightarrow> build_env \<Rightarrow> bool" where
  "only_adds_files zig_build E \<longleftrightarrow>
     (\<forall>command dir E'. zig_build command dir = Inr E' \<longrightarrow>
        be_platform E' = be_platform E \<and> be_environ E' = be_environ E \<and> be_machine E' = be_machine E)"

text \<open>The target a link command names, if it names one where the script puts it.\<close>

definition links_for :: "string \<Rightarrow> link_step \<Rightarrow> bool" where
  "links_for t l \<longleftrightarrow> take 4 (case l of WindowsCommand c \<Rightarrow> c | LinkerSo c \<Rightarrow> c) = [''zig'', ''cc'', ''-target'', t]"

lemma windows_links_for:
  "build_windows_extension E p out ext = Inr c \<Longrightarrow> \<exists>t. link_target E = Inr t \<and> links_for t (WindowsCommand c)"
  by (auto simp: build_windows_extension_def rbind_Inr_iff links_for_def split: list.splits)

lemma darwin_links_for:
  assumes "link_with_zig_cc E lso = Inr c" and "be_platform E = ''darwin''"
  shows "\<exists>t. link_target E = Inr t \<and> links_for t (LinkerSo c)"
  using assms
  by (auto simp: link_with_zig_cc_def zig_linker_command_def rbind_Inr_iff rewrite_flags_eq links_for_def Let_def
      split: if_splits)

text \<open>
  C40. A build that succeeds links what it built: the two static libraries exist after \<open>zig build\<close> ran
  in a genuine source tree and are the objects added to the extension; on Windows and macOS the
  target of the link command is the target the libraries were built for.
\<close>

theorem build_links_what_it_built:
  assumes "build_extension zig_build E package_dir out linker_so ext = Inr b" and "only_adds_files zig_build E"
  shows "\<exists>E'. is_root E (br_root b) \<and> zig_build (br_build_command b) (br_root b) = Inr E' \<and>
    list_all (be_is_file E') [static_library E (br_root b) ''zaxonlite'', static_library E (br_root b) ''sqlite3''] \<and>
    ex_extra_objects (br_ext b) = ex_extra_objects ext @
      map (be_str E') [static_library E (br_root b) ''zaxonlite'', static_library E (br_root b) ''sqlite3''] \<and>
    (be_platform E \<in> {''win32'', ''darwin''} \<longrightarrow>
       (\<exists>t. ''-Dtarget='' @ t \<in> set (br_build_command b) \<and> links_for t (br_link b)))"
proof -
  from assms(1) obtain target E' where
    tree: "find_zaxonlite_root E package_dir = Inr (br_root b)" and target: "zig_target_args E = Inr target" and
    command: "br_build_command b = [''zig'', ''build'', ''install-cabi'', ''-Doptimize=ReleaseSafe''] @ target @ zig_openssl_args E" and
    run: "zig_build (br_build_command b) (br_root b) = Inr E'" and
    files: "be_is_file E' (static_library E' (br_root b) ''zaxonlite'')" "be_is_file E' (static_library E' (br_root b) ''sqlite3'')" and
    objects: "ex_extra_objects (br_ext b) = ex_extra_objects ext @
      [be_str E' (static_library E' (br_root b) ''zaxonlite''), be_str E' (static_library E' (br_root b) ''sqlite3'')]" and
    link: "if be_platform E' = ''win32'' then \<exists>c. br_link b = WindowsCommand c \<and> build_windows_extension E' package_dir out (br_ext b) = Inr c
      else \<exists>c. br_link b = LinkerSo c \<and> link_with_zig_cc E' linker_so = Inr c"
    by (auto simp: build_extension_def rbind_Inr_iff raise_if_Inr_iff Let_def split: if_splits)
  from assms(2) run have same: "be_platform E' = be_platform E" "be_environ E' = be_environ E" "be_machine E' = be_machine E"
    by (auto simp: only_adds_files_def)
  have lib: "static_library E' (br_root b) n = static_library E (br_root b) n" for n
    by (simp add: static_library_def same)
  have "\<exists>t. ''-Dtarget='' @ t \<in> set (br_build_command b) \<and> links_for t (br_link b)"
    if "be_platform E \<in> {''win32'', ''darwin''}"
  proof -
    from link that same(1) obtain t where t: "link_target E' = Inr t" "links_for t (br_link b)"
      by (auto split: if_splits dest: windows_links_for darwin_links_for)
    from link_target_shape [OF t(1)] target zig_target_cong [OF same] have "target = [''-Dtarget='' @ t]" by simp
    with t(2) command show ?thesis by auto
  qed
  moreover have "is_root E (br_root b)" using find_root_cases [of E package_dir] tree by simp
  ultimately show ?thesis using run files objects by (auto simp: lib)
qed

definition demo_env :: build_env where
  "demo_env = \<lparr>be_environ = (\<lambda>_. None), be_platform = ''darwin'', be_machine = ''ARM64'',
     be_is_file = (\<lambda>p. p \<noteq> [''zaxonlite'', ''languages'', ''build.zig'']), be_is_dir = (\<lambda>_. True),
     be_path = (\<lambda>s. [s]), be_resolve = (\<lambda>p. p), be_str = (\<lambda>p. CHR ''/'' # py_join (CHR ''/'') p),
     be_sorted = (\<lambda>ps. ps), be_python_roots = [], be_include_dirs = []\<rparr>"

definition demo_ext :: extension where
  "demo_ext = \<lparr>ex_sources = [''src/native/module.c''], ex_define_macros = [(''Py_LIMITED_API'', ''0x030C0000'')],
     ex_include_dirs = [], ex_extra_objects = [], ex_extra_link_args = []\<rparr>"

theorem build_links_what_it_built_witness:
  "\<exists>b t. build_extension (\<lambda>_ _. Inr demo_env) demo_env [''zaxonlite'', ''languages''] [''out.so''] [''cc'', ''-bundle''] demo_ext = Inr b \<and>
     ''-Dtarget='' @ t \<in> set (br_build_command b) \<and> links_for t (br_link b)"
proof -
  let ?r = "build_extension (\<lambda>_ _. Inr demo_env) demo_env [''zaxonlite'', ''languages''] [''out.so''] [''cc'', ''-bundle''] demo_ext"
  have "\<not> isl ?r" by code_simp
  then obtain b where b: "?r = Inr b" by (cases ?r) auto
  have "only_adds_files (\<lambda>_ _. Inr demo_env) demo_env" "be_platform demo_env = ''darwin''"
    by (simp_all add: only_adds_files_def demo_env_def)
  with build_links_what_it_built [OF b] b show ?thesis by auto
qed

end
