(* ===== verification/Spec2Isabelle.thy ===== *)
theory Spec2Isabelle
  imports Zx_Examples Zx_Blocks Zx_Stack Zx_Savepoints Zx_Build
begin

text \<open>
  A verification library of \<open>zxlite\<close>, the Python driver of zaxonlite
  (\<open>src/languages/python/src/zxlite\<close>, \<open>setup.py\<close> and \<open>examples/\<close>).

  \<^bold>\<open>The program.\<close> \<open>dbapi.py\<close> is a DB-API 2.0 driver. \<open>connect\<close> validates its arguments and opens a
  \<open>Connection\<close> on a local node directory or a \<open>RemoteConnection\<close> to a cluster named by a DSN. A local
  connection runs its native calls on a dedicated worker thread and admits its callers
  through a first-in first-out lane; in Gate A every statement commits by itself, in Gate C statements run in a live
  transaction of the node. Cursors hold results and deliver rows, \<open>rows.py\<close> is the row object. \<open>server.py\<close> hosts a
  cluster member, \<open>sqlalchemy.py\<close> is a dialect on top of the driver, \<open>__init__.py\<close> checks the native
  version, \<open>setup.py\<close> builds the extension module. Of the extension module \<open>module.c\<close> and the library behind
  it, the parts that convert values, keep transactions and sessions or host a member are modelled; the rest
  appears as parameters with named laws.

  \<^bold>\<open>The theories.\<close>

  \<^item> \<open>Zx_Prelude\<close>: Python strings, values and results; the locale \<open>state_machine\<close> that lifts an invariant
    to every reachable state.
  \<^item> \<open>Zx_Errors\<close>: the exception classes (as an order: \<open>isinstance\<close>), \<open>_map_native_error\<close>,
    \<open>_map_remote_error\<close>. The translations are exact where clients branch on them.
  \<^item> \<open>Zx_Sql\<close>: \<open>_leading_keyword\<close>, \<open>_scan_sql\<close>, \<open>_sql_mentions_returning\<close>, each loop with its
    termination proof. The index-juggling scanner equals a recursive reference scanner.
  \<^item> \<open>Zx_Lane\<close>: \<open>_WriteLane.enter\<close> as the critical sections of any number of threads with a clock.
    Mutual exclusion and arrival order, progress, and expired waiters never enter.
  \<^item> \<open>Zx_Dsn\<close>, \<open>Zx_Connect\<close>: the DSN grammar with strict percent decoding, identities, \<open>connect\<close> and
    \<open>_connect_local\<close>. Whatever is accepted is well formed and safe.
  \<^item> \<open>Zx_Rows\<close>, \<open>Zx_Cursor\<close>: \<open>Row\<close> and \<open>Cursor\<close>. Every row is delivered once.
  \<^item> \<open>Zx_Native\<close>: methods as state transformers that return, raise or never come back; \<open>_NativeWorker\<close>;
    the record of the extension module's functions and the locale \<open>live_native\<close> of its laws.
  \<^item> \<open>Zx_Stack\<close>: \<open>_NativeWorker.__init__\<close>, the process-wide stack size under its lock, for any number of
    threads. Every worker gets the big stack and the size is put back.
  \<^item> \<open>Zx_Values\<close>: values across the extension module and the C interface (\<open>bind_params\<close>, \<open>convert_result\<close>, the
    statement functions and search of \<open>module.c\<close>, \<open>valuesFromC\<close> and the result accessors of \<open>capi.zig\<close>).
    Values survive the round trip, what is refused is exact, and every buffer is pinned for the call only.
  \<^item> \<open>Zx_Node\<close>: the live-transaction functions of \<open>node.zig\<close> below \<open>zx_live_exec\<close>; they satisfy \<open>live_native\<close>.
  \<^item> \<open>Zx_Local\<close>, \<open>Zx_Sections\<close>: \<open>_BaseConnection\<close> and \<open>Connection\<close>, every method, split where it may wait
    for the lane. \<open>in_transaction\<close> is sound in all interleavings, batches are atomic, Gate C is isolated,
    open connections never hang (locale \<open>open_states\<close>); and the races and failures in which the code does hang or wedge.
  \<^item> \<open>Zx_Blocks\<close>: \<open>with connection:\<close> around any client program of statements. A block is one atomic step:
    it publishes the effects of the statements that returned, or nothing.
  \<^item> \<open>Zx_Sessions\<close>: the session functions of \<open>node.zig\<close> (\<open>openSession\<close>, \<open>checkSession\<close>, the write path with its
    session record, \<open>expireSessions\<close>) below \<open>execute_idempotent\<close>. They satisfy the locale
    \<open>repeatable\<close>: retries apply once under any faults; session numbers are never reused.
  \<^item> \<open>Zx_Remote\<close>: \<open>RemoteConnection\<close>. Only legal requests leave the process and an ambiguous outcome is final.
  \<^item> \<open>Zx_Server\<close>: \<open>start_server\<close> and \<open>Server\<close>, with the extension module's cluster handle as the instance of
    the locale \<open>cluster_handle\<close>. Accepted registries, the lifecycle under any interleaving, terminal closes.
  \<^item> \<open>Zx_Version\<close>: \<open>_check_native_version\<close> and version parsing. \<open>Zx_Dialect\<close>: the SQLAlchemy dialect;
    URLs reach the driver unchanged. \<open>Zx_Savepoints\<close>: its savepoint hooks, through connection and node,
    refine a stack of names.
  \<^item> \<open>Zx_Build\<close>: \<open>setup.py\<close>. What is linked is what was built.
  \<^item> \<open>Zx_Examples\<close>: the four programs under \<open>examples/\<close> over the models of the interface they call. They
    release what they open on every path, and the retry example shows a replay.

  \<^bold>\<open>State and effects.\<close> A connection, cursor, server or lane is a record with the attributes of the
  object; a method maps a state to an outcome and a state. A thread switch is possible where the code waits: at
  the lane, at the close lock and at the worker's queue. Critical sections run alone, which the lane's own
  theorems justify. No function has fuel: loops are structural or have a measure, and a call to
  a stopped worker has the outcome \<open>Blocked\<close>.

  \<^bold>\<open>Bounds.\<close> Characters are code points below 256; a DSN whose escapes decode beyond them is
  marked and nothing is claimed about it. Timeouts are finite rationals and products with 1000 are exact.
  Integers that the C side truncates are taken modulo \<open>2^32\<close> (savepoint ordinals, member ids, search sizes)
  or \<open>2^64\<close> (sessions, sequences); bound integers are 64-bit words. At the boundary of the extension module
  text is all of Unicode, and only text beyond the driver's alphabet is marked when it enters a row. A failed safety check of the native library, which ends the process, is the
  error value \<open>Panic\<close>. What the environment of the session store does is a finite list of faults, which
  the theorems quantify over.

  \<^bold>\<open>Not modelled.\<close> The functions of the extension module that only forward a call, running out of memory,
  and the rest of the Zig library (SQLite, consensus, transport): reached only through parameters. Re-exports, module
  constants of PEP 249: no behaviour of their own. Benchmarks: load generators outside the driver.
  Warnings, docstrings and the literal text that the examples print around values.
\<close>

section \<open>A hosted member can be connected to\<close>

text \<open>
  C19. \<open>connect(server.endpoint)\<close> works for every server that hosts a Unix socket: when \<open>start_server\<close> has
  returned with such an endpoint, \<open>connect\<close> with default arguments accepts exactly that endpoint as its
  only seed and plans a linearizable remote connection without TLS or pre-shared keys. The checks of the
  two modules, written separately, and the NUL check of the extension module agree.
\<close>

theorem served_endpoint_connects:
  assumes "start_server (box_native Z) nt a n = (Return (), Some sv)" and "startswith (sv_endpoint sv) ''unix:''"
  shows "\<exists>plan. connect nt (TStr (sv_endpoint sv)) connect_defaults = Inr (PlanRemote plan) \<and>
    r_seeds plan = [sv_endpoint sv] \<and> r_read_level plan = ''linearizable'' \<and>
    r_tls_ca plan = None \<and> r_auth_file plan = None \<and> \<not> r_allow_psk plan"
  by (rule served_unix_connects [OF assms])

theorem served_endpoint_connects_witness:
  "\<exists>sv plan. start_server (box_native demo_member) False (example_server_args ''srv'') None = (Return (), Some sv) \<and>
    sv_endpoint sv = ''unix:/srv/example.sock'' \<and>
    connect False (TStr ''unix:/srv/example.sock'') connect_defaults = Inr (PlanRemote plan) \<and>
    r_seeds plan = [''unix:/srv/example.sock'']"
proof -
  let ?sv = "server_init ''unix:/srv/example.sock'' (example_server_args ''srv'') 0 (Some (0, []))"
  have run: "start_server (box_native demo_member) False (example_server_args ''srv'') None = (Return (), Some ?sv)"
    by code_simp
  have unix: "sv_endpoint ?sv = ''unix:/srv/example.sock''" by (simp add: server_init_def)
  have "startswith (sv_endpoint ?sv) ''unix:''" by (simp add: unix)
  from served_endpoint_connects [OF run this] run unix show ?thesis by auto
qed

end
